theory Spec2Isabelle
  imports Complex_Main "HOL-Library.AList"
begin

section \<open>Data model of the finite element engine (fem_engine.py)\<close>

text \<open>
  The engine computes with Python floats and numpy float64 arrays. They are modelled by
  \<^typ>\<open>real\<close>: every arithmetic operation is the exact one, so the theorems below
  describe the algorithm the code runs, not its rounding. A numpy vector is a list of
  reals, a matrix (dense or scipy csr) is the list of its rows. Python dictionaries keep
  insertion order; they are association lists, written with \<^const>\<open>AList.update\<close>
  (replace the value in place when the key is there, append otherwise) and read with
  \<^const>\<open>map_of\<close>.
\<close>

type_synonym vec = "real list"
type_synonym mat = "real list list"

datatype ElementType = TRUSS | BEAM | FRAME | PLATE | SHELL | SOLID

record Node =
  Node_id :: int
  Node_x :: real
  Node_y :: real
  Node_z :: real
  Node_dofs :: "bool list"

record Material =
  Material_id :: int
  Material_name :: string
  Material_E :: real
  Material_nu :: real
  Material_rho :: real
  Material_fy :: "real option"
  Material_fu :: "real option"

record Section =
  Section_id :: int
  Section_name :: string
  Section_A :: real
  Section_Ix :: real
  Section_Iy :: real
  Section_Iz :: real
  Section_J :: real
  Section_Sy :: "real option"
  Section_Sz :: "real option"

record Element =
  Element_id :: int
  Element_type :: ElementType
  Element_nodes :: "int list"
  Element_material_id :: int
  Element_section_id :: "int option"
  Element_thickness :: "real option"

record Load =
  Load_id :: int
  Load_node_id :: "int option"
  Load_element_id :: "int option"
  Load_type :: string
  Load_direction :: string
  Load_values :: "real list"

record Constraint =
  Constraint_id :: int
  Constraint_node_id :: int
  Constraint_dofs :: "bool list"
  Constraint_values :: "real list"

text \<open>
  The exceptions the two modules can raise: the Python ones by name, and
  \<open>LibraryError\<close> for whatever scipy's \<open>spsolve\<close> or \<open>eigsh\<close> raise.
\<close>

datatype exn = KeyError | IndexError | ValueError | NotImplementedError
  | ZeroDivisionError | AttributeError | LibraryError

record FEMEngine =
  nodes :: "(int \<times> Node) list"
  materials :: "(int \<times> Material) list"
  sections :: "(int \<times> Section) list"
  elements :: "(int \<times> Element) list"
  loads :: "Load list"
  constraints :: "Constraint list"
  displacements :: "vec option"
  reactions :: "vec option"
  element_forces :: "(int \<times> vec) list"
  K_global :: "mat option"
  M_global :: "mat option"
  F_global :: "vec option"
  dof_map :: "(int \<times> int list) list"
  total_dofs :: nat

definition new_engine :: FEMEngine where
  "new_engine = \<lparr>nodes = [], materials = [], sections = [], elements = [], loads = [],
     constraints = [], displacements = None, reactions = None, element_forces = [],
     K_global = None, M_global = None, F_global = None, dof_map = [], total_dofs = 0\<rparr>"

definition add_node :: "Node \<Rightarrow> FEMEngine \<Rightarrow> FEMEngine" where
  "add_node node e = e\<lparr>nodes := AList.update (Node_id node) node (nodes e)\<rparr>"

definition add_material :: "Material \<Rightarrow> FEMEngine \<Rightarrow> FEMEngine" where
  "add_material material e =
     e\<lparr>materials := AList.update (Material_id material) material (materials e)\<rparr>"

definition add_section :: "Section \<Rightarrow> FEMEngine \<Rightarrow> FEMEngine" where
  "add_section section e =
     e\<lparr>sections := AList.update (Section_id section) section (sections e)\<rparr>"

definition add_element :: "Element \<Rightarrow> FEMEngine \<Rightarrow> FEMEngine" where
  "add_element element e =
     e\<lparr>elements := AList.update (Element_id element) element (elements e)\<rparr>"

definition add_load :: "Load \<Rightarrow> FEMEngine \<Rightarrow> FEMEngine" where
  "add_load load e = e\<lparr>loads := loads e @ [load]\<rparr>"

definition add_constraint :: "Constraint \<Rightarrow> FEMEngine \<Rightarrow> FEMEngine" where
  "add_constraint constraint e = e\<lparr>constraints := constraints e @ [constraint]\<rparr>"

text \<open>A dictionary read \<open>d[k]\<close>: KeyError when the key is missing.\<close>

definition lookup :: "('k \<times> 'v) list \<Rightarrow> 'k \<Rightarrow> exn + 'v" where
  "lookup d k = (case map_of d k of None \<Rightarrow> Inl KeyError | Some v \<Rightarrow> Inr v)"

subsection \<open>DOF numbering\<close>

text \<open>
  \<open>_setup_dof_mapping\<close>: the inner loop appends to \<open>node_dofs\<close> and advances
  \<open>dof_counter\<close>; the outer loop walks \<open>self.nodes.items()\<close> in insertion order and
  stores each list in \<open>self.dof_map\<close>, which is never cleared.
\<close>

definition dof_slot :: "int list \<times> nat \<Rightarrow> bool \<Rightarrow> int list \<times> nat" where
  "dof_slot st active =
     (case st of (node_dofs, dof_counter) \<Rightarrow>
        if active then (node_dofs @ [int dof_counter], dof_counter + 1)
        else (node_dofs @ [- 1], dof_counter))"

definition dof_node ::
  "(int \<times> int list) list \<times> nat \<Rightarrow> int \<times> Node \<Rightarrow> (int \<times> int list) list \<times> nat" where
  "dof_node st item =
     (case st of (dm, dof_counter) \<Rightarrow>
        (case item of (node_id, node) \<Rightarrow>
           (case foldl dof_slot ([], dof_counter) (Node_dofs node) of
              (node_dofs, dof_counter') \<Rightarrow> (AList.update node_id node_dofs dm, dof_counter'))))"

definition setup_dof_mapping :: "FEMEngine \<Rightarrow> FEMEngine" where
  "setup_dof_mapping e =
     (case foldl dof_node (dof_map e, 0) (nodes e) of
        (dm, dof_counter) \<Rightarrow> e\<lparr>dof_map := dm, total_dofs := dof_counter\<rparr>)"

text \<open>The number of true entries of a mask, and the masks of the first \<open>k\<close> nodes.\<close>

definition count_true :: "bool list \<Rightarrow> nat" where
  "count_true bs = length (filter (\<lambda>b. b) bs)"

definition masks_of :: "(int \<times> Node) list \<Rightarrow> bool list" where
  "masks_of ns = concat (map (\<lambda>item. Node_dofs (snd item)) ns)"

text \<open>
  The numbering the specification describes, written by recursion on a mask: active slots
  get the next integers from \<open>c\<close> on, inactive slots get \<open>-1\<close>.
\<close>

fun consecutive :: "nat \<Rightarrow> bool list \<Rightarrow> int list" where
  "consecutive c [] = []"
| "consecutive c (b # bs) = (if b then int c # consecutive (Suc c) bs else - 1 # consecutive c bs)"


section \<open>numpy and scipy operations\<close>

text \<open>
  Raising is the left injection. \<open>bind_exn\<close> runs the next statement when the previous
  one did not raise; \<open>fold_exn\<close> is a \<open>for\<close> loop whose body may raise.
\<close>

definition bind_exn :: "exn + 'a \<Rightarrow> ('a \<Rightarrow> exn + 'b) \<Rightarrow> exn + 'b" where
  "bind_exn m f = (case m of Inl ex \<Rightarrow> Inl ex | Inr x \<Rightarrow> f x)"

fun fold_exn :: "('s \<Rightarrow> 'a \<Rightarrow> exn + 's) \<Rightarrow> 's \<Rightarrow> 'a list \<Rightarrow> exn + 's" where
  "fold_exn f s [] = Inr s"
| "fold_exn f s (x # xs) = bind_exn (f s x) (\<lambda>s'. fold_exn f s' xs)"

definition enumerate_zip :: "'a list \<Rightarrow> 'b list \<Rightarrow> (nat \<times> 'a \<times> 'b) list" where
  "enumerate_zip xs ys = zip [0..<length (zip xs ys)] (zip xs ys)"

definition zeros :: "nat \<Rightarrow> vec" where
  "zeros n = replicate n 0"

definition zeros_mat :: "nat \<Rightarrow> nat \<Rightarrow> mat" where
  "zeros_mat r c = replicate r (replicate c 0)"

definition eye :: "nat \<Rightarrow> mat" where
  "eye n = map (\<lambda>i. map (\<lambda>j. if i = j then 1 else 0) [0..<n]) [0..<n]"

definition mat_set :: "mat \<Rightarrow> nat \<Rightarrow> nat \<Rightarrow> real \<Rightarrow> mat" where
  "mat_set A i j v = A[i := (A ! i)[j := v]]"

text \<open>A run of assignments \<open>A[i, j] = v\<close> with constant indices, in program order.\<close>

definition assign_all :: "mat \<Rightarrow> (nat \<times> nat \<times> real) list \<Rightarrow> mat" where
  "assign_all A ws = foldl (\<lambda>B w. case w of (i, j, v) \<Rightarrow> mat_set B i j v) A ws"

definition dot :: "vec \<Rightarrow> vec \<Rightarrow> real" where
  "dot a b = sum_list (map2 (*) a b)"

definition mat_vec :: "mat \<Rightarrow> vec \<Rightarrow> vec" where
  "mat_vec A v = map (\<lambda>row. dot row v) A"

definition mat_T :: "mat \<Rightarrow> mat" where
  "mat_T A = (case A of [] \<Rightarrow> [] | r # _ \<Rightarrow> map (\<lambda>j. map (\<lambda>row. row ! j) A) [0..<length r])"

definition mat_mul :: "mat \<Rightarrow> mat \<Rightarrow> mat" where
  "mat_mul A B = map (\<lambda>row. map (\<lambda>col. dot row col) (mat_T B)) A"

definition mat_add :: "mat \<Rightarrow> mat \<Rightarrow> mat" where
  "mat_add A B = map2 (map2 (+)) A B"

definition mat_scale :: "real \<Rightarrow> mat \<Rightarrow> mat" where
  "mat_scale c A = map (map ((*) c)) A"

definition vec_add :: "vec \<Rightarrow> vec \<Rightarrow> vec" where
  "vec_add a b = map2 (+) a b"

definition vec_sub :: "vec \<Rightarrow> vec \<Rightarrow> vec" where
  "vec_sub a b = map2 (-) a b"

definition vec_scale :: "real \<Rightarrow> vec \<Rightarrow> vec" where
  "vec_scale c a = map ((*) c) a"

text \<open>\<open>np.linalg.norm\<close> of a vector, and \<open>np.max(np.abs(v))\<close>, which raises on an empty array.\<close>

definition norm2 :: "vec \<Rightarrow> real" where
  "norm2 v = sqrt (sum_list (map (\<lambda>x. x * x) v))"

definition max_abs :: "vec \<Rightarrow> exn + real" where
  "max_abs v = (if v = [] then Inl ValueError else Inr (fold max (map abs v) 0))"

text \<open>
  \<open>A @ v\<close> for a square matrix: numpy and scipy raise ValueError when the dimensions
  do not agree.
\<close>

definition np_matvec :: "mat \<Rightarrow> vec \<Rightarrow> exn + vec" where
  "np_matvec A v = (if length v = length A then Inr (mat_vec A v) else Inl ValueError)"

text \<open>
  Elementwise \<open>a + b\<close> and \<open>a - b\<close> on arrays with numpy's broadcasting, the in-place
  \<open>u += x\<close> and the row assignment \<open>H[i] = x\<close>, where only the right-hand side may be
  stretched.
\<close>

definition np_binop :: "(real \<Rightarrow> real \<Rightarrow> real) \<Rightarrow> vec \<Rightarrow> vec \<Rightarrow> exn + vec" where
  "np_binop f a b =
     (if length a = length b then Inr (map2 f a b)
      else if length a = 1 then Inr (map (f (hd a)) b)
      else if length b = 1 then Inr (map (\<lambda>x. f x (hd b)) a)
      else Inl ValueError)"

definition np_iadd :: "vec \<Rightarrow> vec \<Rightarrow> exn + vec" where
  "np_iadd u x =
     (if length x = length u then Inr (map2 (+) u x)
      else if length x = 1 then Inr (map (\<lambda>a. a + hd x) u)
      else Inl ValueError)"

definition np_set_row :: "vec list \<Rightarrow> nat \<Rightarrow> nat \<Rightarrow> vec \<Rightarrow> exn + vec list" where
  "np_set_row H n i x =
     (if length H \<le> i then Inl IndexError
      else if length x = n then Inr (H[i := x])
      else if length x = 1 then Inr (H[i := replicate n (hd x)])
      else Inl ValueError)"

text \<open>\<open>A[d, d] += v\<close> on a square matrix and \<open>F[d] += v\<close>: IndexError out of range.\<close>

definition add_at_diag :: "mat \<Rightarrow> nat \<Rightarrow> real \<Rightarrow> exn + mat" where
  "add_at_diag A d v =
     (if d < length A then Inr (mat_set A d d (A ! d ! d + v)) else Inl IndexError)"

definition add_at :: "vec \<Rightarrow> nat \<Rightarrow> real \<Rightarrow> exn + vec" where
  "add_at F d v = (if d < length F then Inr (F[d := F ! d + v]) else Inl IndexError)"

text \<open>
  \<open>csr_matrix((data, (rows, cols)), shape=(n, n))\<close>: the three arrays must have one
  length and the indices must lie inside the shape (ValueError otherwise); entries with
  the same position are summed.
\<close>

definition csr_matrix :: "vec \<Rightarrow> nat list \<Rightarrow> nat list \<Rightarrow> nat \<Rightarrow> exn + mat" where
  "csr_matrix data rows cols n =
     (if length rows \<noteq> length data \<or> length cols \<noteq> length data then Inl ValueError
      else if list_ex (\<lambda>r. n \<le> r) rows \<or> list_ex (\<lambda>c. n \<le> c) cols then Inl ValueError
      else Inr (foldl (\<lambda>A t. case t of (v, i, j) \<Rightarrow> mat_set A i j (A ! i ! j + v))
                  (zeros_mat n n) (zip data (zip rows cols))))"

section \<open>Element kernel and assembly (fem_engine.py)\<close>

text \<open>A list read \<open>xs[i]\<close> at a constant index: IndexError past the end.\<close>

definition index_at :: "'a list \<Rightarrow> nat \<Rightarrow> exn + 'a" where
  "index_at xs i = (if i < length xs then Inr (xs ! i) else Inl IndexError)"

text \<open>\<open>self.sections[element.section_id]\<close>: the key \<open>None\<close> is in no dictionary.\<close>

definition lookup_section :: "FEMEngine \<Rightarrow> int option \<Rightarrow> exn + Section" where
  "lookup_section e sid = (case sid of None \<Rightarrow> Inl KeyError | Some i \<Rightarrow> lookup (sections e) i)"

text \<open>The loop \<open>for node_id in element.nodes: dofs.extend(self.dof_map[node_id])\<close>.\<close>

fun element_dofs :: "(int \<times> int list) list \<Rightarrow> int list \<Rightarrow> exn + int list" where
  "element_dofs dm [] = Inr []"
| "element_dofs dm (node_id # rest) =
     bind_exn (lookup dm node_id) (\<lambda>ds.
     bind_exn (element_dofs dm rest) (\<lambda>r. Inr (ds @ r)))"

text \<open>The property \<open>Material.G\<close>: a division of Python floats, which raises on zero.\<close>

definition Material_G :: "Material \<Rightarrow> exn + real" where
  "Material_G m =
     (if 2 * (1 + Material_nu m) = 0 then Inl ZeroDivisionError
      else Inr (Material_E m / (2 * (1 + Material_nu m))))"

definition truss_stiffness :: "FEMEngine \<Rightarrow> Element \<Rightarrow> exn + (mat \<times> int list)" where
  "truss_stiffness e element =
     bind_exn (index_at (Element_nodes element) 0) (\<lambda>id1.
     bind_exn (lookup (nodes e) id1) (\<lambda>node1.
     bind_exn (index_at (Element_nodes element) 1) (\<lambda>id2.
     bind_exn (lookup (nodes e) id2) (\<lambda>node2.
     bind_exn (lookup (materials e) (Element_material_id element)) (\<lambda>material.
     bind_exn (lookup_section e (Element_section_id element)) (\<lambda>section.
       let dx = Node_x node2 - Node_x node1;
           dy = Node_y node2 - Node_y node1;
           dz = Node_z node2 - Node_z node1;
           L = sqrt (dx\<^sup>2 + dy\<^sup>2 + dz\<^sup>2);
           cx = dx / L;
           cy = dy / L;
           cz = dz / L;
           k_local = mat_scale (Material_E material * Section_A section / L)
                       [[1, - 1], [- 1, 1]];
           T = assign_all (zeros_mat 6 6)
                 [(0, 0, cx), (3, 3, cx), (0, 1, cy), (3, 4, cy), (0, 2, cz), (3, 5, cz),
                  (1, 0, - cy), (4, 3, - cy), (1, 1, cx), (4, 4, cx),
                  (2, 0, - cz), (5, 3, - cz), (2, 2, cx), (5, 5, cx)];
           k_expanded = assign_all (zeros_mat 6 6)
                 [(0, 0, k_local ! 0 ! 0), (3, 3, k_local ! 0 ! 0),
                  (0, 3, k_local ! 0 ! 1), (3, 0, k_local ! 0 ! 1)];
           k_global = mat_mul (mat_mul (mat_T T) k_expanded) T
       in bind_exn (element_dofs (dof_map e) (Element_nodes element)) (\<lambda>dofs.
            Inr (k_global, dofs))))))))"

definition beam_stiffness :: "FEMEngine \<Rightarrow> Element \<Rightarrow> exn + (mat \<times> int list)" where
  "beam_stiffness e element =
     bind_exn (index_at (Element_nodes element) 0) (\<lambda>id1.
     bind_exn (lookup (nodes e) id1) (\<lambda>node1.
     bind_exn (index_at (Element_nodes element) 1) (\<lambda>id2.
     bind_exn (lookup (nodes e) id2) (\<lambda>node2.
     bind_exn (lookup (materials e) (Element_material_id element)) (\<lambda>material.
     bind_exn (lookup_section e (Element_section_id element)) (\<lambda>section.
       let dx = Node_x node2 - Node_x node1;
           dy = Node_y node2 - Node_y node1;
           dz = Node_z node2 - Node_z node1;
           L = sqrt (dx\<^sup>2 + dy\<^sup>2 + dz\<^sup>2);
           E = Material_E material
       in bind_exn (Material_G material) (\<lambda>G.
       let A = Section_A section;
           Iy = Section_Iy section;
           Iz = Section_Iz section;
           J = Section_J section;
           EIy_L3 = E * Iy / L ^ 3;
           EIz_L3 = E * Iz / L ^ 3;
           k_local = assign_all (zeros_mat 12 12)
             [(0, 0, E * A / L), (6, 6, E * A / L),
              (0, 6, - E * A / L), (6, 0, - E * A / L),
              (2, 2, 12 * EIy_L3), (8, 8, 12 * EIy_L3),
              (2, 8, - 12 * EIy_L3), (8, 2, - 12 * EIy_L3),
              (4, 4, 4 * E * Iy / L), (10, 10, 4 * E * Iy / L),
              (4, 10, 2 * E * Iy / L), (10, 4, 2 * E * Iy / L),
              (2, 4, 6 * E * Iy / L\<^sup>2), (4, 2, 6 * E * Iy / L\<^sup>2),
              (2, 10, 6 * E * Iy / L\<^sup>2), (10, 2, 6 * E * Iy / L\<^sup>2),
              (8, 4, - 6 * E * Iy / L\<^sup>2), (4, 8, - 6 * E * Iy / L\<^sup>2),
              (8, 10, - 6 * E * Iy / L\<^sup>2), (10, 8, - 6 * E * Iy / L\<^sup>2),
              (1, 1, 12 * EIz_L3), (7, 7, 12 * EIz_L3),
              (1, 7, - 12 * EIz_L3), (7, 1, - 12 * EIz_L3),
              (5, 5, 4 * E * Iz / L), (11, 11, 4 * E * Iz / L),
              (5, 11, 2 * E * Iz / L), (11, 5, 2 * E * Iz / L),
              (1, 5, - 6 * E * Iz / L\<^sup>2), (5, 1, - 6 * E * Iz / L\<^sup>2),
              (1, 11, - 6 * E * Iz / L\<^sup>2), (11, 1, - 6 * E * Iz / L\<^sup>2),
              (7, 5, 6 * E * Iz / L\<^sup>2), (5, 7, 6 * E * Iz / L\<^sup>2),
              (7, 11, 6 * E * Iz / L\<^sup>2), (11, 7, 6 * E * Iz / L\<^sup>2),
              (3, 3, G * J / L), (9, 9, G * J / L),
              (3, 9, - G * J / L), (9, 3, - G * J / L)];
           T = eye 12;
           k_global = mat_mul (mat_mul (mat_T T) k_local) T
       in bind_exn (element_dofs (dof_map e) (Element_nodes element)) (\<lambda>dofs.
            Inr (k_global, dofs)))))))))"

definition frame_stiffness :: "FEMEngine \<Rightarrow> Element \<Rightarrow> exn + (mat \<times> int list)" where
  "frame_stiffness e element = beam_stiffness e element"

definition get_element_stiffness_matrix ::
  "FEMEngine \<Rightarrow> Element \<Rightarrow> exn + (mat \<times> int list)" where
  "get_element_stiffness_matrix e element =
     (if Element_type element = TRUSS then truss_stiffness e element
      else if Element_type element = BEAM then beam_stiffness e element
      else if Element_type element = FRAME then frame_stiffness e element
      else Inl NotImplementedError)"

text \<open>
  \<open>_assemble_global_stiffness\<close>. The body of the loop: the active indices, their
  \<open>meshgrid\<close> with \<open>indexing='ij'\<close> flattened row by row, and the sum with the sparse
  matrix built from the flattened element matrix.
\<close>

definition active_of :: "int list \<Rightarrow> nat list" where
  "active_of dofs = map nat (filter (\<lambda>dof. 0 \<le> dof) dofs)"

definition assemble_element :: "FEMEngine \<Rightarrow> mat \<Rightarrow> Element \<Rightarrow> exn + mat" where
  "assemble_element e K element =
     bind_exn (get_element_stiffness_matrix e element) (\<lambda>kd.
       case kd of (k_elem, dofs) \<Rightarrow>
         let active_dofs = active_of dofs in
         if length active_dofs = 0 then Inr K
         else
           let rows = concat (map (\<lambda>a. replicate (length active_dofs) a) active_dofs);
               cols = concat (replicate (length active_dofs) active_dofs)
           in bind_exn (csr_matrix (concat k_elem) rows cols (total_dofs e)) (\<lambda>S.
                Inr (mat_add K S)))"

definition assemble_global_stiffness :: "FEMEngine \<Rightarrow> exn + FEMEngine" where
  "assemble_global_stiffness e =
     bind_exn (fold_exn (assemble_element e) (zeros_mat (total_dofs e) (total_dofs e))
                 (map snd (elements e)))
       (\<lambda>K. Inr (e\<lparr>K_global := Some K\<rparr>))"

text \<open>\<open>_assemble_global_force\<close>.\<close>

definition force_slot :: "vec \<Rightarrow> real \<times> int \<Rightarrow> exn + vec" where
  "force_slot F fd = (case fd of (force, dof) \<Rightarrow>
     if 0 \<le> dof then add_at F (nat dof) force else Inr F)"

definition force_load :: "FEMEngine \<Rightarrow> vec \<Rightarrow> Load \<Rightarrow> exn + vec" where
  "force_load e F load =
     (case Load_node_id load of
        None \<Rightarrow> Inr F
      | Some node_id \<Rightarrow>
          bind_exn (lookup (dof_map e) node_id) (\<lambda>node_dofs.
            fold_exn force_slot F (zip (Load_values load) node_dofs)))"

definition assemble_global_force :: "FEMEngine \<Rightarrow> exn + FEMEngine" where
  "assemble_global_force e =
     bind_exn (fold_exn (force_load e) (zeros (total_dofs e)) (loads e))
       (\<lambda>F. Inr (e\<lparr>F_global := Some F\<rparr>))"

text \<open>
  \<open>_apply_constraints\<close> and its twin \<open>_apply_constraints_nonlinear\<close> in solvers.py run
  the same loop on copies of a matrix and a vector; the engine is only read.
\<close>

definition penalty :: real where
  "penalty = 1000000000000"

definition constrain_slot ::
  "Constraint \<Rightarrow> mat \<times> vec \<Rightarrow> nat \<times> bool \<times> int \<Rightarrow> exn + (mat \<times> vec)" where
  "constrain_slot constraint KF slot =
     (case KF of (K_constrained, F_constrained) \<Rightarrow>
        (case slot of (i, constrained, dof) \<Rightarrow>
           if constrained \<and> 0 \<le> dof then
             bind_exn (add_at_diag K_constrained (nat dof) penalty) (\<lambda>K'.
               if i < length (Constraint_values constraint) then
                 bind_exn (add_at F_constrained (nat dof)
                             (penalty * Constraint_values constraint ! i)) (\<lambda>F'.
                   Inr (K', F'))
               else Inl IndexError)
           else Inr KF))"

definition constrain_node ::
  "(int \<times> int list) list \<Rightarrow> mat \<times> vec \<Rightarrow> Constraint \<Rightarrow> exn + (mat \<times> vec)" where
  "constrain_node dm KF constraint =
     bind_exn (lookup dm (Constraint_node_id constraint)) (\<lambda>node_dofs.
       fold_exn (constrain_slot constraint) KF
         (enumerate_zip (Constraint_dofs constraint) node_dofs))"

definition apply_constraints_to :: "FEMEngine \<Rightarrow> mat \<Rightarrow> vec \<Rightarrow> exn + (mat \<times> vec)" where
  "apply_constraints_to e K F = fold_exn (constrain_node (dof_map e)) (K, F) (constraints e)"

text \<open>An attribute that is still \<open>None\<close> has no \<open>copy\<close> method; Python raises AttributeError.\<close>

definition attr :: "'a option \<Rightarrow> exn + 'a" where
  "attr a = (case a of None \<Rightarrow> Inl AttributeError | Some v \<Rightarrow> Inr v)"

definition apply_constraints :: "FEMEngine \<Rightarrow> exn + (mat \<times> vec)" where
  "apply_constraints e =
     bind_exn (attr (K_global e)) (\<lambda>K.
     bind_exn (attr (F_global e)) (\<lambda>F.
       apply_constraints_to e K F))"

section \<open>Static and modal analysis (fem_engine.py)\<close>

text \<open>
  A public operation either lets an exception out (\<open>Inl\<close>) or returns its dictionary:
  \<open>Success\<close> with the payload and the engine as the call leaves it, or \<open>Failure\<close> with
  the message. The engine after a failure (it may hold results written before the
  exception) is not modelled. \<open>catch\<close> is the handler
  \<open>except Exception as e: return {"success": False, "error": str(e)}\<close>.
\<close>

datatype failure = Failed exn | SolverFailed exn | EigenFailed exn | NoConvergence int

datatype 'p result = Success 'p FEMEngine | Failure failure

definition catch :: "exn + 'p result \<Rightarrow> 'p result" where
  "catch body = (case body of Inl ex \<Rightarrow> Failure (Failed ex) | Inr r \<Rightarrow> r)"

text \<open>
  scipy's \<open>spsolve(A, b)\<close> and \<open>eigsh(A, k=k, M=M, which='SM', sigma=0.0)\<close> are not code
  of the repository: the operations take them as parameters, functions that return
  their result or raise.
\<close>

type_synonym spsolve = "mat \<Rightarrow> vec \<Rightarrow> exn + vec"
type_synonym eigsh = "mat \<Rightarrow> int \<Rightarrow> mat \<Rightarrow> exn + (vec \<times> mat)"

text \<open>\<open>_calculate_element_forces\<close>.\<close>

definition gather :: "vec \<Rightarrow> nat list \<Rightarrow> exn + vec" where
  "gather u ds = (if list_all (\<lambda>d. d < length u) ds then Inr (map (\<lambda>d. u ! d) ds)
                  else Inl IndexError)"

definition element_force ::
  "FEMEngine \<Rightarrow> vec \<Rightarrow> (int \<times> vec) list \<Rightarrow> Element \<Rightarrow> exn + (int \<times> vec) list" where
  "element_force e u ef element =
     bind_exn (get_element_stiffness_matrix e element) (\<lambda>kd.
       case kd of (k_elem, dofs) \<Rightarrow>
         let active_dofs = active_of dofs in
         if length active_dofs = 0 then Inr ef
         else
           bind_exn (gather u active_dofs) (\<lambda>u_elem.
           bind_exn (np_matvec k_elem u_elem) (\<lambda>f_elem.
             Inr (AList.update (Element_id element) f_elem ef))))"

definition calculate_element_forces :: "FEMEngine \<Rightarrow> exn + FEMEngine" where
  "calculate_element_forces e =
     bind_exn (attr (displacements e)) (\<lambda>u.
     bind_exn (fold_exn (element_force e u) (element_forces e) (map snd (elements e)))
       (\<lambda>ef. Inr (e\<lparr>element_forces := ef\<rparr>)))"

record static_payload =
  st_displacements :: vec
  st_max_displacement :: real
  st_total_dofs :: nat

text \<open>\<open>solve_static\<close>: the DOF map, the assembly and the constraints run before the \<open>try\<close>.\<close>

definition solve_static :: "spsolve \<Rightarrow> FEMEngine \<Rightarrow> exn + static_payload result" where
  "solve_static sp e =
     bind_exn (assemble_global_stiffness (setup_dof_mapping e)) (\<lambda>e2.
     bind_exn (assemble_global_force e2) (\<lambda>e3.
     bind_exn (apply_constraints e3) (\<lambda>KF.
       case KF of (K_constrained, F_constrained) \<Rightarrow>
         Inr (catch (
           bind_exn (sp K_constrained F_constrained) (\<lambda>u.
           bind_exn (attr (K_global e3)) (\<lambda>K.
           bind_exn (np_matvec K u) (\<lambda>Ku.
           bind_exn (attr (F_global e3)) (\<lambda>F.
           bind_exn (np_binop (-) Ku F) (\<lambda>r.
           bind_exn (calculate_element_forces
                       (e3\<lparr>displacements := Some u, reactions := Some r\<rparr>)) (\<lambda>e4.
           bind_exn (max_abs u) (\<lambda>m.
             Inr (Success \<lparr>st_displacements = u, st_max_displacement = m,
                            st_total_dofs = total_dofs e4\<rparr> e4)))))))))))))"

text \<open>\<open>_assemble_global_mass\<close>.\<close>

definition mass_slot :: "real \<Rightarrow> int list \<Rightarrow> mat \<Rightarrow> nat \<Rightarrow> exn + mat" where
  "mass_slot nodal_mass node_dofs M i =
     bind_exn (index_at node_dofs i) (\<lambda>dof.
       if 0 \<le> dof then add_at_diag M (nat dof) nodal_mass else Inr M)"

definition mass_node :: "(int \<times> int list) list \<Rightarrow> real \<Rightarrow> mat \<Rightarrow> int \<Rightarrow> exn + mat" where
  "mass_node dm nodal_mass M node_id =
     bind_exn (lookup dm node_id) (\<lambda>node_dofs.
       fold_exn (mass_slot nodal_mass node_dofs) M [0, 1, 2])"

definition sections_get :: "FEMEngine \<Rightarrow> int option \<Rightarrow> Section option" where
  "sections_get e sid = (case sid of None \<Rightarrow> None | Some i \<Rightarrow> map_of (sections e) i)"

definition mass_element :: "FEMEngine \<Rightarrow> mat \<Rightarrow> Element \<Rightarrow> exn + mat" where
  "mass_element e M element =
     bind_exn (lookup (materials e) (Element_material_id element)) (\<lambda>material.
       case sections_get e (Element_section_id element) of
         None \<Rightarrow> Inr M
       | Some section \<Rightarrow>
           bind_exn (index_at (Element_nodes element) 0) (\<lambda>id1.
           bind_exn (lookup (nodes e) id1) (\<lambda>node1.
           bind_exn (index_at (Element_nodes element) 1) (\<lambda>id2.
           bind_exn (lookup (nodes e) id2) (\<lambda>node2.
             let dx = Node_x node2 - Node_x node1;
                 dy = Node_y node2 - Node_y node1;
                 dz = Node_z node2 - Node_z node1;
                 L = sqrt (dx\<^sup>2 + dy\<^sup>2 + dz\<^sup>2);
                 element_mass = Material_rho material * Section_A section * L;
                 nodal_mass = element_mass / 2
             in fold_exn (mass_node (dof_map e) nodal_mass) M (Element_nodes element))))))"

definition assemble_global_mass :: "FEMEngine \<Rightarrow> exn + FEMEngine" where
  "assemble_global_mass e =
     bind_exn (fold_exn (mass_element e) (zeros_mat (total_dofs e) (total_dofs e))
                 (map snd (elements e)))
       (\<lambda>M. Inr (e\<lparr>M_global := Some M\<rparr>))"

record modal_payload =
  md_frequencies :: vec
  md_mode_shapes :: mat
  md_num_modes :: int

text \<open>
  \<open>solve_modal\<close>: everything is inside the \<open>try\<close>. \<open>np.sqrt\<close> of a negative eigenvalue
  is nan in the code; the real \<open>sqrt\<close> used here agrees with it on the non-negative ones.
\<close>

definition solve_modal :: "eigsh \<Rightarrow> FEMEngine \<Rightarrow> int \<Rightarrow> modal_payload result" where
  "solve_modal eg e num_modes =
     catch (
       bind_exn (assemble_global_stiffness (setup_dof_mapping e)) (\<lambda>e2.
       bind_exn (assemble_global_mass e2) (\<lambda>e3.
       bind_exn (attr (K_global e3)) (\<lambda>K_constrained.
       bind_exn (attr (M_global e3)) (\<lambda>M_constrained.
       bind_exn (eg K_constrained num_modes M_constrained) (\<lambda>ev.
         case ev of (eigenvals, eigenvecs) \<Rightarrow>
           let frequencies = map (\<lambda>w. sqrt w / (2 * pi)) eigenvals
           in Inr (Success \<lparr>md_frequencies = frequencies, md_mode_shapes = eigenvecs,
                              md_num_modes = num_modes\<rparr> e3)))))))"

section \<open>Nonlinear, buckling and dynamic solvers (solvers.py)\<close>

record NonlinearOptions =
  nl_max_iterations :: int
  nl_tolerance :: real
  nl_load_steps :: int
  nl_line_search :: bool
  nl_arc_length :: bool

definition default_NonlinearOptions :: NonlinearOptions where
  "default_NonlinearOptions = \<lparr>nl_max_iterations = 50, nl_tolerance = 1 / 1000000,
     nl_load_steps = 10, nl_line_search = True, nl_arc_length = False\<rparr>"

record DynamicOptions =
  dyn_time_step :: real
  dyn_total_time :: real
  dyn_damping_ratio :: real
  dyn_integration_method :: string
  dyn_beta :: real
  dyn_gamma :: real

definition default_DynamicOptions :: DynamicOptions where
  "default_DynamicOptions = \<lparr>dyn_time_step = 1 / 100, dyn_total_time = 10,
     dyn_damping_ratio = 5 / 100, dyn_integration_method = ''newmark'',
     dyn_beta = 1 / 4, dyn_gamma = 1 / 2\<rparr>"

text \<open>
  \<open>_update_tangent_stiffness\<close> returns a copy of the linear stiffness and
  \<open>_calculate_internal_force\<close> is \<open>K @ u\<close>; both read \<open>self.fem.K_global\<close>, here the
  argument \<open>K\<close>.
\<close>

definition update_tangent_stiffness :: "mat \<Rightarrow> vec \<Rightarrow> mat" where
  "update_tangent_stiffness K u = K"

definition calculate_internal_force :: "mat \<Rightarrow> vec \<Rightarrow> exn + vec" where
  "calculate_internal_force K u = np_matvec K u"

text \<open>
  \<open>_line_search\<close>. The residual norm of a trial point, the loop \<open>for _ in range(10)\<close>
  by recursion on the trials that are left, and the function itself.
\<close>

definition c1 :: real where
  "c1 = 1 / 10000"

definition residual_norm_at :: "mat \<Rightarrow> vec \<Rightarrow> vec \<Rightarrow> exn + real" where
  "residual_norm_at K target_force u =
     bind_exn (calculate_internal_force K u) (\<lambda>force.
     bind_exn (np_binop (-) target_force force) (\<lambda>r. Inr (norm2 r)))"

fun line_search_loop ::
  "nat \<Rightarrow> mat \<Rightarrow> vec \<Rightarrow> vec \<Rightarrow> vec \<Rightarrow> real \<Rightarrow> real \<Rightarrow> exn + real" where
  "line_search_loop 0 K u du target_force current_residual alpha = Inr alpha"
| "line_search_loop (Suc n) K u du target_force current_residual alpha =
     bind_exn (np_binop (+) u (vec_scale alpha du)) (\<lambda>u_trial.
     bind_exn (residual_norm_at K target_force u_trial) (\<lambda>trial_residual.
       if trial_residual < (1 - c1 * alpha) * current_residual then Inr alpha
       else line_search_loop n K u du target_force current_residual (alpha * (1 / 2))))"

definition line_search :: "mat \<Rightarrow> vec \<Rightarrow> vec \<Rightarrow> vec \<Rightarrow> exn + real" where
  "line_search K u du target_force =
     bind_exn (residual_norm_at K target_force u) (\<lambda>current_residual.
       line_search_loop 10 K u du target_force current_residual 1)"

text \<open>
  The Newton loop of one load step, \<open>for iteration in range(options.max_iterations)\<close>
  with its \<open>else\<close> branch, by recursion on the iterations that are left. It ends in a
  \<open>break\<close> (\<open>Converged\<close>, with the displacement and the convergence history), in one of
  the two \<open>return\<close> statements (\<open>Returned\<close>), or in an exception for the outer handler.
\<close>

datatype newton_exit = Converged vec "real list" | Returned failure

definition newton_update ::
  "spsolve \<Rightarrow> NonlinearOptions \<Rightarrow> mat \<Rightarrow> vec \<Rightarrow> vec \<Rightarrow> mat \<Rightarrow> vec \<Rightarrow> exn + vec" where
  "newton_update sp options K target_force u K_constrained residual_constrained =
     bind_exn (sp K_constrained residual_constrained) (\<lambda>du.
       if nl_line_search options then
         bind_exn (line_search K u du target_force) (\<lambda>alpha.
           np_iadd u (vec_scale alpha du))
       else np_iadd u du)"

fun newton ::
  "nat \<Rightarrow> spsolve \<Rightarrow> FEMEngine \<Rightarrow> NonlinearOptions \<Rightarrow> mat \<Rightarrow> vec \<Rightarrow> vec \<Rightarrow> real list
     \<Rightarrow> exn + newton_exit" where
  "newton 0 sp e options K target_force u history =
     Inr (Returned (NoConvergence (nl_max_iterations options)))"
| "newton (Suc n) sp e options K target_force u history =
     (let K_tangent = update_tangent_stiffness K u in
      bind_exn (calculate_internal_force K u) (\<lambda>internal_force.
      bind_exn (np_binop (-) target_force internal_force) (\<lambda>residual.
      bind_exn (apply_constraints_to e K_tangent residual) (\<lambda>KR.
        case KR of (K_constrained, residual_constrained) \<Rightarrow>
          let residual_norm = norm2 residual_constrained;
              history' = history @ [residual_norm]
          in if residual_norm < nl_tolerance options then Inr (Converged u history')
             else
               (case newton_update sp options K target_force u
                       K_constrained residual_constrained of
                  Inl ex \<Rightarrow> Inr (Returned (SolverFailed ex))
                | Inr u' \<Rightarrow> newton n sp e options K target_force u' history')))))"

text \<open>
  The load steps, \<open>for step in range(options.load_steps)\<close>: the state is the
  displacement, the load factor, the convergence history and the load-displacement
  curve. \<open>Inl\<close> of the inner sum is a \<open>return\<close> out of the loop.
\<close>

type_synonym nl_state = "vec \<times> real \<times> real list \<times> (real \<times> real) list"

fun load_stepping ::
  "nat \<Rightarrow> spsolve \<Rightarrow> FEMEngine \<Rightarrow> NonlinearOptions \<Rightarrow> mat \<Rightarrow> vec \<Rightarrow> real \<Rightarrow> nl_state
     \<Rightarrow> exn + (failure + nl_state)" where
  "load_stepping 0 sp e options K F load_increment st = Inr (Inr st)"
| "load_stepping (Suc n) sp e options K F load_increment st =
     (case st of (u, load_factor, history, curve) \<Rightarrow>
        let load_factor' = load_factor + load_increment;
            target_force = vec_scale load_factor' F
        in bind_exn (newton (nat (nl_max_iterations options)) sp e options K target_force
                       u history) (\<lambda>ex.
             case ex of
               Returned f \<Rightarrow> Inr (Inl f)
             | Converged u' history' \<Rightarrow>
                 bind_exn (max_abs u') (\<lambda>max_displacement.
                   load_stepping n sp e options K F load_increment
                     (u', load_factor', history', curve @ [(load_factor', max_displacement)]))))"

record nonlinear_payload =
  nl_displacements :: vec
  nl_max_displacement :: real
  nl_load_factor :: real
  nl_convergence_history :: "real list"
  nl_load_displacement_curve :: "(real \<times> real) list"

text \<open>\<open>solve_nonlinear_static\<close>: the whole body is inside the \<open>try\<close>.\<close>

definition solve_nonlinear_static ::
  "spsolve \<Rightarrow> FEMEngine \<Rightarrow> NonlinearOptions \<Rightarrow> nonlinear_payload result" where
  "solve_nonlinear_static sp e options =
     catch (
       bind_exn (assemble_global_stiffness (setup_dof_mapping e)) (\<lambda>e2.
       bind_exn (assemble_global_force e2) (\<lambda>e3.
       bind_exn (attr (K_global e3)) (\<lambda>K.
       bind_exn (attr (F_global e3)) (\<lambda>F.
         if nl_load_steps options = 0 then Inl ZeroDivisionError
         else
           let load_increment = 1 / real_of_int (nl_load_steps options) in
           bind_exn (load_stepping (nat (nl_load_steps options)) sp e3 options K F
                       load_increment (zeros (total_dofs e3), 0, [], [])) (\<lambda>out.
             case out of
               Inl f \<Rightarrow> Inr (Failure f)
             | Inr (u, load_factor, history, curve) \<Rightarrow>
                 bind_exn (calculate_element_forces (e3\<lparr>displacements := Some u\<rparr>)) (\<lambda>e4.
                 bind_exn (max_abs u) (\<lambda>m.
                   Inr (Success \<lparr>nl_displacements = u, nl_max_displacement = m,
                          nl_load_factor = load_factor, nl_convergence_history = history,
                          nl_load_displacement_curve = curve\<rparr> e4)))))))))"

text \<open>\<open>_assemble_geometric_stiffness\<close> returns an empty sparse matrix.\<close>

definition assemble_geometric_stiffness :: "FEMEngine \<Rightarrow> mat" where
  "assemble_geometric_stiffness e = zeros_mat (total_dofs e) (total_dofs e)"

record buckling_payload =
  bk_critical_loads :: vec
  bk_buckling_modes :: mat
  bk_num_modes :: int
  bk_first_critical_load :: real

definition solve_buckling_analysis :: "eigsh \<Rightarrow> FEMEngine \<Rightarrow> int \<Rightarrow> buckling_payload result" where
  "solve_buckling_analysis eg e num_modes =
     catch (
       bind_exn (assemble_global_stiffness (setup_dof_mapping e)) (\<lambda>e2.
         let K_geometric = assemble_geometric_stiffness e2 in
         bind_exn (attr (K_global e2)) (\<lambda>K_elastic.
           case bind_exn (eg (mat_scale (- 1) K_geometric) num_modes K_elastic) (\<lambda>ev.
                  case ev of (eigenvals, eigenvecs) \<Rightarrow>
                    let critical_loads = map uminus eigenvals in
                    bind_exn (index_at critical_loads 0) (\<lambda>first.
                      Inr (Success \<lparr>bk_critical_loads = critical_loads,
                             bk_buckling_modes = eigenvecs, bk_num_modes = num_modes,
                             bk_first_critical_load = first\<rparr> e2))) of
             Inl ex \<Rightarrow> Inr (Failure (EigenFailed ex))
           | Inr r \<Rightarrow> Inr r)))"

text \<open>\<open>_assemble_rayleigh_damping\<close>: \<open>alpha = 0.0\<close>, \<open>beta = 2 * damping_ratio / 100.0\<close>.\<close>

definition assemble_rayleigh_damping :: "mat \<Rightarrow> mat \<Rightarrow> real \<Rightarrow> mat" where
  "assemble_rayleigh_damping M K damping_ratio =
     (let alpha = 0; beta = 2 * damping_ratio / 100
      in mat_add (mat_scale alpha M) (mat_scale beta K))"

text \<open>
  \<open>_newmark_integration\<close>. The constants are quotients of Python floats: the first
  division raises ZeroDivisionError when \<open>beta * dt**2\<close> is zero, and when it is not zero
  no later divisor is. The histories are two-dimensional arrays, lists of rows of one
  width \<open>N\<close>; the function fills rows \<open>1\<close> to \<open>n_steps\<close> and reports only success or
  failure, so the model returns the filled histories on success.
\<close>

record newmark_constants =
  a0 :: real
  a1 :: real
  a2 :: real
  a3 :: real
  a4 :: real
  a5 :: real

definition newmark_parameters :: "real \<Rightarrow> real \<Rightarrow> real \<Rightarrow> exn + newmark_constants" where
  "newmark_parameters dt beta gamma =
     (if beta * dt\<^sup>2 = 0 then Inl ZeroDivisionError
      else Inr \<lparr>a0 = 1 / (beta * dt\<^sup>2), a1 = gamma / (beta * dt), a2 = 1 / (beta * dt),
                 a3 = 1 / (2 * beta) - 1, a4 = gamma / beta - 1,
                 a5 = dt / 2 * (gamma / beta - 2)\<rparr>)"

text \<open>\<open>force_history[min(i, len(force_history) - 1)]\<close>; on an empty history the index is \<open>-1\<close>.\<close>

definition force_at :: "vec list \<Rightarrow> nat \<Rightarrow> exn + vec" where
  "force_at force_history i =
     (if force_history = [] then Inl IndexError
      else Inr (force_history ! min i (length force_history - 1)))"

type_synonym histories = "vec list \<times> vec list \<times> vec list"

definition newmark_step ::
  "spsolve \<Rightarrow> mat \<Rightarrow> mat \<Rightarrow> mat \<Rightarrow> newmark_constants \<Rightarrow> real \<Rightarrow> real \<Rightarrow> nat \<Rightarrow> vec list
     \<Rightarrow> histories \<Rightarrow> nat \<Rightarrow> exn + histories" where
  "newmark_step sp M C K_eff c dt gamma N force_history h i =
     (case h of (u_history, v_history, a_history) \<Rightarrow>
        let u_n = u_history ! i;
            v_n = v_history ! i;
            a_n = a_history ! i
        in
        bind_exn (force_at force_history (i + 1)) (\<lambda>F_next.
        bind_exn (np_matvec M (vec_add (vec_add (vec_scale (a0 c) u_n) (vec_scale (a2 c) v_n))
                                       (vec_scale (a3 c) a_n))) (\<lambda>Mx.
        bind_exn (np_binop (+) F_next Mx) (\<lambda>FM.
        bind_exn (np_matvec C (vec_add (vec_add (vec_scale (a1 c) u_n) (vec_scale (a4 c) v_n))
                                       (vec_scale (a5 c) a_n))) (\<lambda>Cx.
        bind_exn (np_binop (+) FM Cx) (\<lambda>F_eff.
        bind_exn (sp K_eff F_eff) (\<lambda>u_next.
        bind_exn (np_binop (-) u_next u_n) (\<lambda>du.
        bind_exn (np_binop (-) (vec_scale (a0 c) du) (vec_scale (a2 c) v_n)) (\<lambda>t1.
        bind_exn (np_binop (-) t1 (vec_scale (a3 c) a_n)) (\<lambda>a_next.
        bind_exn (np_binop (+) (vec_scale (1 - gamma) a_n) (vec_scale gamma a_next)) (\<lambda>t2.
        bind_exn (np_binop (+) v_n (vec_scale dt t2)) (\<lambda>v_next.
        bind_exn (np_set_row u_history N (i + 1) u_next) (\<lambda>u_history'.
        bind_exn (np_set_row v_history N (i + 1) v_next) (\<lambda>v_history'.
        bind_exn (np_set_row a_history N (i + 1) a_next) (\<lambda>a_history'.
          Inr (u_history', v_history', a_history'))))))))))))))))"

definition newmark_integration ::
  "spsolve \<Rightarrow> mat \<Rightarrow> mat \<Rightarrow> nat \<Rightarrow> histories \<Rightarrow> vec list \<Rightarrow> mat \<Rightarrow> real \<Rightarrow> real \<Rightarrow> real
     \<Rightarrow> failure + histories" where
  "newmark_integration sp K M N h force_history C dt beta gamma =
     (case
        (case h of (u_history, v_history, a_history) \<Rightarrow>
           let n_steps = length u_history - 1 in
           bind_exn (newmark_parameters dt beta gamma) (\<lambda>c.
             let K_eff = mat_add (mat_add K (mat_scale (a0 c) M)) (mat_scale (a1 c) C)
             in fold_exn (newmark_step sp M C K_eff c dt gamma N force_history) h
                  [0..<n_steps]))
      of Inl ex \<Rightarrow> Inl (Failed ex) | Inr h' \<Rightarrow> Inr h')"

text \<open>\<open>_central_difference_integration\<close>.\<close>

definition central_difference_step ::
  "spsolve \<Rightarrow> mat \<Rightarrow> mat \<Rightarrow> mat \<Rightarrow> real \<Rightarrow> nat \<Rightarrow> vec list \<Rightarrow> histories \<Rightarrow> nat
     \<Rightarrow> exn + histories" where
  "central_difference_step sp K C M_eff dt N force_history h i =
     (case h of (u_history, v_history, a_history) \<Rightarrow>
        let u_n = u_history ! i;
            v_n = v_history ! i
        in
        bind_exn (force_at force_history i) (\<lambda>F_n.
        bind_exn (np_matvec K u_n) (\<lambda>Ku.
        bind_exn (np_binop (-) F_n Ku) (\<lambda>FK.
        bind_exn (np_matvec C v_n) (\<lambda>Cv.
        bind_exn (np_binop (-) FK Cv) (\<lambda>F_eff.
        bind_exn (sp M_eff F_eff) (\<lambda>a_n.
        bind_exn (np_binop (+) v_n (vec_scale dt a_n)) (\<lambda>v_next.
        bind_exn (np_binop (+) u_n (vec_scale dt v_next)) (\<lambda>u_next.
        bind_exn (np_set_row u_history N (i + 1) u_next) (\<lambda>u_history'.
        bind_exn (np_set_row v_history N (i + 1) v_next) (\<lambda>v_history'.
        bind_exn (np_set_row a_history N (i + 1) a_n) (\<lambda>a_history'.
          Inr (u_history', v_history', a_history')))))))))))))"

definition central_difference_integration ::
  "spsolve \<Rightarrow> mat \<Rightarrow> mat \<Rightarrow> nat \<Rightarrow> histories \<Rightarrow> vec list \<Rightarrow> mat \<Rightarrow> real
     \<Rightarrow> failure + histories" where
  "central_difference_integration sp K M N h force_history C dt =
     (case
        (case h of (u_history, v_history, a_history) \<Rightarrow>
           let n_steps = length u_history - 1;
               M_eff = mat_add M (mat_scale (dt / 2) C)
           in fold_exn (central_difference_step sp K C M_eff dt N force_history) h
                [0..<n_steps])
      of Inl ex \<Rightarrow> Inl (Failed ex) | Inr h' \<Rightarrow> Inr h')"

text \<open>
  \<open>solve_dynamic_response\<close>. \<open>int(t_total / dt)\<close> divides Python floats and truncates
  towards zero; \<open>np.zeros\<close> refuses a negative dimension; \<open>np.max\<close> refuses an array
  without elements; \<open>np.linspace(0, t_total, n)\<close> has \<open>n\<close> points.
\<close>

definition py_int :: "real \<Rightarrow> int" where
  "py_int x = (if 0 \<le> x then \<lfloor>x\<rfloor> else \<lceil>x\<rceil>)"

definition max_abs_2d :: "vec list \<Rightarrow> exn + real" where
  "max_abs_2d H = max_abs (concat H)"

definition linspace :: "real \<Rightarrow> nat \<Rightarrow> vec" where
  "linspace t_total num =
     (if num = 1 then [0] else map (\<lambda>i. real i * (t_total / real (num - 1))) [0..<num])"

record dynamic_payload =
  dy_displacement_history :: "vec list"
  dy_velocity_history :: "vec list"
  dy_acceleration_history :: "vec list"
  dy_time_vector :: vec
  dy_max_displacement :: real
  dy_max_velocity :: real
  dy_max_acceleration :: real
  dy_time_step :: real
  dy_total_time :: real

definition solve_dynamic_response ::
  "spsolve \<Rightarrow> FEMEngine \<Rightarrow> vec list \<Rightarrow> DynamicOptions \<Rightarrow> dynamic_payload result" where
  "solve_dynamic_response sp e time_history_loads options =
     catch (
       bind_exn (assemble_global_stiffness (setup_dof_mapping e)) (\<lambda>e2.
       bind_exn (assemble_global_mass e2) (\<lambda>e3.
       bind_exn (attr (M_global e3)) (\<lambda>M.
       bind_exn (attr (K_global e3)) (\<lambda>K.
         let C_global = assemble_rayleigh_damping M K (dyn_damping_ratio options);
             dt = dyn_time_step options;
             t_total = dyn_total_time options;
             N = total_dofs e3
         in
         if dt = 0 then Inl ZeroDivisionError
         else
           let n_steps = py_int (t_total / dt) in
           if n_steps + 1 < 0 then Inl ValueError
           else
             let rows = nat (n_steps + 1);
                 u_history = replicate rows (zeros N);
                 v_history = replicate rows (zeros N);
                 a_history = replicate rows (zeros N);
                 u = zeros N;
                 v = zeros N;
                 F0 = (if 0 < length time_history_loads then time_history_loads ! 0
                       else zeros N)
             in
             bind_exn (np_matvec C_global v) (\<lambda>Cv.
             bind_exn (np_binop (-) F0 Cv) (\<lambda>FC.
             bind_exn (np_matvec K u) (\<lambda>Ku.
             bind_exn (np_binop (-) FC Ku) (\<lambda>rhs.
             bind_exn (sp M rhs) (\<lambda>a.
             bind_exn (np_set_row u_history N 0 u) (\<lambda>u_history.
             bind_exn (np_set_row v_history N 0 v) (\<lambda>v_history.
             bind_exn (np_set_row a_history N 0 a) (\<lambda>a_history.
             bind_exn
               (if dyn_integration_method options = ''newmark'' then
                  Inr (newmark_integration sp K M N (u_history, v_history, a_history)
                         time_history_loads C_global dt (dyn_beta options) (dyn_gamma options))
                else if dyn_integration_method options = ''central_difference'' then
                  Inr (central_difference_integration sp K M N
                         (u_history, v_history, a_history) time_history_loads C_global dt)
                else Inl ValueError) (\<lambda>res.
               case res of
                 Inl f \<Rightarrow> Inr (Failure f)
               | Inr (u_history, v_history, a_history) \<Rightarrow>
                   bind_exn (max_abs_2d u_history) (\<lambda>max_displacement.
                   bind_exn (max_abs_2d v_history) (\<lambda>max_velocity.
                   bind_exn (max_abs_2d a_history) (\<lambda>max_acceleration.
                     Inr (Success
                       \<lparr>dy_displacement_history = u_history,
                        dy_velocity_history = v_history,
                        dy_acceleration_history = a_history,
                        dy_time_vector = linspace t_total rows,
                        dy_max_displacement = max_displacement,
                        dy_max_velocity = max_velocity,
                        dy_max_acceleration = max_acceleration,
                        dy_time_step = dt, dy_total_time = t_total\<rparr> e3))))))))))))))))))"

section \<open>The axial truss scenario\<close>

text \<open>
  Two nodes at (0,0,0) and (1,0,0) joined by one truss element; steel, area 0.01; node 0
  held in all six directions and node 1 in all but x by constraints with the default
  prescribed values (zero); a force of 1e5 along x on node 1. The nodes' DOF mask is a
  parameter: \<open>mask_all\<close> is the default of \<open>Node.__post_init__\<close>, \<open>mask_translations\<close>
  switches the three rotations off.
\<close>

definition mask_all :: "bool list" where
  "mask_all = [True, True, True, True, True, True]"

definition mask_translations :: "bool list" where
  "mask_translations = [True, True, True, False, False, False]"

definition steel :: Material where
  "steel = \<lparr>Material_id = 1, Material_name = ''steel'', Material_E = 200000000000,
     Material_nu = 3 / 10, Material_rho = 7850, Material_fy = None, Material_fu = None\<rparr>"

definition bar_section :: Section where
  "bar_section = \<lparr>Section_id = 1, Section_name = ''bar'', Section_A = 1 / 100,
     Section_Ix = 0, Section_Iy = 0, Section_Iz = 0, Section_J = 0,
     Section_Sy = None, Section_Sz = None\<rparr>"

definition bar_element :: Element where
  "bar_element = \<lparr>Element_id = 1, Element_type = TRUSS, Element_nodes = [0, 1],
     Element_material_id = 1, Element_section_id = Some 1, Element_thickness = None\<rparr>"

definition tip_load :: Load where
  "tip_load = \<lparr>Load_id = 1, Load_node_id = Some 1, Load_element_id = None,
     Load_type = ''force'', Load_direction = ''global'',
     Load_values = [100000, 0, 0, 0, 0, 0]\<rparr>"

definition support_0 :: Constraint where
  "support_0 = \<lparr>Constraint_id = 1, Constraint_node_id = 0,
     Constraint_dofs = [True, True, True, True, True, True],
     Constraint_values = [0, 0, 0, 0, 0, 0]\<rparr>"

definition support_1 :: Constraint where
  "support_1 = \<lparr>Constraint_id = 2, Constraint_node_id = 1,
     Constraint_dofs = [False, True, True, True, True, True],
     Constraint_values = [0, 0, 0, 0, 0, 0]\<rparr>"

definition axial_truss :: "bool list \<Rightarrow> FEMEngine" where
  "axial_truss msk =
     add_constraint support_1 (add_constraint support_0 (add_load tip_load
       (add_element bar_element (add_section bar_section (add_material steel
         (add_node \<lparr>Node_id = 1, Node_x = 1, Node_y = 0, Node_z = 0, Node_dofs = msk\<rparr>
           (add_node \<lparr>Node_id = 0, Node_x = 0, Node_y = 0, Node_z = 0, Node_dofs = msk\<rparr>
              new_engine)))))))"

section \<open>Notions used in the statements\<close>

text \<open>
  The sufficient-decrease test of the line search at step size \<open>alpha\<close>:
  \<open>\<parallel>R(u + alpha du)\<parallel> < (1 - c1 alpha) \<parallel>R(u)\<parallel>\<close> with \<open>R(u) = target_force - K u\<close>.
\<close>

definition armijo :: "mat \<Rightarrow> vec \<Rightarrow> vec \<Rightarrow> vec \<Rightarrow> real \<Rightarrow> bool" where
  "armijo K u du target_force alpha \<longleftrightarrow>
     norm2 (vec_sub target_force (mat_vec K (vec_add u (vec_scale alpha du))))
       < (1 - c1 * alpha) * norm2 (vec_sub target_force (mat_vec K u))"

text \<open>The dictionary a public operation returns: the error message or the payload.\<close>

definition returned :: "'p result \<Rightarrow> failure + 'p" where
  "returned r = (case r of Success p e \<Rightarrow> Inr p | Failure f \<Rightarrow> Inl f)"

text \<open>
  The penalty entries of a constraint list: one pair (global DOF, prescribed value) for
  every constrained slot of every constraint that maps to an active DOF, in program
  order; how many of them hit a DOF, and the sum of their prescribed values there.
\<close>

definition slot_entries :: "Constraint \<Rightarrow> int list \<Rightarrow> (nat \<times> real) list" where
  "slot_entries c node_dofs =
     map (\<lambda>s. case s of (i, constrained, dof) \<Rightarrow> (nat dof, Constraint_values c ! i))
       (filter (\<lambda>s. case s of (i, constrained, dof) \<Rightarrow> constrained \<and> 0 \<le> dof)
          (enumerate_zip (Constraint_dofs c) node_dofs))"

definition constraint_entries ::
  "(int \<times> int list) list \<Rightarrow> Constraint list \<Rightarrow> (nat \<times> real) list" where
  "constraint_entries dm cs =
     concat (map (\<lambda>c. case map_of dm (Constraint_node_id c) of
                          None \<Rightarrow> [] | Some node_dofs \<Rightarrow> slot_entries c node_dofs) cs)"

definition hits :: "(nat \<times> real) list \<Rightarrow> nat \<Rightarrow> nat" where
  "hits es d = length (filter (\<lambda>p. fst p = d) es)"

definition total_at :: "(nat \<times> real) list \<Rightarrow> nat \<Rightarrow> real" where
  "total_at es d = sum_list (map snd (filter (\<lambda>p. fst p = d) es))"

definition square :: "nat \<Rightarrow> mat \<Rightarrow> bool" where
  "square n A \<longleftrightarrow> length A = n \<and> list_all (\<lambda>row. length row = n) A"

definition pen_K :: "mat \<Rightarrow> (nat \<times> real) list \<Rightarrow> mat" where
  "pen_K K es = foldl (\<lambda>A p. mat_set A (fst p) (fst p) (A ! fst p ! fst p + penalty)) K es"

definition pen_F :: "vec \<Rightarrow> (nat \<times> real) list \<Rightarrow> vec" where
  "pen_F F es = foldl (\<lambda>G p. G[fst p := G ! fst p + penalty * snd p]) F es"

text \<open>
  \<open>_apply_constraints\<close> once more, at the level of object references, to see what the two
  \<open>copy()\<close> calls do. A store maps references to matrix and vector objects;
  \<open>self.K_global\<close> and \<open>self.F_global\<close> are references into it; \<open>copy\<close> makes a new
  object, and the two \<open>+=\<close> of the loop write to the objects \<open>K_constrained\<close> and
  \<open>F_constrained\<close> refer to.
\<close>

record store =
  mat_at :: "nat \<Rightarrow> mat"
  vec_at :: "nat \<Rightarrow> vec"
  next_ref :: nat

definition copy_mat :: "store \<Rightarrow> nat \<Rightarrow> store \<times> nat" where
  "copy_mat s r =
     (s\<lparr>mat_at := (mat_at s)(next_ref s := mat_at s r), next_ref := Suc (next_ref s)\<rparr>,
      next_ref s)"

definition copy_vec :: "store \<Rightarrow> nat \<Rightarrow> store \<times> nat" where
  "copy_vec s r =
     (s\<lparr>vec_at := (vec_at s)(next_ref s := vec_at s r), next_ref := Suc (next_ref s)\<rparr>,
      next_ref s)"

definition constrain_slot_ref ::
  "Constraint \<Rightarrow> nat \<Rightarrow> nat \<Rightarrow> store \<Rightarrow> nat \<times> bool \<times> int \<Rightarrow> exn + store" where
  "constrain_slot_ref constraint K_constrained F_constrained s slot =
     (case slot of (i, constrained, dof) \<Rightarrow>
        if constrained \<and> 0 \<le> dof then
          bind_exn (add_at_diag (mat_at s K_constrained) (nat dof) penalty) (\<lambda>K'.
            if i < length (Constraint_values constraint) then
              bind_exn (add_at (vec_at s F_constrained) (nat dof)
                          (penalty * Constraint_values constraint ! i)) (\<lambda>F'.
                Inr (s\<lparr>mat_at := (mat_at s)(K_constrained := K'),
                        vec_at := (vec_at s)(F_constrained := F')\<rparr>))
            else Inl IndexError)
        else Inr s)"

definition constrain_node_ref ::
  "(int \<times> int list) list \<Rightarrow> nat \<Rightarrow> nat \<Rightarrow> store \<Rightarrow> Constraint \<Rightarrow> exn + store" where
  "constrain_node_ref dm K_constrained F_constrained s constraint =
     bind_exn (lookup dm (Constraint_node_id constraint)) (\<lambda>node_dofs.
       fold_exn (constrain_slot_ref constraint K_constrained F_constrained) s
         (enumerate_zip (Constraint_dofs constraint) node_dofs))"

definition apply_constraints_ref ::
  "(int \<times> int list) list \<Rightarrow> Constraint list \<Rightarrow> store \<Rightarrow> nat \<Rightarrow> nat
     \<Rightarrow> exn + (store \<times> nat \<times> nat)" where
  "apply_constraints_ref dm cs s K_global_ref F_global_ref =
     (case copy_mat s K_global_ref of (s1, K_constrained) \<Rightarrow>
        (case copy_vec s1 F_global_ref of (s2, F_constrained) \<Rightarrow>
           bind_exn (fold_exn (constrain_node_ref dm K_constrained F_constrained) s2 cs)
             (\<lambda>s3. Inr (s3, K_constrained, F_constrained))))"

definition put :: "store \<Rightarrow> nat \<Rightarrow> nat \<Rightarrow> mat \<times> vec \<Rightarrow> store" where
  "put s kc fc KF = s\<lparr>mat_at := (mat_at s)(kc := fst KF), vec_at := (vec_at s)(fc := snd KF)\<rparr>"

text \<open>
  A direct solver to run the examples with: Gauss-Jordan elimination on the augmented
  matrix, taking in each column the first row at or below the diagonal with a non-zero
  entry as pivot, and a final check that the result solves the system. It stands in for
  \<open>spsolve\<close> where a concrete one is needed.
\<close>

fun gauss_jordan :: "nat list \<Rightarrow> mat \<Rightarrow> mat option" where
  "gauss_jordan [] A = Some A"
| "gauss_jordan (j # js) A =
     (case find (\<lambda>p. A ! p ! j \<noteq> 0) [j..<length A] of
        None \<Rightarrow> None
      | Some p \<Rightarrow>
          let B = A[j := A ! p, p := A ! j];
              pivot_row = map (\<lambda>x. x / (B ! j ! j)) (B ! j);
              C = map (\<lambda>i. if i = j then pivot_row
                             else vec_sub (B ! i) (vec_scale (B ! i ! j) pivot_row))
                    [0..<length B]
          in gauss_jordan js C)"

definition direct_solve :: spsolve where
  "direct_solve K F =
     (if length F \<noteq> length K then Inl ValueError
      else case gauss_jordan [0..<length K] (map2 (\<lambda>row b. row @ [b]) K F) of
             None \<Rightarrow> Inl LibraryError
           | Some A \<Rightarrow>
               let u = map last A in
               if length u = length K \<and> mat_vec K u = F then Inr u else Inl LibraryError)"

definition kc_bar :: mat where
  "kc_bar = [[1002000000000, 0, 0, - 2000000000, 0, 0],
            [0, 1000000000000, 0, 0, 0, 0],
            [0, 0, 1000000000000, 0, 0, 0],
            [- 2000000000, 0, 0, 2000000000, 0, 0],
            [0, 0, 0, 0, 1000000000000, 0],
            [0, 0, 0, 0, 0, 1000000000000]]"

definition f_bar :: vec where "f_bar = [0, 0, 0, 100000, 0, 0]"

text \<open>
  The stiffness matrix of the bar (\<open>EA/L = 2e9\<close> between the two x translations), the
  engine of the scenario with the rotations masked off after the DOF map and the
  assembly, and the solution of the penalised system.
\<close>

definition k_bar :: mat where
  "k_bar = [[2000000000, 0, 0, - 2000000000, 0, 0],
            [0, 0, 0, 0, 0, 0],
            [0, 0, 0, 0, 0, 0],
            [- 2000000000, 0, 0, 2000000000, 0, 0],
            [0, 0, 0, 0, 0, 0],
            [0, 0, 0, 0, 0, 0]]"

definition truss_numbered :: FEMEngine where
  "truss_numbered = (axial_truss mask_translations)
     \<lparr>dof_map := [(0, [0, 1, 2, - 1, - 1, - 1]), (1, [3, 4, 5, - 1, - 1, - 1])],
      total_dofs := 6\<rparr>"

definition truss_assembled :: FEMEngine where
  "truss_assembled = truss_numbered\<lparr>K_global := Some k_bar, F_global := Some f_bar\<rparr>"

definition u_bar :: vec where
  "u_bar = [1 / 10000000, 0, 0, 501 / 10000000, 0, 0]"

text \<open>
  What the statements ask of a linear solver: when it returns, its result has the
  length of the right-hand side and solves the system exactly.
\<close>

definition exact_solver :: "spsolve \<Rightarrow> bool" where
  "exact_solver sp \<longleftrightarrow> (\<forall>K F u. sp K F = Inr u \<longrightarrow> length u = length F \<and> mat_vec K u = F)"

definition truss_solved :: FEMEngine where
  "truss_solved = truss_assembled
     \<lparr>displacements := Some u_bar, reactions := Some [- 100000, 0, 0, 0, 0, 0],
      element_forces := [(1, [- 100000, 0, 0, 100000, 0, 0])]\<rparr>"

text \<open>
  An engine with a dangling reference: the bar element of the scenario between its two
  nodes, with no material and no section in the store.
\<close>

definition dangling_material :: FEMEngine where
  "dangling_material =
     add_element bar_element
       (add_node \<lparr>Node_id = 1, Node_x = 1, Node_y = 0, Node_z = 0, Node_dofs = mask_translations\<rparr>
         (add_node \<lparr>Node_id = 0, Node_x = 0, Node_y = 0, Node_z = 0, Node_dofs = mask_translations\<rparr>
            new_engine))"

text \<open>
  The Newmark scheme in the specification's words: the constants, the effective
  stiffness, the effective force of a step, and the update of acceleration and velocity.
\<close>

definition spec_constants :: "real \<Rightarrow> real \<Rightarrow> real \<Rightarrow> newmark_constants" where
  "spec_constants dt beta gamma =
     \<lparr>a0 = 1 / (beta * dt\<^sup>2), a1 = gamma / (beta * dt), a2 = 1 / (beta * dt),
      a3 = 1 / (2 * beta) - 1, a4 = gamma / beta - 1, a5 = (dt / 2) * (gamma / beta - 2)\<rparr>"

definition effective_stiffness :: "newmark_constants \<Rightarrow> mat \<Rightarrow> mat \<Rightarrow> mat \<Rightarrow> mat" where
  "effective_stiffness c K M C = mat_add (mat_add K (mat_scale (a0 c) M)) (mat_scale (a1 c) C)"

definition effective_force ::
  "newmark_constants \<Rightarrow> mat \<Rightarrow> mat \<Rightarrow> vec \<Rightarrow> vec \<Rightarrow> vec \<Rightarrow> vec \<Rightarrow> vec" where
  "effective_force c M C F_next u v a =
     vec_add
       (vec_add F_next
          (mat_vec M (vec_add (vec_add (vec_scale (a0 c) u) (vec_scale (a2 c) v))
                              (vec_scale (a3 c) a))))
       (mat_vec C (vec_add (vec_add (vec_scale (a1 c) u) (vec_scale (a4 c) v))
                           (vec_scale (a5 c) a)))"

definition next_acceleration :: "newmark_constants \<Rightarrow> vec \<Rightarrow> vec \<Rightarrow> vec \<Rightarrow> vec \<Rightarrow> vec" where
  "next_acceleration c u_next u v a =
     vec_sub (vec_sub (vec_scale (a0 c) (vec_sub u_next u)) (vec_scale (a2 c) v))
             (vec_scale (a3 c) a)"

definition next_velocity :: "real \<Rightarrow> real \<Rightarrow> vec \<Rightarrow> vec \<Rightarrow> vec \<Rightarrow> vec" where
  "next_velocity dt gamma v a a_next =
     vec_add v (vec_scale dt (vec_add (vec_scale (1 - gamma) a) (vec_scale gamma a_next)))"

definition rows_of_width :: "nat \<Rightarrow> vec list \<Rightarrow> bool" where
  "rows_of_width n H \<longleftrightarrow> list_all (\<lambda>row. length row = n) H"

definition newmark_holds ::
  "spsolve \<Rightarrow> newmark_constants \<Rightarrow> real \<Rightarrow> real \<Rightarrow> mat \<Rightarrow> mat \<Rightarrow> mat \<Rightarrow> vec list
     \<Rightarrow> histories \<Rightarrow> nat \<Rightarrow> bool" where
  "newmark_holds sp c dt gamma K_eff M C fh h i \<longleftrightarrow>
     (case h of (uh, vh, ah) \<Rightarrow>
        sp K_eff (effective_force c M C (fh ! min (i + 1) (length fh - 1))
                    (uh ! i) (vh ! i) (ah ! i)) = Inr (uh ! (i + 1)) \<and>
        ah ! (i + 1) = next_acceleration c (uh ! (i + 1)) (uh ! i) (vh ! i) (ah ! i) \<and>
        vh ! (i + 1) = next_velocity dt gamma (vh ! i) (ah ! i) (ah ! (i + 1)))"

text \<open>
  The lumped mass matrix in the specification's words. The mass \<open>rho A L\<close> of an element
  (zero when a reference dangles); the entries it sends to the matrix, half of it for
  every active one of the first three DOF slots of each of its nodes; the entries of all
  elements; the diagonal matrix of a vector; and a vector after a list of additions.
\<close>

definition element_mass :: "FEMEngine \<Rightarrow> Element \<Rightarrow> real" where
  "element_mass e el =
     (case (map_of (materials e) (Element_material_id el),
            sections_get e (Element_section_id el), Element_nodes el) of
        (Some material, Some section, id1 # id2 # _) \<Rightarrow>
          (case (map_of (nodes e) id1, map_of (nodes e) id2) of
             (Some node1, Some node2) \<Rightarrow>
               Material_rho material * Section_A section *
                 sqrt ((Node_x node2 - Node_x node1)\<^sup>2 + (Node_y node2 - Node_y node1)\<^sup>2
                       + (Node_z node2 - Node_z node1)\<^sup>2)
           | _ \<Rightarrow> 0)
      | _ \<Rightarrow> 0)"

definition node_mass_entries :: "real \<Rightarrow> int list \<Rightarrow> (nat \<times> real) list" where
  "node_mass_entries m node_dofs =
     map (\<lambda>dof. (nat dof, m)) (filter (\<lambda>dof. 0 \<le> dof) (take 3 node_dofs))"

definition element_mass_entries :: "FEMEngine \<Rightarrow> Element \<Rightarrow> (nat \<times> real) list" where
  "element_mass_entries e el =
     concat (map (\<lambda>node_id. case map_of (dof_map e) node_id of
                                None \<Rightarrow> []
                              | Some node_dofs \<Rightarrow>
                                  node_mass_entries (element_mass e el / 2) node_dofs)
               (Element_nodes el))"

definition mass_entries :: "FEMEngine \<Rightarrow> (nat \<times> real) list" where
  "mass_entries e = concat (map (\<lambda>el. element_mass_entries e el) (map snd (elements e)))"

definition diag_mat :: "vec \<Rightarrow> mat" where
  "diag_mat v = map (\<lambda>i. (zeros (length v))[i := v ! i]) [0..<length v]"

definition add_entries :: "vec \<Rightarrow> (nat \<times> real) list \<Rightarrow> vec" where
  "add_entries v es = foldl (\<lambda>w p. w[fst p := w ! fst p + snd p]) v es"

text \<open>The number the DOF map gives to slot \<open>j\<close> of the \<open>k\<close>-th node, when the slot is active.\<close>

definition slot_number :: "(int \<times> Node) list \<Rightarrow> nat \<Rightarrow> nat \<Rightarrow> nat" where
  "slot_number ns k j =
     count_true (masks_of (take k ns)) + count_true (take j (Node_dofs (snd (ns ! k))))"

text \<open>
  The models the mass claim is about: the node dictionary has distinct keys and masks of
  length six; every element is a truss, beam or frame element with exactly two node
  ids that are in the store, a material in the store with a non-negative density and a
  section in the store with a non-negative area.
\<close>

definition mass_ready_element :: "FEMEngine \<Rightarrow> Element \<Rightarrow> bool" where
  "mass_ready_element e el \<longleftrightarrow>
     (Element_type el = TRUSS \<or> Element_type el = BEAM \<or> Element_type el = FRAME) \<and>
     (case Element_nodes el of
        [id1, id2] \<Rightarrow> map_of (nodes e) id1 \<noteq> None \<and> map_of (nodes e) id2 \<noteq> None
      | _ \<Rightarrow> False) \<and>
     (case map_of (materials e) (Element_material_id el) of
        None \<Rightarrow> False | Some material \<Rightarrow> 0 \<le> Material_rho material) \<and>
     (case sections_get e (Element_section_id el) of
        None \<Rightarrow> False | Some section \<Rightarrow> 0 \<le> Section_A section)"

definition mass_model :: "FEMEngine \<Rightarrow> bool" where
  "mass_model e \<longleftrightarrow>
     distinct (map fst (nodes e)) \<and>
     list_all (\<lambda>item. length (Node_dofs (snd item)) = 6) (nodes e) \<and>
     list_all (\<lambda>item. mass_ready_element e (snd item)) (elements e)"

definition total_mass :: "FEMEngine \<Rightarrow> real" where
  "total_mass e = sum_list (map (\<lambda>el. element_mass e el) (map snd (elements e)))"

definition trace :: "mat \<Rightarrow> real" where
  "trace M = sum_list (map (\<lambda>i. M ! i ! i) [0..<length M])"

section \<open>Theorems\<close>

subsection \<open>DOF numbering\<close>

lemma foldl_dof_slot:
  "foldl dof_slot (acc, c) bs = (acc @ consecutive c bs, c + count_true bs)"
  by (induction bs arbitrary: acc c) (auto simp: dof_slot_def count_true_def)

lemma length_consecutive [simp]: "length (consecutive c bs) = length bs"
  by (induction bs arbitrary: c) auto

lemma consecutive_nth:
  "j < length bs \<Longrightarrow>
   consecutive c bs ! j = (if bs ! j then int (c + count_true (take j bs)) else - 1)"
proof (induction bs arbitrary: c j)
  case Nil
  then show ?case by simp
next
  case (Cons b bs)
  show ?case
  proof (cases j)
    case 0
    then show ?thesis by (simp add: count_true_def)
  next
    case (Suc k)
    with Cons.prems have "k < length bs" by simp
    from Cons.IH[OF this] Suc show ?thesis by (simp add: count_true_def)
  qed
qed

lemma dof_node_eq:
  "dof_node (dm, c) (i, n) =
     (AList.update i (consecutive c (Node_dofs n)) dm, c + count_true (Node_dofs n))"
  by (simp add: dof_node_def foldl_dof_slot)

lemma count_true_append [simp]: "count_true (xs @ ys) = count_true xs + count_true ys"
  by (simp add: count_true_def)

lemma masks_of_simps [simp]:
  "masks_of [] = []"
  "masks_of (item # ns) = Node_dofs (snd item) @ masks_of ns"
  "masks_of (ns @ ms) = masks_of ns @ masks_of ms"
  by (simp_all add: masks_of_def)

lemma foldl_dof_node_counter:
  "snd (foldl dof_node (dm, c) ns) = c + count_true (masks_of ns)"
proof (induction ns arbitrary: dm c)
  case Nil
  then show ?case by (simp add: count_true_def)
next
  case (Cons item ns)
  obtain i n where item: "item = (i, n)" by (cases item)
  show ?case by (simp add: item dof_node_eq Cons.IH)
qed

lemma foldl_dof_node_other:
  "i \<notin> fst ` set ns \<Longrightarrow> map_of (fst (foldl dof_node (dm, c) ns)) i = map_of dm i"
proof (induction ns arbitrary: dm c)
  case Nil
  then show ?case by simp
next
  case (Cons item ns)
  obtain i' n where item: "item = (i', n)" by (cases item)
  with Cons.prems have "i' \<noteq> i" "i \<notin> fst ` set ns" by auto
  then show ?case by (simp add: item dof_node_eq Cons.IH update_conv')
qed

lemma foldl_dof_node_nth:
  "distinct (map fst ns) \<Longrightarrow> k < length ns \<Longrightarrow>
   map_of (fst (foldl dof_node (dm, c) ns)) (fst (ns ! k)) =
     Some (consecutive (c + count_true (masks_of (take k ns))) (Node_dofs (snd (ns ! k))))"
proof (induction ns arbitrary: dm c k)
  case Nil
  then show ?case by simp
next
  case (Cons item ns)
  obtain i n where item: "item = (i, n)" by (cases item)
  show ?case
  proof (cases k)
    case 0
    from Cons.prems(1) item have "i \<notin> fst ` set ns" by auto
    then show ?thesis
      by (simp add: 0 item dof_node_eq foldl_dof_node_other update_conv' count_true_def)
  next
    case (Suc k')
    with Cons.prems have "distinct (map fst ns)" "k' < length ns" by auto
    from Cons.IH[OF this] show ?thesis
      by (simp add: Suc item dof_node_eq add.assoc)
  qed
qed

text \<open>
  Claim C3. Building the DOF map walks the nodes in insertion order and each node's mask
  from its first slot to its last: node \<open>k\<close> gets a list as long as its mask, an active
  slot \<open>j\<close> holds the number of active slots before it (those of the earlier nodes plus
  those of the node's own earlier slots), so the numbers are consecutive from 0, an
  inactive slot holds \<open>-1\<close>, and the total DOF count is the number of true mask entries
  of all nodes. The keys of the node dictionary are distinct, as in any dictionary.
\<close>

theorem dof_numbering:
  assumes "distinct (map fst (nodes e))"
  shows "total_dofs (setup_dof_mapping e) = count_true (masks_of (nodes e)) \<and>
    (\<forall>k < length (nodes e). \<exists>node_dofs.
       map_of (dof_map (setup_dof_mapping e)) (fst (nodes e ! k)) = Some node_dofs \<and>
       length node_dofs = length (Node_dofs (snd (nodes e ! k))) \<and>
       (\<forall>j < length node_dofs.
          node_dofs ! j =
            (if Node_dofs (snd (nodes e ! k)) ! j
             then int (count_true (masks_of (take k (nodes e)))
                       + count_true (take j (Node_dofs (snd (nodes e ! k)))))
             else - 1)))"
proof -
  obtain dm c where f: "foldl dof_node (dof_map e, 0) (nodes e) = (dm, c)"
    by (cases "foldl dof_node (dof_map e, 0) (nodes e)")
  have s: "setup_dof_mapping e = e\<lparr>dof_map := dm, total_dofs := c\<rparr>"
    by (simp add: setup_dof_mapping_def f)
  have c: "c = count_true (masks_of (nodes e))"
    using foldl_dof_node_counter[of "dof_map e" 0 "nodes e"] f by simp
  have dm: "map_of dm (fst (nodes e ! k)) =
      Some (consecutive (count_true (masks_of (take k (nodes e)))) (Node_dofs (snd (nodes e ! k))))"
    if "k < length (nodes e)" for k
    using foldl_dof_node_nth[OF assms that, of "dof_map e" 0] f by simp
  show ?thesis
    by (simp add: s c dm consecutive_nth)
qed

lemma nodes_axial_truss:
  "nodes (axial_truss msk) =
     [(0, \<lparr>Node_id = 0, Node_x = 0, Node_y = 0, Node_z = 0, Node_dofs = msk\<rparr>),
      (1, \<lparr>Node_id = 1, Node_x = 1, Node_y = 0, Node_z = 0, Node_dofs = msk\<rparr>)]"
  by (simp add: axial_truss_def add_node_def add_material_def add_section_def
      add_element_def add_load_def add_constraint_def new_engine_def)

theorem dof_numbering_witness:
  "distinct (map fst (nodes (axial_truss mask_translations))) \<and>
   total_dofs (setup_dof_mapping (axial_truss mask_translations)) = 6 \<and>
   (\<exists>node_dofs.
      map_of (dof_map (setup_dof_mapping (axial_truss mask_translations))) 1 = Some node_dofs \<and>
      length node_dofs = 6 \<and> node_dofs ! 0 = 3 \<and> node_dofs ! 2 = 5 \<and> node_dofs ! 3 = - 1)"
proof -
  let ?e = "axial_truss mask_translations"
  have d: "distinct (map fst (nodes ?e))"
    by (simp add: nodes_axial_truss)
  note n = dof_numbering[OF d]
  have t: "total_dofs (setup_dof_mapping ?e) = 6"
    using n by (simp add: nodes_axial_truss masks_of_def count_true_def mask_translations_def)
  have "1 < length (nodes ?e)"
    by (simp add: nodes_axial_truss)
  with n obtain nd where nd:
    "map_of (dof_map (setup_dof_mapping ?e)) (fst (nodes ?e ! 1)) = Some nd"
    "length nd = length (Node_dofs (snd (nodes ?e ! 1)))"
    "\<forall>j < length nd. nd ! j =
        (if Node_dofs (snd (nodes ?e ! 1)) ! j
         then int (count_true (masks_of (take 1 (nodes ?e)))
                   + count_true (take j (Node_dofs (snd (nodes ?e ! 1)))))
         else - 1)"
    by blast
  have l: "length nd = 6"
    using nd(2) by (simp add: nodes_axial_truss mask_translations_def)
  have "nd ! 0 = 3" "nd ! 2 = 5" "nd ! 3 = - 1"
    using nd(3) l
    by (simp_all add: nodes_axial_truss masks_of_def count_true_def mask_translations_def)
  with nd(1) l d t show ?thesis
    by (simp add: nodes_axial_truss)
qed

subsection \<open>Line search\<close>

lemma bind_exn_simps [simp]:
  "bind_exn (Inl ex) f = Inl ex"
  "bind_exn (Inr x) f = f x"
  by (simp_all add: bind_exn_def)

lemma length_mat_vec [simp]: "length (mat_vec A v) = length A"
  by (simp add: mat_vec_def)

lemma length_vec_scale [simp]: "length (vec_scale c v) = length v"
  by (simp add: vec_scale_def)

lemma length_vec_add [simp]: "length (vec_add a b) = min (length a) (length b)"
  by (simp add: vec_add_def)

lemma length_vec_sub [simp]: "length (vec_sub a b) = min (length a) (length b)"
  by (simp add: vec_sub_def)

lemma np_binop_same:
  "length a = length b \<Longrightarrow> np_binop f a b = Inr (map2 f a b)"
  by (simp add: np_binop_def)

lemma residual_norm_at_shape:
  "length v = length K \<Longrightarrow> length target_force = length K \<Longrightarrow>
   residual_norm_at K target_force v = Inr (norm2 (vec_sub target_force (mat_vec K v)))"
  by (simp add: residual_norm_at_def calculate_internal_force_def np_matvec_def
      np_binop_same vec_sub_def)

lemma line_search_loop_first:
  assumes "length u = length K" "length du = length K" "length target_force = length K"
  shows "\<exists>j \<le> m. line_search_loop m K u du target_force cr alpha = Inr (alpha / 2 ^ j) \<and>
     (\<forall>i < j. \<not> norm2 (vec_sub target_force
                   (mat_vec K (vec_add u (vec_scale (alpha / 2 ^ i) du))))
                 < (1 - c1 * (alpha / 2 ^ i)) * cr) \<and>
     (j < m \<longrightarrow> norm2 (vec_sub target_force
                   (mat_vec K (vec_add u (vec_scale (alpha / 2 ^ j) du))))
                 < (1 - c1 * (alpha / 2 ^ j)) * cr)"
proof (induction m arbitrary: alpha)
  case 0
  show ?case by simp
next
  case (Suc m)
  let ?trial = "\<lambda>a. norm2 (vec_sub target_force (mat_vec K (vec_add u (vec_scale a du))))"
  have step: "line_search_loop (Suc m) K u du target_force cr alpha =
      (if ?trial alpha < (1 - c1 * alpha) * cr then Inr alpha
       else line_search_loop m K u du target_force cr (alpha * (1 / 2)))"
    using assms
    by (simp add: np_binop_same residual_norm_at_shape vec_add_def)
  show ?case
  proof (cases "?trial alpha < (1 - c1 * alpha) * cr")
    case True
    then have "line_search_loop (Suc m) K u du target_force cr alpha = Inr (alpha / 2 ^ 0)"
      by (simp only: step if_True power_0 div_by_1)
    with True show ?thesis
      by (intro exI[of _ 0]) simp
  next
    case False
    from Suc.IH[of "alpha * (1 / 2)"] obtain j where j: "j \<le> m"
      "line_search_loop m K u du target_force cr (alpha * (1 / 2)) = Inr (alpha * (1 / 2) / 2 ^ j)"
      "\<forall>i < j. \<not> ?trial (alpha * (1 / 2) / 2 ^ i) < (1 - c1 * (alpha * (1 / 2) / 2 ^ i)) * cr"
      "j < m \<longrightarrow> ?trial (alpha * (1 / 2) / 2 ^ j) < (1 - c1 * (alpha * (1 / 2) / 2 ^ j)) * cr"
      by blast
    have half: "alpha * (1 / 2) / 2 ^ i = alpha / 2 ^ Suc i" for i
      by simp
    have "\<not> ?trial (alpha / 2 ^ i) < (1 - c1 * (alpha / 2 ^ i)) * cr" if "i < Suc j" for i
    proof (cases i)
      case 0
      with False show ?thesis by simp
    next
      case (Suc i')
      with that have "i' < j" by simp
      with j(3) show ?thesis unfolding half Suc by blast
    qed
    moreover have "line_search_loop (Suc m) K u du target_force cr alpha = Inr (alpha / 2 ^ Suc j)"
      using False j(2) by (simp only: step half if_False)
    moreover have "Suc j < Suc m \<longrightarrow>
        ?trial (alpha / 2 ^ Suc j) < (1 - c1 * (alpha / 2 ^ Suc j)) * cr"
      using j(4) unfolding half by simp
    ultimately show ?thesis
      using j(1) by (intro exI[of _ "Suc j"]) blast
  qed
qed

text \<open>
  Claim C8. On arrays of one size the line search returns \<open>1 / 2 ^ j\<close> for some
  \<open>j \<le> 10\<close>: every step size \<open>1, 1/2, ...\<close> tried before it failed the
  sufficient-decrease test with \<open>c1 = 1e-4\<close>, and it passed the test itself unless
  \<open>j = 10\<close>, the value left after ten failed trials and ten halvings.
\<close>

theorem line_search_first_accepted:
  assumes "length u = length K" "length du = length K" "length target_force = length K"
  shows "\<exists>j \<le> 10. line_search K u du target_force = Inr (1 / 2 ^ j) \<and>
     (\<forall>i < j. \<not> armijo K u du target_force (1 / 2 ^ i)) \<and>
     (j < 10 \<longrightarrow> armijo K u du target_force (1 / 2 ^ j))"
  using line_search_loop_first[OF assms, of 10 "norm2 (vec_sub target_force (mat_vec K u))" 1]
  by (simp add: line_search_def residual_norm_at_shape assms armijo_def)

theorem line_search_first_accepted_witness:
  "length [0 :: real] = length [[1 :: real]] \<and> line_search [[1]] [0] [0] [1] = Inr (1 / 2 ^ 10)"
proof -
  have no: "\<not> armijo [[1]] [0] [0] [1] (1 / 2 ^ j)" for j
    by (simp add: armijo_def norm2_def vec_sub_def vec_add_def vec_scale_def mat_vec_def dot_def
        c1_def)
  from line_search_first_accepted[of "[0]" "[[1]]" "[0]" "[1]"]
  obtain j where j: "j \<le> 10" "line_search [[1]] [0] [0] [1] = Inr (1 / 2 ^ j)"
    "j < 10 \<longrightarrow> armijo [[1]] [0] [0] [1] (1 / 2 ^ j)"
    by auto
  from j(3) no have "\<not> j < 10" by blast
  with j(1) have "j = 10" by simp
  with j(2) show ?thesis by simp
qed

subsection \<open>Modal analysis and the constraint list\<close>

lemma setup_dof_mapping_constraints:
  "setup_dof_mapping (e\<lparr>constraints := cs\<rparr>) = (setup_dof_mapping e)\<lparr>constraints := cs\<rparr>"
  by (simp add: setup_dof_mapping_def split: prod.splits)

lemma fields_constraints:
  "nodes (e\<lparr>constraints := cs\<rparr>) = nodes e"
  "materials (e\<lparr>constraints := cs\<rparr>) = materials e"
  "sections (e\<lparr>constraints := cs\<rparr>) = sections e"
  "elements (e\<lparr>constraints := cs\<rparr>) = elements e"
  "dof_map (e\<lparr>constraints := cs\<rparr>) = dof_map e"
  "total_dofs (e\<lparr>constraints := cs\<rparr>) = total_dofs e"
  by simp_all

lemma lookup_section_constraints:
  "lookup_section (e\<lparr>constraints := cs\<rparr>) sid = lookup_section e sid"
  by (simp add: lookup_section_def split: option.splits)

lemma truss_stiffness_constraints:
  "truss_stiffness (e\<lparr>constraints := cs\<rparr>) el = truss_stiffness e el"
  unfolding truss_stiffness_def lookup_section_constraints fields_constraints by (rule refl)

lemma beam_stiffness_constraints:
  "beam_stiffness (e\<lparr>constraints := cs\<rparr>) el = beam_stiffness e el"
  unfolding beam_stiffness_def lookup_section_constraints fields_constraints by (rule refl)

lemma get_element_stiffness_matrix_constraints:
  "get_element_stiffness_matrix (e\<lparr>constraints := cs\<rparr>) el = get_element_stiffness_matrix e el"
  by (simp add: get_element_stiffness_matrix_def truss_stiffness_constraints
      beam_stiffness_constraints frame_stiffness_def)

lemma assemble_element_constraints:
  "assemble_element (e\<lparr>constraints := cs\<rparr>) = assemble_element e"
  by (intro ext)
    (simp add: assemble_element_def get_element_stiffness_matrix_constraints Let_def
      cong: if_cong)

lemma assemble_global_stiffness_constraints:
  "assemble_global_stiffness (e\<lparr>constraints := cs\<rparr>) =
     bind_exn (assemble_global_stiffness e) (\<lambda>e'. Inr (e'\<lparr>constraints := cs\<rparr>))"
  by (simp add: assemble_global_stiffness_def assemble_element_constraints bind_exn_def
      split: sum.splits)

lemma mass_element_constraints:
  "mass_element (e\<lparr>constraints := cs\<rparr>) = mass_element e"
  by (intro ext)
    (simp add: mass_element_def sections_get_def Let_def bind_exn_def
      cong: if_cong option.case_cong)

lemma assemble_global_mass_constraints:
  "assemble_global_mass (e\<lparr>constraints := cs\<rparr>) =
     bind_exn (assemble_global_mass e) (\<lambda>e'. Inr (e'\<lparr>constraints := cs\<rparr>))"
  by (simp add: assemble_global_mass_def mass_element_constraints bind_exn_def
      split: sum.splits)

lemma solve_modal_constraints:
  "returned (solve_modal eg (e\<lparr>constraints := cs\<rparr>) num_modes) =
   returned (solve_modal eg e num_modes)"
proof (cases "assemble_global_stiffness (setup_dof_mapping e)")
  case (Inl ex)
  then show ?thesis
    by (simp add: solve_modal_def setup_dof_mapping_constraints
        assemble_global_stiffness_constraints)
next
  case (Inr e2)
  show ?thesis
  proof (cases "assemble_global_mass e2")
    case (Inl ex)
    with Inr show ?thesis
      by (simp add: solve_modal_def setup_dof_mapping_constraints
          assemble_global_stiffness_constraints assemble_global_mass_constraints)
  next
    case e3: (Inr e3)
    with Inr show ?thesis
      by (simp add: solve_modal_def setup_dof_mapping_constraints
          assemble_global_stiffness_constraints assemble_global_mass_constraints
          returned_def catch_def attr_def bind_exn_def
          split: option.splits sum.splits prod.splits)
  qed
qed

text \<open>
  Claim C6. Modal analysis does not read the constraint list: two engines that differ
  only in their constraints get the same dictionary back from \<open>solve_modal\<close> (the same
  frequencies and mode shapes, or the same error), whatever \<open>eigsh\<close> computes.
\<close>

theorem solve_modal_ignores_constraints:
  "returned (solve_modal eg (e\<lparr>constraints := cs1\<rparr>) num_modes) =
   returned (solve_modal eg (e\<lparr>constraints := cs2\<rparr>) num_modes)"
  by (simp add: solve_modal_constraints)

subsection \<open>Penalty constraints\<close>

lemma pen_simps [simp]:
  "pen_K K [] = K" "pen_K K (p # es) = pen_K (mat_set K (fst p) (fst p) (K ! fst p ! fst p + penalty)) es"
  "pen_F F [] = F" "pen_F F (p # es) = pen_F (F[fst p := F ! fst p + penalty * snd p]) es"
  by (simp_all add: pen_K_def pen_F_def)

lemma pen_append:
  "pen_K K (es @ fs) = pen_K (pen_K K es) fs" "pen_F F (es @ fs) = pen_F (pen_F F es) fs"
  by (simp_all add: pen_K_def pen_F_def)

lemma constrain_slot_eq:
  "constrain_slot c (K, F) (i, constrained, dof) =
     (if constrained \<and> 0 \<le> dof then
        (if nat dof < length K \<and> i < length (Constraint_values c) \<and> nat dof < length F
         then Inr (mat_set K (nat dof) (nat dof) (K ! nat dof ! nat dof + penalty),
                   F[nat dof := F ! nat dof + penalty * Constraint_values c ! i])
         else Inl IndexError)
      else Inr (K, F))"
  by (simp add: constrain_slot_def add_at_diag_def add_at_def)

lemma constrain_slots_entries:
  "fold_exn (constrain_slot c) (K, F) slots = Inr (K', F') \<Longrightarrow>
   K' = pen_K K (map (\<lambda>s. case s of (i, constrained, dof) \<Rightarrow> (nat dof, Constraint_values c ! i))
                  (filter (\<lambda>s. case s of (i, constrained, dof) \<Rightarrow> constrained \<and> 0 \<le> dof) slots)) \<and>
   F' = pen_F F (map (\<lambda>s. case s of (i, constrained, dof) \<Rightarrow> (nat dof, Constraint_values c ! i))
                  (filter (\<lambda>s. case s of (i, constrained, dof) \<Rightarrow> constrained \<and> 0 \<le> dof) slots))"
proof (induction slots arbitrary: K F)
  case Nil
  then show ?case by simp
next
  case (Cons s slots)
  obtain i constrained dof where s: "s = (i, constrained, dof)" by (cases s)
  show ?case
  proof (cases "constrained \<and> 0 \<le> dof")
    case False
    with Cons.prems have "fold_exn (constrain_slot c) (K, F) slots = Inr (K', F')"
      by (simp add: s constrain_slot_eq)
    from Cons.IH[OF this] False show ?thesis by (auto simp: s)
  next
    case True
    with Cons.prems have
      "fold_exn (constrain_slot c)
         (mat_set K (nat dof) (nat dof) (K ! nat dof ! nat dof + penalty),
          F[nat dof := F ! nat dof + penalty * Constraint_values c ! i]) slots = Inr (K', F')"
      by (simp add: s constrain_slot_eq split: if_splits)
    from Cons.IH[OF this] True show ?thesis by (simp add: s)
  qed
qed

lemma constrain_node_eq:
  "constrain_node dm KF c =
     (case map_of dm (Constraint_node_id c) of
        None \<Rightarrow> Inl KeyError
      | Some node_dofs \<Rightarrow>
          fold_exn (constrain_slot c) KF (enumerate_zip (Constraint_dofs c) node_dofs))"
  by (simp add: constrain_node_def lookup_def split: option.splits)

lemma constrain_nodes_entries:
  "fold_exn (constrain_node dm) (K, F) cs = Inr (K', F') \<Longrightarrow>
   K' = pen_K K (constraint_entries dm cs) \<and> F' = pen_F F (constraint_entries dm cs)"
proof (induction cs arbitrary: K F)
  case Nil
  then show ?case by (simp add: constraint_entries_def)
next
  case (Cons c cs)
  from Cons.prems have step:
    "bind_exn (constrain_node dm (K, F) c) (\<lambda>s. fold_exn (constrain_node dm) s cs) = Inr (K', F')"
    by simp
  from step obtain node_dofs K1 F1 where
    nd: "map_of dm (Constraint_node_id c) = Some node_dofs" and
    one: "fold_exn (constrain_slot c) (K, F)
            (enumerate_zip (Constraint_dofs c) node_dofs) = Inr (K1, F1)" and
    rest: "fold_exn (constrain_node dm) (K1, F1) cs = Inr (K', F')"
  proof (cases "map_of dm (Constraint_node_id c)")
    case None
    with step show ?thesis by (simp add: constrain_node_eq)
  next
    case (Some node_dofs)
    show ?thesis
    proof (cases "fold_exn (constrain_slot c) (K, F)
                    (enumerate_zip (Constraint_dofs c) node_dofs)")
      case (Inl ex)
      with step Some show ?thesis by (simp add: constrain_node_eq)
    next
      case (Inr KF1)
      obtain K1 F1 where "KF1 = (K1, F1)" by (cases KF1)
      with step Some Inr that show ?thesis
        by (simp add: constrain_node_eq)
    qed
  qed
  from constrain_slots_entries[OF one]
  have "K1 = pen_K K (slot_entries c node_dofs)" "F1 = pen_F F (slot_entries c node_dofs)"
    by (simp_all add: slot_entries_def)
  with Cons.IH[OF rest] nd show ?case
    by (simp add: constraint_entries_def pen_append)
qed

lemma square_mat_set: "square n A \<Longrightarrow> square n (mat_set A i j v)"
  by (cases "i < length A") (auto simp: square_def mat_set_def list_all_length nth_list_update)

lemma mat_set_nth:
  "square n A \<Longrightarrow> i < n \<Longrightarrow> j < n \<Longrightarrow>
   mat_set A d d v ! i ! j = (if i = d \<and> j = d then v else A ! i ! j)"
  by (cases "i = d") (auto simp: square_def mat_set_def list_all_length nth_list_update)

lemma pen_K_nth:
  "square n K \<Longrightarrow> i < n \<Longrightarrow> j < n \<Longrightarrow>
   pen_K K es ! i ! j = K ! i ! j + (if i = j then penalty * real (hits es i) else 0)"
proof (induction es arbitrary: K)
  case Nil
  then show ?case by (simp add: hits_def)
next
  case (Cons p es)
  let ?K1 = "mat_set K (fst p) (fst p) (K ! fst p ! fst p + penalty)"
  have "square n ?K1" using Cons.prems(1) by (rule square_mat_set)
  from Cons.IH[OF this Cons.prems(2,3)] mat_set_nth[OF Cons.prems]
  show ?case
    by (auto simp: hits_def algebra_simps)
qed

lemma pen_F_length [simp]: "length (pen_F F es) = length F"
  by (induction es arbitrary: F) auto

lemma pen_F_nth:
  "d < length F \<Longrightarrow> pen_F F es ! d = F ! d + penalty * total_at es d"
proof (induction es arbitrary: F)
  case Nil
  then show ?case by (simp add: total_at_def)
next
  case (Cons p es)
  then show ?case
    by (auto simp: total_at_def nth_list_update algebra_simps)
qed

lemma square_pen_K: "square n K \<Longrightarrow> square n (pen_K K es)"
  by (induction es arbitrary: K) (auto simp: square_mat_set)

lemma put_put [simp]: "put (put s kc fc KF) kc fc KF' = put s kc fc KF'"
  by (simp add: put_def)

lemma constrain_slot_ref_put:
  "constrain_slot_ref c kc fc (put s kc fc KF) slot =
     bind_exn (constrain_slot c KF slot) (\<lambda>KF'. Inr (put s kc fc KF'))"
proof -
  obtain K F where KF: "KF = (K, F)" by (cases KF)
  obtain i constrained dof where slot: "slot = (i, constrained, dof)" by (cases slot)
  show ?thesis
    by (simp add: KF slot constrain_slot_eq constrain_slot_ref_def put_def add_at_diag_def
        add_at_def)
qed

lemma constrain_slots_ref_put:
  "fold_exn (constrain_slot_ref c kc fc) (put s kc fc KF) slots =
     bind_exn (fold_exn (constrain_slot c) KF slots) (\<lambda>KF'. Inr (put s kc fc KF'))"
proof (induction slots arbitrary: KF)
  case Nil
  show ?case by simp
next
  case (Cons slot slots)
  show ?case
    by (cases "constrain_slot c KF slot") (simp_all add: constrain_slot_ref_put Cons.IH)
qed

lemma constrain_node_ref_put:
  "constrain_node_ref dm kc fc (put s kc fc KF) c =
     bind_exn (constrain_node dm KF c) (\<lambda>KF'. Inr (put s kc fc KF'))"
  by (simp add: constrain_node_ref_def constrain_node_eq lookup_def constrain_slots_ref_put
      split: option.splits)

lemma constrain_nodes_ref_put:
  "fold_exn (constrain_node_ref dm kc fc) (put s kc fc KF) cs =
     bind_exn (fold_exn (constrain_node dm) KF cs) (\<lambda>KF'. Inr (put s kc fc KF'))"
proof (induction cs arbitrary: KF)
  case Nil
  show ?case by simp
next
  case (Cons c cs)
  show ?case
    by (cases "constrain_node dm KF c") (simp_all add: constrain_node_ref_put Cons.IH)
qed

lemma apply_constraints_ref_refines:
  assumes "apply_constraints_ref dm cs s kr fr = Inr (s', kc, fc)"
    and "kr < next_ref s" "fr < next_ref s"
  shows "mat_at s' kr = mat_at s kr \<and> vec_at s' fr = vec_at s fr \<and>
         fold_exn (constrain_node dm) (mat_at s kr, vec_at s fr) cs =
           Inr (mat_at s' kc, vec_at s' fc)"
proof -
  let ?n = "next_ref s"
  let ?s0 = "s\<lparr>next_ref := Suc (Suc ?n)\<rparr>"
  have eq: "apply_constraints_ref dm cs s kr fr =
      bind_exn (fold_exn (constrain_node_ref dm ?n (Suc ?n))
                  (put ?s0 ?n (Suc ?n) (mat_at s kr, vec_at s fr)) cs)
        (\<lambda>s3. Inr (s3, ?n, Suc ?n))"
    by (cases s) (simp add: apply_constraints_ref_def copy_mat_def copy_vec_def put_def)
  from assms(1) have b:
    "bind_exn (bind_exn (fold_exn (constrain_node dm) (mat_at s kr, vec_at s fr) cs)
                 (\<lambda>KF'. Inr (put ?s0 ?n (Suc ?n) KF')))
       (\<lambda>s3. Inr (s3, ?n, Suc ?n)) = Inr (s', kc, fc)"
    by (simp only: eq constrain_nodes_ref_put)
  show ?thesis
  proof (cases "fold_exn (constrain_node dm) (mat_at s kr, vec_at s fr) cs")
    case (Inl ex)
    with b show ?thesis by simp
  next
    case (Inr KF')
    with b have "s' = put ?s0 ?n (Suc ?n) KF'" "kc = ?n" "fc = Suc ?n"
      by auto
    with Inr assms(2,3) show ?thesis
      by (simp add: put_def)
  qed
qed

lemma direct_solve_bar:
  "direct_solve kc_bar f_bar = Inr [1 / 10000000, 0, 0, 501 / 10000000, 0, 0]"
  by (simp add: direct_solve_def kc_bar_def f_bar_def vec_sub_def vec_scale_def
      mat_vec_def dot_def Let_def)

lemma bind_exn_eq_Inr: "bind_exn m f = Inr y \<longleftrightarrow> (\<exists>x. m = Inr x \<and> f x = Inr y)"
  by (cases m) simp_all

lemma bind_exn_InrE:
  assumes "bind_exn m f = Inr y"
  obtains x where "m = Inr x" "f x = Inr y"
  using assms by (auto simp: bind_exn_eq_Inr)

lemma catch_eq_Success: "catch body = Success p e \<longleftrightarrow> body = Inr (Success p e)"
  by (simp add: catch_def split: sum.splits)

lemma fold_exn_invariant:
  assumes "fold_exn f s xs = Inr s'" and "P s"
    and "\<And>s x s'. P s \<Longrightarrow> x \<in> set xs \<Longrightarrow> f s x = Inr s' \<Longrightarrow> P s'"
  shows "P s'"
  using assms
proof (induction xs arbitrary: s)
  case Nil
  then show ?case by simp
next
  case (Cons x xs)
  from Cons.prems(1) obtain s1 where s1: "f s x = Inr s1" "fold_exn f s1 xs = Inr s'"
    by (auto simp: bind_exn_eq_Inr)
  have "P s1" using Cons.prems(3)[OF Cons.prems(2) _ s1(1)] by simp
  show ?case
  proof (rule Cons.IH[OF s1(2) \<open>P s1\<close>])
    fix t y t'
    assume "P t" "y \<in> set xs" "f t y = Inr t'"
    then show "P t'" by (intro Cons.prems(3)[of t y t']) simp_all
  qed
qed

lemma square_zeros_mat [simp]: "square n (zeros_mat n n)"
  by (simp add: square_def zeros_mat_def list_all_length)

lemma square_mat_add: "square n A \<Longrightarrow> square n B \<Longrightarrow> square n (mat_add A B)"
  by (simp add: square_def mat_add_def list_all_length)

lemma square_foldl_mat_set:
  "square n A \<Longrightarrow>
   square n (foldl (\<lambda>A t. case t of (v, i, j) \<Rightarrow> mat_set A i j (A ! i ! j + v)) A ts)"
proof (induction ts arbitrary: A)
  case Nil
  then show ?case by simp
next
  case (Cons t ts)
  obtain v i j where t: "t = (v, i, j)" by (cases t)
  have "square n (mat_set A i j (A ! i ! j + v))"
    using Cons.prems by (rule square_mat_set)
  from Cons.IH[OF this] show ?case by (simp add: t)
qed

lemma square_csr_matrix:
  assumes "csr_matrix data rows cols n = Inr S"
  shows "square n S"
proof -
  from assms have
    "S = foldl (\<lambda>A t. case t of (v, i, j) \<Rightarrow> mat_set A i j (A ! i ! j + v))
           (zeros_mat n n) (zip data (zip rows cols))"
    by (simp add: csr_matrix_def split: if_splits)
  then show ?thesis
    by (simp add: square_foldl_mat_set)
qed

lemma assemble_element_square:
  assumes "assemble_element e K el = Inr K'" and "square (total_dofs e) K"
  shows "square (total_dofs e) K'"
proof -
  from assms(1) obtain kd where kd: "get_element_stiffness_matrix e el = Inr kd"
    unfolding assemble_element_def by (elim bind_exn_InrE)
  obtain k_elem dofs where kd': "kd = (k_elem, dofs)" by (cases kd)
  show ?thesis
  proof (cases "length (active_of dofs) = 0")
    case True
    with assms kd kd' show ?thesis
      by (simp add: assemble_element_def)
  next
    case False
    with assms(1) kd kd' obtain S where
      S: "csr_matrix (concat k_elem)
            (concat (map (\<lambda>a. replicate (length (active_of dofs)) a) (active_of dofs)))
            (concat (replicate (length (active_of dofs)) (active_of dofs)))
            (total_dofs e) = Inr S" and K': "K' = mat_add K S"
      by (auto simp: assemble_element_def Let_def bind_exn_eq_Inr)
    from square_csr_matrix[OF S] assms(2) K' show ?thesis
      by (simp add: square_mat_add)
  qed
qed

lemma assemble_global_stiffness_Inr:
  assumes "assemble_global_stiffness e = Inr e'"
  shows "\<exists>K. e' = e\<lparr>K_global := Some K\<rparr> \<and> square (total_dofs e) K"
proof -
  from assms obtain K where K: "fold_exn (assemble_element e)
      (zeros_mat (total_dofs e) (total_dofs e)) (map snd (elements e)) = Inr K"
    and e': "e' = e\<lparr>K_global := Some K\<rparr>"
    by (auto simp: assemble_global_stiffness_def bind_exn_eq_Inr)
  have "square (total_dofs e) K"
    by (rule fold_exn_invariant[OF K, where P = "square (total_dofs e)"])
       (simp_all add: assemble_element_square)
  with e' show ?thesis by blast
qed

lemma force_load_length: "force_load e F load = Inr F' \<Longrightarrow> length F' = length F"
proof -
  assume a: "force_load e F load = Inr F'"
  show ?thesis
  proof (cases "Load_node_id load")
    case None
    with a show ?thesis by (simp add: force_load_def)
  next
    case (Some node_id)
    with a obtain node_dofs where
      f: "fold_exn force_slot F (zip (Load_values load) node_dofs) = Inr F'"
      by (auto simp: force_load_def bind_exn_eq_Inr)
    show ?thesis
      by (rule fold_exn_invariant[OF f, where P = "\<lambda>G. length G = length F"])
         (auto simp: force_slot_def add_at_def split: if_splits)
  qed
qed

lemma assemble_global_force_Inr:
  assumes "assemble_global_force e = Inr e'"
  shows "\<exists>F. e' = e\<lparr>F_global := Some F\<rparr> \<and> length F = total_dofs e"
proof -
  from assms obtain F where F: "fold_exn (force_load e) (zeros (total_dofs e)) (loads e) = Inr F"
    and e': "e' = e\<lparr>F_global := Some F\<rparr>"
    by (auto simp: assemble_global_force_def bind_exn_eq_Inr)
  have "length F = total_dofs e"
    by (rule fold_exn_invariant[OF F, where P = "\<lambda>G. length G = total_dofs e"])
       (simp_all add: zeros_def force_load_length)
  with e' show ?thesis by blast
qed

lemma calculate_element_forces_Inr:
  "calculate_element_forces e = Inr e' \<Longrightarrow> \<exists>ef. e' = e\<lparr>element_forces := ef\<rparr>"
  by (auto simp: calculate_element_forces_def bind_exn_eq_Inr)

lemma apply_constraints_Inr:
  assumes "apply_constraints e = Inr (Kc, Fc)"
  shows "\<exists>K F. K_global e = Some K \<and> F_global e = Some F \<and>
           Kc = pen_K K (constraint_entries (dof_map e) (constraints e)) \<and>
           Fc = pen_F F (constraint_entries (dof_map e) (constraints e))"
proof -
  from assms obtain K F where K: "K_global e = Some K" and F: "F_global e = Some F"
    and f: "fold_exn (constrain_node (dof_map e)) (K, F) (constraints e) = Inr (Kc, Fc)"
    unfolding apply_constraints_def apply_constraints_to_def bind_exn_eq_Inr attr_def
    by (auto split: option.splits)
  from constrain_nodes_entries[OF f] K F show ?thesis by simp
qed

lemma attr_Inr: "attr a = Inr v \<longleftrightarrow> a = Some v"
  by (simp add: attr_def split: option.splits)

lemma np_matvec_Inr: "np_matvec A v = Inr w \<longleftrightarrow> length v = length A \<and> w = mat_vec A v"
  by (auto simp: np_matvec_def)

lemma solve_static_Success:
  assumes "solve_static sp e = Inr (Success p e')"
  shows "\<exists>e2 e3 Kc Fc u K F r ef.
      assemble_global_stiffness (setup_dof_mapping e) = Inr e2 \<and>
      assemble_global_force e2 = Inr e3 \<and>
      apply_constraints e3 = Inr (Kc, Fc) \<and>
      sp Kc Fc = Inr u \<and> K_global e3 = Some K \<and> F_global e3 = Some F \<and>
      length u = length K \<and>
      np_binop (-) (mat_vec K u) F = Inr r \<and>
      e' = e3\<lparr>displacements := Some u, reactions := Some r, element_forces := ef\<rparr> \<and>
      st_displacements p = u"
  using assms unfolding solve_static_def
  apply (elim bind_exn_InrE)
  apply (simp only: split: prod.splits)
  apply (simp only: sum.inject catch_eq_Success)
  apply (elim bind_exn_InrE)
  apply (drule calculate_element_forces_Inr)
  apply (simp only: attr_Inr np_matvec_Inr sum.inject result.inject)
  apply (elim exE conjE)
  apply hypsubst
  apply (intro exI conjI)
           apply (rule refl | assumption | simp)+
  done

subsection \<open>The axial truss scenario\<close>

lemmas engine_defs = axial_truss_def add_node_def add_material_def add_section_def
  add_element_def add_load_def add_constraint_def new_engine_def

lemma setup_truss: "setup_dof_mapping (axial_truss mask_translations) = truss_numbered"
  by (simp add: setup_dof_mapping_def engine_defs dof_node_def dof_slot_def
      mask_translations_def truss_numbered_def)

lemma zeros_mat_6:
  "zeros_mat 6 6 = [[0, 0, 0, 0, 0, 0], [0, 0, 0, 0, 0, 0], [0, 0, 0, 0, 0, 0],
                    [0, 0, 0, 0, 0, 0], [0, 0, 0, 0, 0, 0], [0, 0, 0, 0, 0, 0]]"
  by (simp add: zeros_mat_def eval_nat_numeral)

lemma bar_stiffness:
  "dof_map (e :: FEMEngine) = dm \<Longrightarrow> nodes e = nodes (axial_truss msk) \<Longrightarrow>
   materials e = materials (axial_truss msk) \<Longrightarrow> sections e = sections (axial_truss msk) \<Longrightarrow>
   truss_stiffness e bar_element =
     bind_exn (element_dofs dm [0, 1]) (\<lambda>dofs. Inr (k_bar, dofs))"
  by (simp add: truss_stiffness_def engine_defs bar_element_def index_at_def lookup_def
      lookup_section_def steel_def bar_section_def Let_def assign_all_def zeros_mat_6
      mat_set_def mat_scale_def mat_mul_def mat_T_def dot_def k_bar_def)

lemma truss_numbered_stiffness:
  "get_element_stiffness_matrix truss_numbered bar_element =
     Inr (k_bar, [0, 1, 2, - 1, - 1, - 1, 3, 4, 5, - 1, - 1, - 1])"
  "get_element_stiffness_matrix (truss_assembled\<lparr>displacements := d, reactions := r\<rparr>) bar_element =
     Inr (k_bar, [0, 1, 2, - 1, - 1, - 1, 3, 4, 5, - 1, - 1, - 1])"
  by (simp_all add: get_element_stiffness_matrix_def bar_element_def[THEN arg_cong, of Element_type]
      bar_stiffness[where msk = mask_translations] truss_numbered_def truss_assembled_def lookup_def)

lemma truss_numbered_fields:
  "elements truss_numbered = [(1, bar_element)]"
  "loads truss_numbered = [tip_load]"
  "constraints truss_numbered = [support_0, support_1]"
  "total_dofs truss_numbered = 6"
  "dof_map truss_numbered = [(0, [0, 1, 2, - 1, - 1, - 1]), (1, [3, 4, 5, - 1, - 1, - 1])]"
  "element_forces truss_numbered = []"
  by (simp_all add: truss_numbered_def engine_defs bar_element_def)

lemma truss_assembled_fields:
  "elements (truss_assembled\<lparr>displacements := d, reactions := r\<rparr>) = [(1, bar_element)]"
  "constraints truss_assembled = [support_0, support_1]"
  "total_dofs truss_assembled = 6"
  "dof_map truss_assembled = [(0, [0, 1, 2, - 1, - 1, - 1]), (1, [3, 4, 5, - 1, - 1, - 1])]"
  "element_forces (truss_assembled\<lparr>displacements := d, reactions := r\<rparr>) = []"
  "K_global truss_assembled = Some k_bar"
  "F_global truss_assembled = Some f_bar"
  by (simp_all add: truss_assembled_def truss_numbered_fields)

lemma assemble_element_bar:
  "assemble_element truss_numbered (zeros_mat 6 6) bar_element = Inr k_bar"
  by (simp add: assemble_element_def truss_numbered_stiffness active_of_def csr_matrix_def
      truss_numbered_fields k_bar_def zeros_mat_def mat_set_def mat_add_def eval_nat_numeral)

lemma assemble_truss:
  "assemble_global_stiffness truss_numbered = Inr (truss_numbered\<lparr>K_global := Some k_bar\<rparr>)"
  by (simp add: assemble_global_stiffness_def truss_numbered_fields assemble_element_bar)

lemma force_truss:
  "assemble_global_force (truss_numbered\<lparr>K_global := Some k_bar\<rparr>) = Inr truss_assembled"
  by (simp add: assemble_global_force_def truss_numbered_fields truss_assembled_def
      tip_load_def force_load_def force_slot_def lookup_def add_at_def zeros_def f_bar_def
      eval_nat_numeral)

lemma constraints_truss:
  "apply_constraints_to truss_assembled k_bar [a, b, c, d, e, f] = Inr (kc_bar, [a, b, c, d, e, f])"
  by (simp add: apply_constraints_to_def truss_assembled_fields constrain_node_eq
      constrain_slot_eq enumerate_zip_def support_0_def support_1_def penalty_def
      k_bar_def kc_bar_def mat_set_def eval_nat_numeral)

lemma apply_constraints_truss: "apply_constraints truss_assembled = Inr (kc_bar, f_bar)"
  by (simp add: apply_constraints_def truss_assembled_fields attr_def
      constraints_truss[of 0 0 0 100000 0 0, folded f_bar_def])

lemma solve_static_truss:
  "solve_static sp (axial_truss mask_translations) =
     Inr (catch (
       bind_exn (sp kc_bar f_bar) (\<lambda>u.
       bind_exn (np_matvec k_bar u) (\<lambda>Ku.
       bind_exn (np_binop (-) Ku f_bar) (\<lambda>r.
       bind_exn (calculate_element_forces
                   (truss_assembled\<lparr>displacements := Some u, reactions := Some r\<rparr>)) (\<lambda>e4.
       bind_exn (max_abs u) (\<lambda>m.
         Inr (Success \<lparr>st_displacements = u, st_max_displacement = m,
                        st_total_dofs = total_dofs e4\<rparr> e4))))))))"
  by (simp add: solve_static_def setup_truss assemble_truss force_truss apply_constraints_truss
      truss_assembled_fields attr_def)

lemma direct_solve_exact: "exact_solver direct_solve"
  unfolding exact_solver_def direct_solve_def
  by (auto simp: Let_def split: if_splits option.splits)

lemma list_6:
  assumes "length (u :: 'a list) = 6"
  obtains a b c d e f where "u = [a, b, c, d, e, f]"
  using assms by (auto simp: eval_nat_numeral length_Suc_conv)

lemma kc_bar_solution:
  assumes "length u = 6" and "mat_vec kc_bar u = f_bar"
  shows "u = u_bar"
proof -
  from assms(1) obtain a b c d e f where u: "u = [a, b, c, d, e, f]" by (rule list_6)
  from assms(2) have
    "1002000000000 * a - 2000000000 * d = 0" "1000000000000 * b = 0" "1000000000000 * c = 0"
    "2000000000 * d - 2000000000 * a = 100000" "1000000000000 * e = 0" "1000000000000 * f = 0"
    by (simp_all add: u mat_vec_def dot_def kc_bar_def f_bar_def)
  then have "a = 1 / 10000000" "b = 0" "c = 0" "d = 501 / 10000000" "e = 0" "f = 0"
    by simp_all
  then show ?thesis by (simp add: u u_bar_def)
qed

lemma truss_forces:
  "calculate_element_forces
     (truss_assembled\<lparr>displacements := Some u_bar, reactions := Some [- 100000, 0, 0, 0, 0, 0]\<rparr>)
   = Inr truss_solved"
  by (simp add: calculate_element_forces_def attr_def truss_assembled_fields element_force_def
      truss_numbered_stiffness active_of_def gather_def np_matvec_def mat_vec_def dot_def
      u_bar_def k_bar_def truss_solved_def bar_element_def[THEN arg_cong, of Element_id])

lemma solve_static_truss_exact:
  assumes "exact_solver sp"
  shows "solve_static sp (axial_truss mask_translations) =
     (case sp kc_bar f_bar of
        Inl ex \<Rightarrow> Inr (Failure (Failed ex))
      | Inr u \<Rightarrow> Inr (Success \<lparr>st_displacements = u_bar, st_max_displacement = 501 / 10000000,
                                 st_total_dofs = 6\<rparr> truss_solved))"
proof (cases "sp kc_bar f_bar")
  case (Inl ex)
  then show ?thesis by (simp add: solve_static_truss catch_def)
next
  case (Inr u)
  with assms have "length u = 6" "mat_vec kc_bar u = f_bar"
    by (auto simp: exact_solver_def f_bar_def)
  then have u: "u = u_bar" by (rule kc_bar_solution)
  have Ku: "np_matvec k_bar u_bar = Inr [- 100000, 0, 0, 100000, 0, 0]"
    by (simp add: np_matvec_def mat_vec_def dot_def k_bar_def u_bar_def)
  have r: "np_binop (-) [- 100000, 0, 0, 100000, 0, 0] f_bar = Inr [- 100000, 0, 0, 0, 0, 0]"
    by (simp add: np_binop_def f_bar_def)
  have m: "max_abs u_bar = Inr (501 / 10000000)"
    by (simp add: max_abs_def u_bar_def)
  have t: "total_dofs truss_solved = 6"
    by (simp add: truss_solved_def truss_assembled_fields truss_assembled_def truss_numbered_fields)
  show ?thesis
    by (simp add: solve_static_truss Inr u Ku r truss_forces m t catch_def)
qed

lemma solve_static_truss_direct:
  "solve_static direct_solve (axial_truss mask_translations) =
     Inr (Success \<lparr>st_displacements = u_bar, st_max_displacement = 501 / 10000000,
                    st_total_dofs = 6\<rparr> truss_solved)"
  by (simp add: solve_static_truss_exact[OF direct_solve_exact] direct_solve_bar)

lemma setup_truss_all:
  "setup_dof_mapping (axial_truss mask_all) =
     (axial_truss mask_all)\<lparr>dof_map := [(0, [0, 1, 2, 3, 4, 5]), (1, [6, 7, 8, 9, 10, 11])],
        total_dofs := 12\<rparr>"
  by (simp add: setup_dof_mapping_def engine_defs dof_node_def dof_slot_def mask_all_def)

lemma solve_static_default_masks: "solve_static sp (axial_truss mask_all) = Inl ValueError"
proof -
  let ?e = "setup_dof_mapping (axial_truss mask_all)"
  have k: "get_element_stiffness_matrix ?e bar_element =
      Inr (k_bar, [0, 1, 2, 3, 4, 5, 6, 7, 8, 9, 10, 11])"
    unfolding setup_truss_all
    by (simp add: get_element_stiffness_matrix_def bar_element_def[THEN arg_cong, of Element_type]
        bar_stiffness[where msk = mask_all] lookup_def)
  have "assemble_element ?e K bar_element = Inl ValueError" for K
    by (simp add: assemble_element_def k active_of_def csr_matrix_def k_bar_def)
  moreover have "elements ?e = [(1, bar_element)]"
    unfolding setup_truss_all by (simp add: engine_defs bar_element_def)
  ultimately have "assemble_global_stiffness ?e = Inl ValueError"
    by (simp add: assemble_global_stiffness_def)
  then show ?thesis by (simp add: solve_static_def)
qed

text \<open>
  Claim C2 fails on \<open>solve_static\<close>: its DOF map, assembly and constraint application
  stand before the \<open>try\<close>, so the KeyError of a dangling material reference leaves the
  call. (The four operations of solvers.py and \<open>solve_modal\<close> have their whole body
  inside the \<open>try\<close>; in the model their type has no exception.)
\<close>

theorem solve_static_raises_on_dangling_material:
  "solve_static sp dangling_material = Inl KeyError"
proof -
  let ?e = "setup_dof_mapping dangling_material"
  have "truss_stiffness ?e bar_element = Inl KeyError"
    by (simp add: truss_stiffness_def setup_dof_mapping_def dangling_material_def add_node_def
        add_element_def new_engine_def bar_element_def index_at_def lookup_def
        split: prod.splits)
  then have "assemble_element ?e K bar_element = Inl KeyError" for K
    by (simp add: assemble_element_def get_element_stiffness_matrix_def
        bar_element_def[THEN arg_cong, of Element_type])
  moreover have "elements ?e = [(1, bar_element)]"
    by (simp add: setup_dof_mapping_def dangling_material_def add_node_def
        add_element_def new_engine_def bar_element_def split: prod.splits)
  ultimately have "assemble_global_stiffness ?e = Inl KeyError"
    by (simp add: assemble_global_stiffness_def)
  then show ?thesis by (simp add: solve_static_def)
qed

text \<open>
  Claim C1 fails on the code. In the axial truss scenario as stated both nodes keep the
  default mask with all six DOFs active (the rotations are held by constraints, not
  masked), so the twelve DOF numbers of the element are all active, while
  \<open>_truss_stiffness\<close> returns a 6 by 6 matrix (three DOFs per node, against its comment
  ``Expand local stiffness to 6 DOF per node''). \<open>csr_matrix\<close> then receives 36 values for
  144 index pairs and raises ValueError in \<open>_assemble_global_stiffness\<close>, which
  \<open>solve_static\<close> runs before its \<open>try\<close>: for every linear solver the call raises instead
  of succeeding with \<open>u_x = 5e-5\<close> and \<open>r_x = -1e5\<close>.
\<close>

theorem axial_truss_default_masks_raise:
  "solve_static sp (axial_truss mask_all) = Inl ValueError"
  by (rule solve_static_default_masks)

text \<open>
  The same bar with the rotational DOFs of both nodes masked off, an input on which the
  6 by 6 matrix fits the six active DOFs. With a linear solver that is exact,
  \<open>solve_static\<close> fails only with the solver's own failure on the penalised system;
  otherwise it succeeds, \<open>u_x\<close> of node 1 (global DOF 3) is \<open>PL/(EA) + P/penalty = 5.01e-5\<close>
  and the stored reaction \<open>r_x\<close> at node 0 (global DOF 0) is \<open>-1e5\<close>.
\<close>

lemma masked_truss_penalty_solution:
  assumes "exact_solver sp"
  shows "case sp kc_bar f_bar of
           Inl ex \<Rightarrow>
             solve_static sp (axial_truss mask_translations) = Inr (Failure (Failed ex))
         | Inr u \<Rightarrow>
             (\<exists>p e'. solve_static sp (axial_truss mask_translations) = Inr (Success p e') \<and>
                st_displacements p ! 3 = 5 / 100000 + 100000 / penalty \<and>
                \<bar>st_displacements p ! 3 - 5 / 100000\<bar> = 1 / 10000000 \<and>
                (\<exists>r. reactions e' = Some r \<and> r ! 0 = - 100000))"
  by (simp add: solve_static_truss_exact[OF assms] u_bar_def penalty_def truss_solved_def
      split: sum.splits)

lemma masked_truss_penalty_solution_direct:
  "\<exists>p e'. solve_static direct_solve (axial_truss mask_translations) = Inr (Success p e') \<and>
      st_displacements p ! 3 = 501 / 10000000 \<and>
      (\<exists>r. reactions e' = Some r \<and> r ! 0 = - 100000)"
  using masked_truss_penalty_solution[OF direct_solve_exact]
  by (auto simp: direct_solve_bar penalty_def)

subsection \<open>Penalty constraints and reactions\<close>

lemma apply_constraints_ref_eq:
  "apply_constraints_ref dm cs s kr fr =
     bind_exn (fold_exn (constrain_node dm) (mat_at s kr, vec_at s fr) cs) (\<lambda>KF'.
       Inr (put (s\<lparr>next_ref := Suc (Suc (next_ref s))\<rparr>) (next_ref s) (Suc (next_ref s)) KF',
            next_ref s, Suc (next_ref s)))"
proof -
  have "apply_constraints_ref dm cs s kr fr =
      bind_exn (fold_exn (constrain_node_ref dm (next_ref s) (Suc (next_ref s)))
                  (put (s\<lparr>next_ref := Suc (Suc (next_ref s))\<rparr>) (next_ref s) (Suc (next_ref s))
                     (mat_at s kr, vec_at s fr)) cs)
        (\<lambda>s3. Inr (s3, next_ref s, Suc (next_ref s)))"
    by (cases s) (simp add: apply_constraints_ref_def copy_mat_def copy_vec_def put_def)
  then show ?thesis
    by (cases "fold_exn (constrain_node dm) (mat_at s kr, vec_at s fr) cs")
       (simp_all add: constrain_nodes_ref_put)
qed

text \<open>
  Claim C4. Whenever \<open>solve_static\<close> succeeds: the constrained system \<open>(Kc, Fc)\<close> it
  solves is the assembled \<open>(K, F)\<close> with the penalty added to \<open>K[d,d]\<close> and the penalty
  times the prescribed value added to \<open>F[d]\<close>, once for every constrained slot of every
  constraint that maps to an active DOF \<open>d\<close>; run on object references,
  \<open>_apply_constraints\<close> leaves the objects of \<open>K_global\<close> and \<open>F_global\<close> as they were
  and returns new objects holding \<open>Kc\<close> and \<open>Fc\<close>; after the solve the engine still
  stores the assembled \<open>K\<close> and \<open>F\<close>, and its reactions are \<open>K u - F\<close> with that \<open>K\<close>.
\<close>

theorem penalty_constraints_and_reactions:
  assumes "solve_static sp e = Inr (Success p e')"
  shows "\<exists>e3 K F Kc Fc u.
     bind_exn (assemble_global_stiffness (setup_dof_mapping e)) assemble_global_force = Inr e3 \<and>
     K_global e3 = Some K \<and> F_global e3 = Some F \<and>
     apply_constraints e3 = Inr (Kc, Fc) \<and>
     square (total_dofs e3) Kc \<and> length Fc = total_dofs e3 \<and>
     (\<forall>i < total_dofs e3. \<forall>j < total_dofs e3.
        Kc ! i ! j = K ! i ! j +
          (if i = j
           then penalty * real (hits (constraint_entries (dof_map e3) (constraints e3)) i)
           else 0)) \<and>
     (\<forall>d < total_dofs e3.
        Fc ! d = F ! d + penalty * total_at (constraint_entries (dof_map e3) (constraints e3)) d) \<and>
     (\<forall>s kr fr. kr < next_ref s \<and> fr < next_ref s \<and> mat_at s kr = K \<and> vec_at s fr = F \<longrightarrow>
        (\<exists>s' kc fc.
           apply_constraints_ref (dof_map e3) (constraints e3) s kr fr = Inr (s', kc, fc) \<and>
           mat_at s' kr = K \<and> vec_at s' fr = F \<and> mat_at s' kc = Kc \<and> vec_at s' fc = Fc)) \<and>
     sp Kc Fc = Inr u \<and>
     K_global e' = Some K \<and> F_global e' = Some F \<and> displacements e' = Some u \<and>
     reactions e' = Some (vec_sub (mat_vec K u) F)"
proof -
  from solve_static_Success[OF assms] obtain e2 e3 Kc Fc u K F r ef where
    e2: "assemble_global_stiffness (setup_dof_mapping e) = Inr e2" and
    e3: "assemble_global_force e2 = Inr e3" and
    ac: "apply_constraints e3 = Inr (Kc, Fc)" and
    u: "sp Kc Fc = Inr u" and K: "K_global e3 = Some K" and F: "F_global e3 = Some F" and
    lu: "length u = length K" and r: "np_binop (-) (mat_vec K u) F = Inr r" and
    e': "e' = e3\<lparr>displacements := Some u, reactions := Some r, element_forces := ef\<rparr>"
    by blast
  let ?N = "total_dofs e3"
  let ?es = "constraint_entries (dof_map e3) (constraints e3)"
  from assemble_global_stiffness_Inr[OF e2] obtain K2 where
    K2: "e2 = (setup_dof_mapping e)\<lparr>K_global := Some K2\<rparr>"
        "square (total_dofs (setup_dof_mapping e)) K2"
    by blast
  from assemble_global_force_Inr[OF e3] obtain F3 where
    F3: "e3 = e2\<lparr>F_global := Some F3\<rparr>" "length F3 = total_dofs e2"
    by blast
  from K F K2 F3 have sq: "square ?N K" and lF: "length F = ?N"
    by simp_all
  from apply_constraints_Inr[OF ac] K F have
    Kc: "Kc = pen_K K ?es" and Fc: "Fc = pen_F F ?es"
    by simp_all
  have fold: "fold_exn (constrain_node (dof_map e3)) (K, F) (constraints e3) = Inr (Kc, Fc)"
    using ac K F by (simp add: apply_constraints_def apply_constraints_to_def attr_def)
  have top: "bind_exn (assemble_global_stiffness (setup_dof_mapping e)) assemble_global_force
      = Inr e3"
    by (simp add: e2 e3)
  have shape: "square ?N Kc" "length Fc = ?N"
    by (simp_all add: Kc Fc square_pen_K sq lF)
  have Kij: "\<forall>i < ?N. \<forall>j < ?N.
      Kc ! i ! j = K ! i ! j + (if i = j then penalty * real (hits ?es i) else 0)"
    using pen_K_nth[OF sq] by (simp add: Kc)
  have Fd: "\<forall>d < ?N. Fc ! d = F ! d + penalty * total_at ?es d"
    using pen_F_nth[of _ F ?es] by (simp add: Fc lF)
  have ref: "\<forall>s kr fr. kr < next_ref s \<and> fr < next_ref s \<and> mat_at s kr = K \<and> vec_at s fr = F \<longrightarrow>
      (\<exists>s' kc fc.
         apply_constraints_ref (dof_map e3) (constraints e3) s kr fr = Inr (s', kc, fc) \<and>
         mat_at s' kr = K \<and> vec_at s' fr = F \<and> mat_at s' kc = Kc \<and> vec_at s' fc = Fc)"
    by (auto simp: apply_constraints_ref_eq fold put_def)
  have "length (mat_vec K u) = length F"
    using sq lF by (simp add: square_def)
  with r have r': "r = vec_sub (mat_vec K u) F"
    by (simp add: np_binop_same vec_sub_def)
  have after: "K_global e' = Some K" "F_global e' = Some F" "displacements e' = Some u"
    "reactions e' = Some (vec_sub (mat_vec K u) F)"
    by (simp_all add: e' K F r')
  from top K F ac shape Kij Fd ref u after show ?thesis
    by blast
qed

theorem penalty_constraints_and_reactions_witness:
  "\<exists>e'. solve_static direct_solve (axial_truss mask_translations) =
           Inr (Success \<lparr>st_displacements = u_bar, st_max_displacement = 501 / 10000000,
                          st_total_dofs = 6\<rparr> e') \<and>
         K_global e' = Some k_bar \<and> F_global e' = Some f_bar \<and>
         reactions e' = Some (vec_sub (mat_vec k_bar u_bar) f_bar)"
proof -
  from penalty_constraints_and_reactions[OF solve_static_truss_direct]
  obtain K F u where
    "K_global truss_solved = Some K" "F_global truss_solved = Some F"
    "displacements truss_solved = Some u"
    "reactions truss_solved = Some (vec_sub (mat_vec K u) F)"
    by blast
  moreover have "K_global truss_solved = Some k_bar" "F_global truss_solved = Some f_bar"
    "displacements truss_solved = Some u_bar"
    by (simp_all add: truss_solved_def truss_assembled_fields truss_assembled_def)
  ultimately have "reactions truss_solved = Some (vec_sub (mat_vec k_bar u_bar) f_bar)"
    by simp
  with solve_static_truss_direct show ?thesis
    by (simp add: truss_solved_def truss_assembled_fields truss_assembled_def)
qed

subsection \<open>Newmark integration\<close>

lemma fold_exn_append:
  "fold_exn f s (xs @ ys) = bind_exn (fold_exn f s xs) (\<lambda>s'. fold_exn f s' ys)"
  by (induction xs arbitrary: s) (simp_all add: bind_exn_def split: sum.splits)

lemma force_at_Inr:
  "force_at fh i = Inr F \<longleftrightarrow> fh \<noteq> [] \<and> F = fh ! min i (length fh - 1)"
  by (auto simp: force_at_def)

lemma np_binop_Inr_same:
  "length a = length b \<Longrightarrow> np_binop f a b = Inr c \<longleftrightarrow> c = map2 f a b"
  by (auto simp: np_binop_def)

lemma np_set_row_Inr_same:
  "length x = n \<Longrightarrow> np_set_row H n i x = Inr H' \<longleftrightarrow> i < length H \<and> H' = H[i := x]"
  by (auto simp: np_set_row_def)

lemma rows_of_width_nth: "rows_of_width n H \<Longrightarrow> i < length H \<Longrightarrow> length (H ! i) = n"
  by (simp add: rows_of_width_def list_all_length)

lemma rows_of_width_update:
  "rows_of_width n H \<Longrightarrow> length x = n \<Longrightarrow> rows_of_width n (H[i := x])"
  by (cases "i < length H") (auto simp: rows_of_width_def list_all_length nth_list_update)

lemma newmark_step_Inr:
  assumes step: "newmark_step sp M C K_eff c dt gamma N fh (uh, vh, ah) i = Inr (uh', vh', ah')"
    and sp: "exact_solver sp"
    and i: "i < length uh" "length vh = length uh" "length ah = length uh"
    and w: "rows_of_width N uh" "rows_of_width N vh" "rows_of_width N ah" "rows_of_width N fh"
  shows "\<exists>u_next.
      sp K_eff (effective_force c M C (fh ! min (i + 1) (length fh - 1)) (uh ! i) (vh ! i) (ah ! i))
        = Inr u_next \<and>
      length u_next = N \<and> i + 1 < length uh \<and>
      uh' = uh[i + 1 := u_next] \<and>
      ah' = ah[i + 1 := next_acceleration c u_next (uh ! i) (vh ! i) (ah ! i)] \<and>
      vh' = vh[i + 1 := next_velocity dt gamma (vh ! i) (ah ! i)
                          (next_acceleration c u_next (uh ! i) (vh ! i) (ah ! i))]"
proof -
  have l: "length (uh ! i) = N" "length (vh ! i) = N" "length (ah ! i) = N"
    using i w by (simp_all add: rows_of_width_nth)
  from step obtain F_next Mx FM Cx F_eff u_next du t1 a_next t2 v_next where
    F_next: "force_at fh (i + 1) = Inr F_next" and
    Mx: "np_matvec M (vec_add (vec_add (vec_scale (a0 c) (uh ! i)) (vec_scale (a2 c) (vh ! i)))
                              (vec_scale (a3 c) (ah ! i))) = Inr Mx" and
    FM: "np_binop (+) F_next Mx = Inr FM" and
    Cx: "np_matvec C (vec_add (vec_add (vec_scale (a1 c) (uh ! i)) (vec_scale (a4 c) (vh ! i)))
                              (vec_scale (a5 c) (ah ! i))) = Inr Cx" and
    F_eff: "np_binop (+) FM Cx = Inr F_eff" and
    u_next: "sp K_eff F_eff = Inr u_next" and
    du: "np_binop (-) u_next (uh ! i) = Inr du" and
    t1: "np_binop (-) (vec_scale (a0 c) du) (vec_scale (a2 c) (vh ! i)) = Inr t1" and
    a_next: "np_binop (-) t1 (vec_scale (a3 c) (ah ! i)) = Inr a_next" and
    t2: "np_binop (+) (vec_scale (1 - gamma) (ah ! i)) (vec_scale gamma a_next) = Inr t2" and
    v_next: "np_binop (+) (vh ! i) (vec_scale dt t2) = Inr v_next" and
    uh': "np_set_row uh N (i + 1) u_next = Inr uh'" and
    vh': "np_set_row vh N (i + 1) v_next = Inr vh'" and
    ah': "np_set_row ah N (i + 1) a_next = Inr ah'"
    unfolding newmark_step_def prod.case Let_def
    by (elim bind_exn_InrE) auto
  from F_next have fh: "fh \<noteq> []" and F_next': "F_next = fh ! min (i + 1) (length fh - 1)"
    by (simp_all add: force_at_Inr)
  from fh have "min (i + 1) (length fh - 1) < length fh"
    by (cases fh) simp_all
  with w(4) F_next' have lF: "length F_next = N"
    by (simp add: rows_of_width_nth)
  from Mx have lM: "length M = N" and Mx': "Mx = mat_vec M (vec_add (vec_add (vec_scale (a0 c) (uh ! i))
        (vec_scale (a2 c) (vh ! i))) (vec_scale (a3 c) (ah ! i)))"
    by (simp_all add: np_matvec_Inr l)
  from Cx have lC: "length C = N" and Cx': "Cx = mat_vec C (vec_add (vec_add (vec_scale (a1 c) (uh ! i))
        (vec_scale (a4 c) (vh ! i))) (vec_scale (a5 c) (ah ! i)))"
    by (simp_all add: np_matvec_Inr l)
  from FM have FM': "FM = vec_add F_next Mx"
    by (simp add: np_binop_Inr_same lF Mx' lM vec_add_def)
  from F_eff have F_eff': "F_eff = vec_add FM Cx"
    by (simp add: np_binop_Inr_same FM' lF Mx' lM Cx' lC vec_add_def)
  have lFe: "length F_eff = N"
    by (simp add: F_eff' FM' lF Mx' lM Cx' lC)
  from sp u_next lFe have lu: "length u_next = N"
    by (auto simp: exact_solver_def)
  from du have du': "du = vec_sub u_next (uh ! i)"
    by (simp add: np_binop_Inr_same lu l vec_sub_def)
  from t1 have t1': "t1 = vec_sub (vec_scale (a0 c) du) (vec_scale (a2 c) (vh ! i))"
    by (simp add: np_binop_Inr_same du' lu l vec_sub_def)
  from a_next have a_next': "a_next = next_acceleration c u_next (uh ! i) (vh ! i) (ah ! i)"
    by (simp add: np_binop_Inr_same t1' du' lu l vec_sub_def next_acceleration_def)
  have la: "length a_next = N"
    by (simp add: a_next' next_acceleration_def lu l)
  from t2 have t2': "t2 = vec_add (vec_scale (1 - gamma) (ah ! i)) (vec_scale gamma a_next)"
    by (simp add: np_binop_Inr_same la l vec_add_def)
  from v_next have v_next': "v_next = next_velocity dt gamma (vh ! i) (ah ! i) a_next"
    by (simp add: np_binop_Inr_same t2' la l vec_add_def next_velocity_def)
  have lv: "length v_next = N"
    by (simp add: v_next' next_velocity_def la l)
  from uh' vh' ah' have "i + 1 < length uh" "uh' = uh[i + 1 := u_next]"
    "vh' = vh[i + 1 := v_next]" "ah' = ah[i + 1 := a_next]"
    by (simp_all add: np_set_row_Inr_same lu lv la)
  moreover have "F_eff = effective_force c M C (fh ! min (i + 1) (length fh - 1))
      (uh ! i) (vh ! i) (ah ! i)"
    by (simp add: F_eff' FM' Mx' Cx' F_next' effective_force_def)
  ultimately show ?thesis
    using u_next lu a_next' v_next' by blast
qed

lemma newmark_loop:
  assumes sp: "exact_solver sp" and w: "rows_of_width N fh"
  shows "fold_exn (newmark_step sp M C K_eff c dt gamma N fh) (uh, vh, ah) [0..<k]
           = Inr (uh', vh', ah') \<Longrightarrow>
     length vh = length uh \<Longrightarrow> length ah = length uh \<Longrightarrow>
     rows_of_width N uh \<Longrightarrow> rows_of_width N vh \<Longrightarrow> rows_of_width N ah \<Longrightarrow> 0 < length uh \<Longrightarrow>
     length uh' = length uh \<and> length vh' = length uh \<and> length ah' = length uh \<and>
     rows_of_width N uh' \<and> rows_of_width N vh' \<and> rows_of_width N ah' \<and>
     k < length uh \<and>
     (\<forall>i < k. newmark_holds sp c dt gamma K_eff M C fh (uh', vh', ah') i) \<and>
     uh' ! 0 = uh ! 0 \<and> vh' ! 0 = vh ! 0 \<and> ah' ! 0 = ah ! 0"
proof (induction k arbitrary: uh' vh' ah')
  case 0
  then show ?case by simp
next
  case (Suc k)
  from Suc.prems(1) obtain h1 where
    h1: "fold_exn (newmark_step sp M C K_eff c dt gamma N fh) (uh, vh, ah) [0..<k] = Inr h1" and
    st: "newmark_step sp M C K_eff c dt gamma N fh h1 k = Inr (uh', vh', ah')"
    by (auto simp: fold_exn_append bind_exn_eq_Inr)
  obtain uh1 vh1 ah1 where h1': "h1 = (uh1, vh1, ah1)" by (cases h1)
  from Suc.IH[OF h1[unfolded h1'] Suc.prems(2-)] have
    len: "length uh1 = length uh" "length vh1 = length uh" "length ah1 = length uh" and
    wid: "rows_of_width N uh1" "rows_of_width N vh1" "rows_of_width N ah1" and
    k: "k < length uh" and
    old: "\<forall>i < k. newmark_holds sp c dt gamma K_eff M C fh (uh1, vh1, ah1) i" and
    first: "uh1 ! 0 = uh ! 0" "vh1 ! 0 = vh ! 0" "ah1 ! 0 = ah ! 0"
    by simp_all
  from newmark_step_Inr[OF st[unfolded h1'] sp _ _ _ wid w] k len
  obtain u_next where
    u_next: "sp K_eff (effective_force c M C (fh ! min (k + 1) (length fh - 1))
               (uh1 ! k) (vh1 ! k) (ah1 ! k)) = Inr u_next" and
    lu: "length u_next = N" and k1: "k + 1 < length uh1" and
    uh': "uh' = uh1[k + 1 := u_next]" and
    ah': "ah' = ah1[k + 1 := next_acceleration c u_next (uh1 ! k) (vh1 ! k) (ah1 ! k)]" and
    vh': "vh' = vh1[k + 1 := next_velocity dt gamma (vh1 ! k) (ah1 ! k)
                          (next_acceleration c u_next (uh1 ! k) (vh1 ! k) (ah1 ! k))]"
    by auto
  have la: "length (next_acceleration c u_next (uh1 ! k) (vh1 ! k) (ah1 ! k)) = N"
    using lu wid k len by (simp add: next_acceleration_def rows_of_width_nth)
  have lv: "length (next_velocity dt gamma (vh1 ! k) (ah1 ! k)
                          (next_acceleration c u_next (uh1 ! k) (vh1 ! k) (ah1 ! k))) = N"
    using la wid k len by (simp add: next_velocity_def rows_of_width_nth)
  have new: "newmark_holds sp c dt gamma K_eff M C fh (uh', vh', ah') i" if "i < Suc k" for i
  proof (cases "i = k")
    case True
    with u_next k1 len show ?thesis
      by (simp add: newmark_holds_def uh' ah' vh')
  next
    case False
    with that have "i < k" by simp
    with old k1 len show ?thesis
      by (simp add: newmark_holds_def uh' ah' vh')
  qed
  from len wid k1 first lu la lv new show ?case
    by (simp add: uh' ah' vh' rows_of_width_update)
qed

lemma newmark_parameters_Inr:
  "newmark_parameters dt beta gamma = Inr c \<longleftrightarrow>
     beta * dt\<^sup>2 \<noteq> 0 \<and> c = spec_constants dt beta gamma"
  by (auto simp: newmark_parameters_def spec_constants_def)

text \<open>
  Claim C9. When the Newmark integration succeeds on histories of \<open>n + 1\<close> rows of width
  \<open>N\<close> and a force history of rows of width \<open>N\<close>, with an exact linear solver:
  \<open>beta dt\<^sup>2\<close> is not zero, and for every step \<open>i < n\<close> the rows it leaves satisfy the
  scheme with the specification's constants and the one effective stiffness
  \<open>K + a0 M + a1 C\<close>: row \<open>i + 1\<close> of the displacements is what the solver returns for the
  effective force built from rows \<open>i\<close> and the force row \<open>min (i + 1) (len - 1)\<close>, and solves
  that system; rows \<open>i + 1\<close> of the accelerations and velocities are the two updates.
  Rows \<open>0\<close> are the initial conditions.
\<close>

theorem newmark_recurrence:
  assumes "newmark_integration sp K M N (uh, vh, ah) fh C dt beta gamma = Inr (uh', vh', ah')"
    and "exact_solver sp"
    and "0 < length uh" "length vh = length uh" "length ah = length uh"
    and "rows_of_width N uh" "rows_of_width N vh" "rows_of_width N ah" "rows_of_width N fh"
  shows "beta * dt\<^sup>2 \<noteq> 0 \<and>
     (\<forall>i < length uh - 1.
        sp (effective_stiffness (spec_constants dt beta gamma) K M C)
           (effective_force (spec_constants dt beta gamma) M C
              (fh ! min (i + 1) (length fh - 1)) (uh' ! i) (vh' ! i) (ah' ! i))
          = Inr (uh' ! (i + 1)) \<and>
        mat_vec (effective_stiffness (spec_constants dt beta gamma) K M C) (uh' ! (i + 1))
          = effective_force (spec_constants dt beta gamma) M C
              (fh ! min (i + 1) (length fh - 1)) (uh' ! i) (vh' ! i) (ah' ! i) \<and>
        ah' ! (i + 1) = next_acceleration (spec_constants dt beta gamma)
                          (uh' ! (i + 1)) (uh' ! i) (vh' ! i) (ah' ! i) \<and>
        vh' ! (i + 1) = next_velocity dt gamma (vh' ! i) (ah' ! i) (ah' ! (i + 1))) \<and>
     uh' ! 0 = uh ! 0 \<and> vh' ! 0 = vh ! 0 \<and> ah' ! 0 = ah ! 0"
proof -
  let ?c = "spec_constants dt beta gamma"
  let ?K = "effective_stiffness ?c K M C"
  from assms(1) have bd: "beta * dt\<^sup>2 \<noteq> 0" and
    f: "fold_exn (newmark_step sp M C ?K ?c dt gamma N fh) (uh, vh, ah) [0..<length uh - 1]
          = Inr (uh', vh', ah')"
    by (auto simp: newmark_integration_def bind_exn_eq_Inr newmark_parameters_Inr Let_def
        effective_stiffness_def split: sum.splits)
  from newmark_loop[OF assms(2) assms(9) f assms(4,5,6,7,8,3)] have
    holds: "\<forall>i < length uh - 1. newmark_holds sp ?c dt gamma ?K M C fh (uh', vh', ah') i" and
    first: "uh' ! 0 = uh ! 0" "vh' ! 0 = vh ! 0" "ah' ! 0 = ah ! 0"
    by simp_all
  have "sp ?K F = Inr u \<Longrightarrow> mat_vec ?K u = F" for F u
    using assms(2) by (simp add: exact_solver_def)
  with holds bd first show ?thesis
    by (simp add: newmark_holds_def)
qed

lemma direct_solve_1: "k \<noteq> 0 \<Longrightarrow> direct_solve [[k]] [f] = Inr [f / k]"
  by (simp add: direct_solve_def Let_def vec_sub_def vec_scale_def mat_vec_def dot_def)

theorem newmark_recurrence_witness:
  "newmark_integration direct_solve [[1]] [[1]] 1 ([[0], [0]], [[0], [0]], [[0], [0]])
     [[0], [5]] [[0]] 1 (1 / 4) (1 / 2) = Inr ([[0], [1]], [[0], [2]], [[0], [4]]) \<and>
   direct_solve (effective_stiffness (spec_constants 1 (1 / 4) (1 / 2)) [[1]] [[1]] [[0]])
     (effective_force (spec_constants 1 (1 / 4) (1 / 2)) [[1]] [[0]] [5] [0] [0] [0]) = Inr [1] \<and>
   next_acceleration (spec_constants 1 (1 / 4) (1 / 2)) [1] [0] [0] [0] = [4] \<and>
   next_velocity 1 (1 / 2) [0] [0] [4] = [2]"
proof -
  have run: "newmark_integration direct_solve [[1]] [[1]] 1 ([[0], [0]], [[0], [0]], [[0], [0]])
     [[0], [5]] [[0]] 1 (1 / 4) (1 / 2) = Inr ([[0], [1]], [[0], [2]], [[0], [4]])"
    by (simp add: newmark_integration_def newmark_parameters_def newmark_step_def force_at_def
        np_matvec_def np_binop_def np_set_row_def mat_vec_def dot_def vec_add_def vec_sub_def
        vec_scale_def mat_add_def mat_scale_def direct_solve_1 Let_def)
  from newmark_recurrence[OF run direct_solve_exact]
  have "\<forall>i < length [[0 :: real], [0]] - 1.
      direct_solve (effective_stiffness (spec_constants 1 (1 / 4) (1 / 2)) [[1]] [[1]] [[0]])
        (effective_force (spec_constants 1 (1 / 4) (1 / 2)) [[1]] [[0]]
           ([[0], [5]] ! min (i + 1) (length [[0 :: real], [5]] - 1))
           ([[0], [1]] ! i) ([[0], [2]] ! i) ([[0], [4]] ! i))
        = Inr ([[0], [1]] ! (i + 1)) \<and>
      [[0], [4]] ! (i + 1) = next_acceleration (spec_constants 1 (1 / 4) (1 / 2))
                          ([[0], [1]] ! (i + 1)) ([[0], [1]] ! i) ([[0], [2]] ! i) ([[0], [4]] ! i) \<and>
      [[0], [2]] ! (i + 1) = next_velocity 1 (1 / 2) ([[0], [2]] ! i) ([[0], [4]] ! i)
                               ([[0], [4]] ! (i + 1))"
    by (simp add: rows_of_width_def)
  then have
    "direct_solve (effective_stiffness (spec_constants 1 (1 / 4) (1 / 2)) [[1]] [[1]] [[0]])
       (effective_force (spec_constants 1 (1 / 4) (1 / 2)) [[1]] [[0]] [5] [0] [0] [0]) = Inr [1]"
    "[4] = next_acceleration (spec_constants 1 (1 / 4) (1 / 2)) [1] [0] [0] [0]"
    "[2] = next_velocity 1 (1 / 2) [0] [0] [4]"
    by simp_all
  with run show ?thesis by simp
qed

subsection \<open>Nonlinear static driver on the axial truss\<close>

lemma norm2_small:
  assumes "norm2 v < c"
  shows "sum_list (map (\<lambda>x. x * x) v) < c\<^sup>2"
proof -
  let ?S = "sum_list (map (\<lambda>x. x * x) v)"
  have S: "0 \<le> ?S" by (induction v) simp_all
  then have "0 \<le> sqrt ?S" by simp
  with assms have "(sqrt ?S)\<^sup>2 < c\<^sup>2"
    unfolding norm2_def by (intro power_strict_mono) simp_all
  with S show ?thesis by simp
qed

lemma bar_residual_large:
  assumes "r0 + r3 = (10000 :: real)"
  shows "\<not> norm2 [r0, r1, r2, r3, r4, r5] < 1 / 1000000"
proof
  assume "norm2 [r0, r1, r2, r3, r4, r5] < 1 / 1000000"
  from norm2_small[OF this] have
    s: "r0 * r0 + (r1 * r1 + (r2 * r2 + (r3 * r3 + (r4 * r4 + r5 * r5)))) < (1 / 1000000)\<^sup>2"
    by simp
  have "0 \<le> r1 * r1" "0 \<le> r2 * r2" "0 \<le> r4 * r4" "0 \<le> r5 * r5" by simp_all
  with s have lt: "r0 * r0 + r3 * r3 < (1 / 1000000)\<^sup>2" by linarith
  have "(r0 + r3) * (r0 + r3) + (r0 - r3) * (r0 - r3) = 2 * (r0 * r0 + r3 * r3)"
    by (simp add: algebra_simps)
  moreover have "0 \<le> (r0 - r3) * (r0 - r3)" by simp
  ultimately have "(r0 + r3) * (r0 + r3) \<le> 2 * (r0 * r0 + r3 * r3)" by linarith
  with assms lt show False by (simp add: power2_eq_square)
qed

lemma newton_bar_never_converges:
  "(\<exists>ex. newton n sp truss_assembled default_NonlinearOptions k_bar
            [0, 0, 0, 10000, 0, 0] u history = Inl ex) \<or>
   (\<exists>f. newton n sp truss_assembled default_NonlinearOptions k_bar
            [0, 0, 0, 10000, 0, 0] u history = Inr (Returned f))"
proof (induction n arbitrary: u history)
  case 0
  show ?case by simp
next
  case (Suc n)
  show ?case
  proof (cases "length u = 6")
    case False
    then show ?thesis
      by (simp add: calculate_internal_force_def np_matvec_def k_bar_def)
  next
    case True
    then obtain a b c d e f where u: "u = [a, b, c, d, e, f]" by (rule list_6)
    let ?r0 = "0 - (2000000000 * a - 2000000000 * d)"
    let ?r3 = "10000 - (2000000000 * d - 2000000000 * a)"
    have internal: "calculate_internal_force k_bar u =
        Inr [2000000000 * a - 2000000000 * d, 0, 0, 2000000000 * d - 2000000000 * a, 0, 0]"
      by (simp add: calculate_internal_force_def np_matvec_def mat_vec_def dot_def k_bar_def u)
    have residual: "np_binop (-) [0, 0, 0, 10000, 0, 0]
        [2000000000 * a - 2000000000 * d, 0, 0, 2000000000 * d - 2000000000 * a, 0, 0] =
        Inr [?r0, 0, 0, ?r3, 0, 0]"
      by (simp add: np_binop_def)
    have large: "\<not> norm2 [?r0, 0, 0, ?r3, 0, 0] < nl_tolerance default_NonlinearOptions"
      using bar_residual_large[of ?r0 ?r3 0 0 0 0]
      by (simp add: default_NonlinearOptions_def)
    have step: "newton (Suc n) sp truss_assembled default_NonlinearOptions k_bar
        [0, 0, 0, 10000, 0, 0] u history =
        (case newton_update sp default_NonlinearOptions k_bar [0, 0, 0, 10000, 0, 0] u
                kc_bar [?r0, 0, 0, ?r3, 0, 0] of
           Inl ex \<Rightarrow> Inr (Returned (SolverFailed ex))
         | Inr u' \<Rightarrow> newton n sp truss_assembled default_NonlinearOptions k_bar
                        [0, 0, 0, 10000, 0, 0] u'
                        (history @ [norm2 [?r0, 0, 0, ?r3, 0, 0]]))"
      using large
      by (simp only: newton.simps update_tangent_stiffness_def Let_def internal residual
          bind_exn_simps constraints_truss prod.case if_False)
    show ?thesis
      unfolding step using Suc.IH by (simp split: sum.splits)
  qed
qed

text \<open>
  Claim C7 fails on the code. In the axial truss scenario (rotations masked off, the
  default options) the residual the driver tests keeps the reaction at the support: at
  the first load step its entries at DOF 0 and DOF 3 add up to the applied 1e4, so its
  norm is never below the tolerance, whatever \<open>spsolve\<close> returns, and the call ends in a
  failure dictionary instead of the linear static solution.
\<close>

theorem solve_nonlinear_static_truss_fails:
  "\<exists>f. solve_nonlinear_static sp (axial_truss mask_translations) default_NonlinearOptions
         = Failure f"
proof -
  have target: "vec_scale (0 + 1 / real_of_int (nl_load_steps default_NonlinearOptions)) f_bar =
      [0, 0, 0, 10000, 0, 0]"
    by (simp add: vec_scale_def f_bar_def default_NonlinearOptions_def)
  have steps: "nat (nl_load_steps default_NonlinearOptions) = Suc 9"
    "nl_load_steps default_NonlinearOptions \<noteq> 0"
    by (simp_all add: default_NonlinearOptions_def)
  let ?inc = "1 / real_of_int (nl_load_steps default_NonlinearOptions)"
  let ?newton = "newton (nat (nl_max_iterations default_NonlinearOptions)) sp truss_assembled
      default_NonlinearOptions k_bar [0, 0, 0, 10000, 0, 0] (zeros 6) []"
  have ls: "load_stepping (Suc 9) sp truss_assembled default_NonlinearOptions k_bar f_bar ?inc
      (zeros 6, 0, [], []) =
      bind_exn ?newton (\<lambda>ex.
        case ex of
          Returned f \<Rightarrow> Inr (Inl f)
        | Converged u' history' \<Rightarrow>
            bind_exn (max_abs u') (\<lambda>max_displacement.
              load_stepping 9 sp truss_assembled default_NonlinearOptions k_bar f_bar ?inc
                (u', 0 + ?inc, history', [] @ [(0 + ?inc, max_displacement)])))"
    by (simp only: load_stepping.simps prod.case Let_def target)
  have "(\<exists>ex. load_stepping (Suc 9) sp truss_assembled default_NonlinearOptions k_bar f_bar
                 ?inc (zeros 6, 0, [], []) = Inl ex) \<or>
        (\<exists>f. load_stepping (Suc 9) sp truss_assembled default_NonlinearOptions k_bar f_bar
                 ?inc (zeros 6, 0, [], []) = Inr (Inl f))"
    using newton_bar_never_converges[of "nat (nl_max_iterations default_NonlinearOptions)" sp
      "zeros 6" "[]"]
    unfolding ls by auto
  then show ?thesis
    by (auto simp: solve_nonlinear_static_def setup_truss assemble_truss force_truss
        truss_assembled_fields attr_def steps catch_def)
qed

subsection \<open>Lumped mass matrix\<close>

lemma add_entries_simps [simp]:
  "add_entries v [] = v"
  "add_entries v (p # es) = add_entries (v[fst p := v ! fst p + snd p]) es"
  "add_entries v (es @ fs) = add_entries (add_entries v es) fs"
  by (simp_all add: add_entries_def)

lemma length_add_entries [simp]: "length (add_entries v es) = length v"
  by (induction es arbitrary: v) simp_all

lemma add_entries_nth:
  "d < length v \<Longrightarrow> add_entries v es ! d = v ! d + total_at es d"
proof (induction es arbitrary: v)
  case Nil
  then show ?case by (simp add: total_at_def)
next
  case (Cons p es)
  then show ?case by (auto simp: total_at_def nth_list_update)
qed

lemma sum_list_update_add:
  "d < length v \<Longrightarrow> sum_list (v[d := v ! d + x]) = sum_list v + (x :: real)"
  by (induction v arbitrary: d) (auto split: nat.splits)

lemma sum_list_add_entries:
  "\<forall>p \<in> set es. fst p < length v \<Longrightarrow>
   sum_list (add_entries v es) = sum_list v + sum_list (map snd es)"
proof (induction es arbitrary: v)
  case Nil
  then show ?case by simp
next
  case (Cons p es)
  then show ?case by (simp add: sum_list_update_add)
qed

lemma length_diag_mat [simp]: "length (diag_mat v) = length v"
  by (simp add: diag_mat_def)

lemma diag_mat_nth:
  "i < length v \<Longrightarrow> j < length v \<Longrightarrow> diag_mat v ! i ! j = (if i = j then v ! i else 0)"
  by (simp add: diag_mat_def zeros_def nth_list_update)

lemma square_diag_mat: "square (length v) (diag_mat v)"
  by (simp add: square_def diag_mat_def zeros_def list_all_length)

lemma zeros_mat_diag: "zeros_mat n n = diag_mat (zeros n)"
  by (rule nth_equalityI)
     (auto simp: zeros_mat_def diag_mat_def zeros_def intro: nth_equalityI)

lemma mat_set_diag_mat:
  "d < length v \<Longrightarrow> mat_set (diag_mat v) d d y = diag_mat (v[d := y])"
  by (rule nth_equalityI)
     (auto simp: mat_set_def diag_mat_def nth_list_update)

lemma add_at_diag_diag_mat:
  "d < length v \<Longrightarrow> add_at_diag (diag_mat v) d x = Inr (diag_mat (v[d := v ! d + x]))"
  by (simp add: add_at_diag_def mat_set_diag_mat diag_mat_nth)

lemma list_3:
  assumes "3 \<le> length (xs :: 'a list)"
  obtains a b c rest where "xs = a # b # c # rest"
proof -
  from assms obtain a xs1 where 1: "xs = a # xs1" by (cases xs) auto
  with assms obtain b xs2 where 2: "xs1 = b # xs2" by (cases xs1) auto
  with assms 1 obtain c rest where 3: "xs2 = c # rest" by (cases xs2) auto
  from 1 2 3 that show ?thesis by blast
qed

lemma mass_slot_diag:
  assumes "i < length node_dofs" and "node_dofs ! i < int (length v)"
  shows "mass_slot m node_dofs (diag_mat v) i =
     Inr (diag_mat (if 0 \<le> node_dofs ! i
                    then v[nat (node_dofs ! i) := v ! nat (node_dofs ! i) + m] else v))"
  using assms by (simp add: mass_slot_def index_at_def add_at_diag_diag_mat)

lemma mass_node_diag:
  assumes dm: "map_of dm node_id = Some node_dofs" and l: "3 \<le> length node_dofs"
    and r: "\<forall>dof \<in> set (take 3 node_dofs). dof < int (length v)"
  shows "mass_node dm m (diag_mat v) node_id =
     Inr (diag_mat (add_entries v (node_mass_entries m node_dofs)))"
proof -
  from l obtain a b c rest where nd: "node_dofs = a # b # c # rest" by (rule list_3)
  from r have r': "a < int (length v)" "b < int (length v)" "c < int (length v)"
    by (simp_all add: nd)
  let ?v1 = "if 0 \<le> a then v[nat a := v ! nat a + m] else v"
  let ?v2 = "if 0 \<le> b then ?v1[nat b := ?v1 ! nat b + m] else ?v1"
  let ?v3 = "if 0 \<le> c then ?v2[nat c := ?v2 ! nat c + m] else ?v2"
  have 1: "mass_slot m node_dofs (diag_mat v) 0 = Inr (diag_mat ?v1)"
    using mass_slot_diag[of 0 node_dofs v m] r' by (simp add: nd)
  have 2: "mass_slot m node_dofs (diag_mat ?v1) 1 = Inr (diag_mat ?v2)"
    using mass_slot_diag[of 1 node_dofs ?v1 m] r' by (simp add: nd)
  have 3: "mass_slot m node_dofs (diag_mat ?v2) 2 = Inr (diag_mat ?v3)"
    using mass_slot_diag[of 2 node_dofs ?v2 m] r' by (simp add: nd)
  have "add_entries v (node_mass_entries m node_dofs) = ?v3"
    by (simp add: node_mass_entries_def nd eval_nat_numeral)
  moreover have "mass_node dm m (diag_mat v) node_id = Inr (diag_mat ?v3)"
    by (simp only: mass_node_def lookup_def dm option.case bind_exn_simps fold_exn.simps 1 2 3)
  ultimately show ?thesis by simp
qed

lemma mass_nodes_diag:
  assumes "\<forall>node_id \<in> set ids. \<exists>node_dofs. map_of dm node_id = Some node_dofs \<and>
      3 \<le> length node_dofs \<and> (\<forall>dof \<in> set (take 3 node_dofs). dof < int (length v))"
  shows "fold_exn (mass_node dm m) (diag_mat v) ids =
     Inr (diag_mat (add_entries v
       (concat (map (\<lambda>node_id. case map_of dm node_id of
                                  None \<Rightarrow> []
                                | Some node_dofs \<Rightarrow> node_mass_entries m node_dofs) ids))))"
  using assms
proof (induction ids arbitrary: v)
  case Nil
  show ?case by simp
next
  case (Cons node_id ids)
  from Cons.prems obtain node_dofs where nd: "map_of dm node_id = Some node_dofs"
    "3 \<le> length node_dofs" "\<forall>dof \<in> set (take 3 node_dofs). dof < int (length v)"
    by auto
  let ?v1 = "add_entries v (node_mass_entries m node_dofs)"
  have "fold_exn (mass_node dm m) (diag_mat ?v1) ids =
     Inr (diag_mat (add_entries ?v1
       (concat (map (\<lambda>node_id. case map_of dm node_id of
                                  None \<Rightarrow> []
                                | Some node_dofs \<Rightarrow> node_mass_entries m node_dofs) ids))))"
    using Cons.prems by (intro Cons.IH) simp
  then show ?case
    by (simp add: mass_node_diag[OF nd] nd(1))
qed

lemma setup_dof_mapping_fields [simp]:
  "nodes (setup_dof_mapping e) = nodes e"
  "materials (setup_dof_mapping e) = materials e"
  "sections (setup_dof_mapping e) = sections e"
  "elements (setup_dof_mapping e) = elements e"
  "loads (setup_dof_mapping e) = loads e"
  "constraints (setup_dof_mapping e) = constraints e"
  by (simp_all add: setup_dof_mapping_def split: prod.splits)

lemma total_dofs_setup:
  "total_dofs (setup_dof_mapping e) = count_true (masks_of (nodes e))"
  using foldl_dof_node_counter[of "dof_map e" 0 "nodes e"]
  by (auto simp: setup_dof_mapping_def split: prod.splits)

lemma dof_map_setup:
  assumes "distinct (map fst (nodes e))" and "k < length (nodes e)"
  shows "map_of (dof_map (setup_dof_mapping e)) (fst (nodes e ! k)) =
     Some (consecutive (count_true (masks_of (take k (nodes e))))
             (Node_dofs (snd (nodes e ! k))))"
  using foldl_dof_node_nth[OF assms, of "dof_map e" 0]
  by (auto simp: setup_dof_mapping_def split: prod.splits)

lemma count_true_take_less:
  "j < length bs \<Longrightarrow> bs ! j \<Longrightarrow> j < j' \<Longrightarrow> count_true (take j bs) < count_true (take j' bs)"
proof -
  assume a: "j < length bs" "bs ! j" "j < j'"
  have "take (Suc j) bs = take j bs @ [bs ! j]"
    using a(1) by (rule take_Suc_conv_app_nth)
  with a(2) have 1: "count_true (take (Suc j) bs) = Suc (count_true (take j bs))"
    by (simp add: count_true_def)
  from a(3) have "take j' bs = take (Suc j) bs @ take (j' - Suc j) (drop (Suc j) bs)"
    by (metis Suc_leI le_add_diff_inverse take_add)
  then have "count_true (take (Suc j) bs) \<le> count_true (take j' bs)"
    by simp
  with 1 show ?thesis by simp
qed

lemma masks_of_take_Suc:
  "k < length ns \<Longrightarrow> masks_of (take (Suc k) ns) = masks_of (take k ns) @ Node_dofs (snd (ns ! k))"
  by (simp add: take_Suc_conv_app_nth)

lemma count_true_masks_mono:
  "k \<le> k' \<Longrightarrow> count_true (masks_of (take k ns)) \<le> count_true (masks_of (take k' ns))"
proof -
  assume "k \<le> k'"
  then have "take k' ns = take k ns @ take (k' - k) (drop k ns)"
    by (metis le_add_diff_inverse take_add)
  then have "masks_of (take k' ns) = masks_of (take k ns) @ masks_of (take (k' - k) (drop k ns))"
    by simp
  then show ?thesis by simp
qed

lemma slot_number_less_next:
  assumes "k < length ns" "j < length (Node_dofs (snd (ns ! k)))" "Node_dofs (snd (ns ! k)) ! j"
  shows "slot_number ns k j < count_true (masks_of (take (Suc k) ns))"
proof -
  let ?m = "Node_dofs (snd (ns ! k))"
  have "count_true (take j ?m) < count_true (take (length ?m) ?m)"
    using assms(2,3) by (intro count_true_take_less) simp_all
  then show ?thesis
    by (simp add: slot_number_def masks_of_take_Suc[OF assms(1)])
qed

lemma slot_number_less_total:
  assumes "k < length ns" "j < length (Node_dofs (snd (ns ! k)))" "Node_dofs (snd (ns ! k)) ! j"
  shows "slot_number ns k j < count_true (masks_of ns)"
proof -
  have "count_true (masks_of (take (Suc k) ns)) \<le> count_true (masks_of (take (length ns) ns))"
    using assms(1) by (intro count_true_masks_mono) simp
  with slot_number_less_next[OF assms] show ?thesis by simp
qed

lemma slot_number_less:
  assumes "k < length ns" "j < length (Node_dofs (snd (ns ! k)))" "Node_dofs (snd (ns ! k)) ! j"
    and "k < k' \<or> (k = k' \<and> j < j')"
  shows "slot_number ns k j < slot_number ns k' j'"
proof (cases "k = k'")
  case True
  with assms(4) have "j < j'" by simp
  from count_true_take_less[OF assms(2,3) this] True show ?thesis
    by (simp add: slot_number_def)
next
  case False
  with assms(4) have "Suc k \<le> k'" by simp
  from count_true_masks_mono[OF this, of ns] slot_number_less_next[OF assms(1-3)]
  show ?thesis by (simp add: slot_number_def)
qed

lemma slot_number_inj:
  assumes "k < length ns" "j < length (Node_dofs (snd (ns ! k)))" "Node_dofs (snd (ns ! k)) ! j"
    and "k' < length ns" "j' < length (Node_dofs (snd (ns ! k')))" "Node_dofs (snd (ns ! k')) ! j'"
    and "slot_number ns k j = slot_number ns k' j'"
  shows "k = k' \<and> j = j'"
proof (rule ccontr)
  assume "\<not> (k = k' \<and> j = j')"
  then consider "k < k' \<or> (k = k' \<and> j < j')" | "k' < k \<or> (k' = k \<and> j' < j)"
    by linarith
  then show False
  proof cases
    case 1
    from slot_number_less[OF assms(1-3) 1] assms(7) show False by simp
  next
    case 2
    from slot_number_less[OF assms(4-6) 2] assms(7) show False by simp
  qed
qed

lemma consecutive_slot:
  assumes "k < length ns" "j < length (Node_dofs (snd (ns ! k)))"
  shows "consecutive (count_true (masks_of (take k ns))) (Node_dofs (snd (ns ! k))) ! j =
     (if Node_dofs (snd (ns ! k)) ! j then int (slot_number ns k j) else - 1)"
  using assms by (simp add: consecutive_nth slot_number_def)

lemma mass_ready_elementE:
  assumes "mass_ready_element e el"
  obtains id1 id2 node1 node2 material sid sec where
    "Element_nodes el = [id1, id2]" "map_of (nodes e) id1 = Some node1"
    "map_of (nodes e) id2 = Some node2"
    "map_of (materials e) (Element_material_id el) = Some material" "0 \<le> Material_rho material"
    "Element_section_id el = Some sid" "map_of (sections e) sid = Some sec"
    "0 \<le> Section_A sec"
proof -
  from assms obtain id1 id2 where n: "Element_nodes el = [id1, id2]"
    "map_of (nodes e) id1 \<noteq> None" "map_of (nodes e) id2 \<noteq> None"
    by (auto simp: mass_ready_element_def split: list.splits)
  from assms obtain material where m: "map_of (materials e) (Element_material_id el) = Some material"
    "0 \<le> Material_rho material"
    by (auto simp: mass_ready_element_def split: option.splits)
  from assms obtain sec where "sections_get e (Element_section_id el) = Some sec"
    and A: "0 \<le> Section_A sec"
    by (auto simp: mass_ready_element_def split: option.splits)
  then obtain sid where s: "Element_section_id el = Some sid" "map_of (sections e) sid = Some sec"
    by (auto simp: sections_get_def split: option.splits)
  from n m s A that show ?thesis by auto
qed

lemma node_index:
  assumes "map_of ns node_id = Some node"
  obtains k where "k < length ns" "ns ! k = (node_id, node)"
  using assms by (meson in_set_conv_nth map_of_SomeD)

lemma dof_map_node:
  assumes mm: "mass_model e" and n: "map_of (nodes e) node_id = Some node"
  obtains k node_dofs where "k < length (nodes e)" "nodes e ! k = (node_id, node)"
    "map_of (dof_map (setup_dof_mapping e)) node_id = Some node_dofs"
    "length node_dofs = 6" "length (Node_dofs node) = 6"
    "\<forall>j < 6. node_dofs ! j =
       (if Node_dofs node ! j then int (slot_number (nodes e) k j) else - 1)"
    "\<forall>dof \<in> set node_dofs. dof < int (total_dofs (setup_dof_mapping e))"
proof -
  from n obtain k where k: "k < length (nodes e)" "nodes e ! k = (node_id, node)"
    by (rule node_index)
  from mm have d: "distinct (map fst (nodes e))" by (simp add: mass_model_def)
  let ?nd = "consecutive (count_true (masks_of (take k (nodes e)))) (Node_dofs node)"
  from dof_map_setup[OF d k(1)] k(2) have
    nd: "map_of (dof_map (setup_dof_mapping e)) node_id = Some ?nd"
    by simp
  from mm k have l: "length (Node_dofs node) = 6"
    by (auto simp: mass_model_def list_all_length)
  have slots: "\<forall>j < 6. ?nd ! j =
      (if Node_dofs node ! j then int (slot_number (nodes e) k j) else - 1)"
    using consecutive_slot[OF k(1), unfolded k(2)] l by simp
  have "dof < int (total_dofs (setup_dof_mapping e))" if "dof \<in> set ?nd" for dof
  proof -
    from that l obtain j where j: "j < 6" "dof = ?nd ! j"
      by (auto simp: in_set_conv_nth)
    show ?thesis
    proof (cases "Node_dofs node ! j")
      case True
      from slot_number_less_total[OF k(1), of j] k(2) l j(1) True
      have "slot_number (nodes e) k j < count_true (masks_of (nodes e))" by simp
      with slots j True show ?thesis by (simp add: total_dofs_setup)
    next
      case False
      with slots j show ?thesis by simp
    qed
  qed
  with k nd l slots that show ?thesis by simp
qed

lemma element_mass_setup [simp]:
  "element_mass (setup_dof_mapping e) el = element_mass e el"
  unfolding element_mass_def sections_get_def setup_dof_mapping_fields ..

lemma mass_ready_element_mass:
  assumes "mass_ready_element e el"
  shows "0 \<le> element_mass e el"
  using assms by (elim mass_ready_elementE) (simp add: element_mass_def sections_get_def)

lemma mass_element_diag:
  assumes mm: "mass_model e" and el: "mass_ready_element e el"
    and v: "length v = total_dofs (setup_dof_mapping e)"
  shows "mass_element (setup_dof_mapping e) (diag_mat v) el =
     Inr (diag_mat (add_entries v (element_mass_entries (setup_dof_mapping e) el)))"
proof -
  let ?e1 = "setup_dof_mapping e"
  from el obtain id1 id2 node1 node2 material sid sec where
    w: "Element_nodes el = [id1, id2]" "map_of (nodes e) id1 = Some node1"
    "map_of (nodes e) id2 = Some node2"
    "map_of (materials e) (Element_material_id el) = Some material"
    "Element_section_id el = Some sid" "map_of (sections e) sid = Some sec"
    by (rule mass_ready_elementE)
  have ids: "\<forall>node_id \<in> set [id1, id2]. \<exists>node_dofs.
      map_of (dof_map ?e1) node_id = Some node_dofs \<and> 3 \<le> length node_dofs \<and>
      (\<forall>dof \<in> set (take 3 node_dofs). dof < int (length v))"
  proof
    fix node_id assume "node_id \<in> set [id1, id2]"
    with w obtain node where "map_of (nodes e) node_id = Some node" by auto
    from dof_map_node[OF mm this] obtain node_dofs where
      nd: "map_of (dof_map ?e1) node_id = Some node_dofs" "length node_dofs = 6"
      "\<forall>dof \<in> set node_dofs. dof < int (total_dofs ?e1)"
      by metis
    moreover from nd(3) have "\<forall>dof \<in> set (take 3 node_dofs). dof < int (length v)"
      using v by (auto dest: in_set_takeD)
    ultimately show "\<exists>node_dofs. map_of (dof_map ?e1) node_id = Some node_dofs \<and>
        3 \<le> length node_dofs \<and> (\<forall>dof \<in> set (take 3 node_dofs). dof < int (length v))"
      by simp
  qed
  let ?m = "Material_rho material * Section_A sec *
      sqrt ((Node_x node2 - Node_x node1)\<^sup>2 + (Node_y node2 - Node_y node1)\<^sup>2
            + (Node_z node2 - Node_z node1)\<^sup>2)"
  have m: "element_mass ?e1 el = ?m"
    by (simp add: element_mass_def sections_get_def w)
  have "mass_element ?e1 (diag_mat v) el =
      fold_exn (mass_node (dof_map ?e1) (?m / 2)) (diag_mat v) [id1, id2]"
    by (simp add: mass_element_def lookup_def sections_get_def index_at_def w Let_def)
  also have "\<dots> = Inr (diag_mat (add_entries v (element_mass_entries ?e1 el)))"
    unfolding mass_nodes_diag[OF ids] element_mass_entries_def m w(1) ..
  finally show ?thesis .
qed

lemma mass_elements_diag:
  assumes mm: "mass_model e" and els: "\<forall>el \<in> set els. mass_ready_element e el"
    and v: "length v = total_dofs (setup_dof_mapping e)"
  shows "fold_exn (mass_element (setup_dof_mapping e)) (diag_mat v) els =
     Inr (diag_mat (add_entries v
       (concat (map (element_mass_entries (setup_dof_mapping e)) els))))"
  using els v
proof (induction els arbitrary: v)
  case Nil
  show ?case by simp
next
  case (Cons el els)
  from Cons.prems have el: "mass_ready_element e el" by simp
  let ?v1 = "add_entries v (element_mass_entries (setup_dof_mapping e) el)"
  have "fold_exn (mass_element (setup_dof_mapping e)) (diag_mat ?v1) els =
     Inr (diag_mat (add_entries ?v1
       (concat (map (element_mass_entries (setup_dof_mapping e)) els))))"
    using Cons.prems by (intro Cons.IH) simp_all
  then show ?case
    by (simp add: mass_element_diag[OF mm el Cons.prems(2)])
qed

lemma assemble_global_mass_diag:
  assumes "mass_model e"
  shows "assemble_global_mass (setup_dof_mapping e) =
     Inr ((setup_dof_mapping e)\<lparr>M_global :=
       Some (diag_mat (add_entries (zeros (total_dofs (setup_dof_mapping e)))
                         (mass_entries (setup_dof_mapping e))))\<rparr>)"
proof -
  from assms have "\<forall>el \<in> set (map snd (elements e)). mass_ready_element e el"
    by (auto simp: mass_model_def list_all_iff)
  from mass_elements_diag[OF assms this, of "zeros (total_dofs (setup_dof_mapping e))"]
  show ?thesis
    by (simp add: assemble_global_mass_def zeros_mat_diag zeros_def mass_entries_def)
qed

lemma trace_diag_mat: "trace (diag_mat v) = sum_list v"
proof -
  have "map (\<lambda>i. diag_mat v ! i ! i) [0..<length v] = map (\<lambda>i. v ! i) [0..<length v]"
    by (simp add: diag_mat_nth)
  then show ?thesis by (simp add: trace_def map_nth)
qed

lemma total_at_nonneg: "\<forall>p \<in> set es. 0 \<le> snd p \<Longrightarrow> 0 \<le> total_at es d"
  by (auto simp: total_at_def intro!: sum_list_nonneg)

lemma total_at_absent: "\<forall>p \<in> set es. fst p \<noteq> d \<Longrightarrow> total_at es d = 0"
  by (simp add: total_at_def filter_False)

lemma node_mass_entries_sum:
  assumes "3 \<le> length node_dofs" "\<forall>j < 3. 0 \<le> node_dofs ! j"
  shows "sum_list (map snd (node_mass_entries m node_dofs)) = 3 * m"
proof -
  from assms(1) obtain a b c rest where nd: "node_dofs = a # b # c # rest" by (rule list_3)
  from assms(2)[rule_format, of 0] assms(2)[rule_format, of 1] assms(2)[rule_format, of 2]
  have "0 \<le> a" "0 \<le> b" "0 \<le> c" by (simp_all add: nd)
  then show ?thesis by (simp add: node_mass_entries_def nd eval_nat_numeral)
qed

lemma node_mass_entries_member:
  assumes "p \<in> set (node_mass_entries m node_dofs)"
  obtains i where "i < 3" "i < length node_dofs" "0 \<le> node_dofs ! i"
    "fst p = nat (node_dofs ! i)" "snd p = m"
proof -
  from assms obtain dof where d: "dof \<in> set (take 3 node_dofs)" "0 \<le> dof" "p = (nat dof, m)"
    by (auto simp: node_mass_entries_def)
  from d(1) obtain i where "i < length (take 3 node_dofs)" "take 3 node_dofs ! i = dof"
    by (auto simp: in_set_conv_nth)
  then have "i < 3" "i < length node_dofs" "node_dofs ! i = dof" by simp_all
  with d that show ?thesis by simp
qed

lemma mass_entries_member:
  assumes mm: "mass_model e" and p: "p \<in> set (mass_entries (setup_dof_mapping e))"
  obtains k i where "k < length (nodes e)" "i < 3" "Node_dofs (snd (nodes e ! k)) ! i"
    "fst p = slot_number (nodes e) k i" "0 \<le> snd p"
    "fst p < total_dofs (setup_dof_mapping e)"
proof -
  let ?e1 = "setup_dof_mapping e"
  from p obtain el node_id where el: "el \<in> set (map snd (elements e))"
    and nid: "node_id \<in> set (Element_nodes el)"
    and p': "p \<in> set (case map_of (dof_map ?e1) node_id of None \<Rightarrow> []
                       | Some node_dofs \<Rightarrow> node_mass_entries (element_mass ?e1 el / 2) node_dofs)"
    by (auto simp: mass_entries_def element_mass_entries_def)
  from mm el have ready: "mass_ready_element e el"
    by (auto simp: mass_model_def list_all_iff)
  from ready nid obtain node where "map_of (nodes e) node_id = Some node"
    by (elim mass_ready_elementE) auto
  from dof_map_node[OF mm this] obtain k node_dofs where
    k: "k < length (nodes e)" "nodes e ! k = (node_id, node)" and
    nd: "map_of (dof_map ?e1) node_id = Some node_dofs" "length node_dofs = 6" and
    slots: "\<forall>j < 6. node_dofs ! j =
       (if Node_dofs node ! j then int (slot_number (nodes e) k j) else - 1)" and
    range: "\<forall>dof \<in> set node_dofs. dof < int (total_dofs ?e1)"
    by metis
  from p' nd(1) have "p \<in> set (node_mass_entries (element_mass ?e1 el / 2) node_dofs)"
    by simp
  then obtain i where i: "i < 3" "i < length node_dofs" "0 \<le> node_dofs ! i"
    "fst p = nat (node_dofs ! i)" "snd p = element_mass ?e1 el / 2"
    by (rule node_mass_entries_member)
  from i(1) slots have s: "node_dofs ! i =
      (if Node_dofs node ! i then int (slot_number (nodes e) k i) else - 1)"
    by simp
  with i(3) have active: "Node_dofs node ! i"
    by (auto split: if_splits)
  with s i(4) have num: "fst p = slot_number (nodes e) k i" by simp
  from range i(2) have "node_dofs ! i < int (total_dofs ?e1)" by simp
  with i(3,4) have "fst p < total_dofs ?e1" by simp
  moreover from mass_ready_element_mass[OF ready] i(5) have "0 \<le> snd p" by simp
  ultimately show ?thesis
    using that k active num i(1) by simp
qed

lemma mass_entries_sum_all_active:
  assumes mm: "mass_model e"
    and act: "list_all (\<lambda>item. take 3 (Node_dofs (snd item)) = [True, True, True]) (nodes e)"
  shows "sum_list (map snd (mass_entries (setup_dof_mapping e))) = 3 * total_mass e"
proof -
  let ?e1 = "setup_dof_mapping e"
  have one: "sum_list (map snd (element_mass_entries ?e1 el)) = 3 * element_mass e el"
    if "mass_ready_element e el" for el
  proof -
    from that obtain id1 id2 node1 node2 where
      w: "Element_nodes el = [id1, id2]" "map_of (nodes e) id1 = Some node1"
      "map_of (nodes e) id2 = Some node2"
      by (rule mass_ready_elementE)
    have node: "\<exists>node_dofs. map_of (dof_map ?e1) node_id = Some node_dofs \<and>
        (\<forall>m. sum_list (map snd (node_mass_entries m node_dofs)) = 3 * m)"
      if "map_of (nodes e) node_id = Some node" for node_id node
    proof -
      from dof_map_node[OF mm that] obtain k node_dofs where
        k: "k < length (nodes e)" "nodes e ! k = (node_id, node)" and
        nd: "map_of (dof_map ?e1) node_id = Some node_dofs" "length node_dofs = 6" and
        l: "length (Node_dofs node) = 6" and
        slots: "\<forall>j < 6. node_dofs ! j =
          (if Node_dofs node ! j then int (slot_number (nodes e) k j) else - 1)"
        by metis
      from act k have t: "take 3 (Node_dofs node) = [True, True, True]"
        by (auto simp: list_all_length)
      have "Node_dofs node ! j" if "j < 3" for j
      proof -
        from that l have "Node_dofs node ! j = take 3 (Node_dofs node) ! j" by simp
        also have "\<dots>" using that unfolding t by (auto simp: less_Suc_eq eval_nat_numeral)
        finally show ?thesis .
      qed
      with slots have "\<forall>j < 3. 0 \<le> node_dofs ! j" by simp
      from node_mass_entries_sum[OF _ this] nd show ?thesis by simp
    qed
    from node[OF w(2)] node[OF w(3)] obtain nd1 nd2 where
      "map_of (dof_map ?e1) id1 = Some nd1" "map_of (dof_map ?e1) id2 = Some nd2"
      "\<forall>m. sum_list (map snd (node_mass_entries m nd1)) = 3 * m"
      "\<forall>m. sum_list (map snd (node_mass_entries m nd2)) = 3 * m"
      by blast
    then show ?thesis
      by (simp add: element_mass_entries_def w(1))
  qed
  have all: "sum_list (map snd (concat (map (element_mass_entries ?e1) els))) =
      3 * sum_list (map (element_mass e) els)"
    if "\<forall>el \<in> set els. mass_ready_element e el" for els
    using that by (induction els) (simp_all add: one algebra_simps)
  from mm have "\<forall>el \<in> set (map snd (elements e)). mass_ready_element e el"
    by (auto simp: mass_model_def list_all_iff)
  from all[OF this] show ?thesis
    unfolding mass_entries_def total_mass_def setup_dof_mapping_fields .
qed

lemma mass_rotational_absent:
  assumes mm: "mass_model e" and n: "map_of (nodes e) node_id = Some node"
    and nd: "map_of (dof_map (setup_dof_mapping e)) node_id = Some node_dofs"
    and j: "3 \<le> j" "j < 6" "0 \<le> node_dofs ! j"
  shows "total_at (mass_entries (setup_dof_mapping e)) (nat (node_dofs ! j)) = 0"
proof (rule total_at_absent, rule ballI, rule notI)
  fix p assume p: "p \<in> set (mass_entries (setup_dof_mapping e))"
    and eq: "fst p = nat (node_dofs ! j)"
  from dof_map_node[OF mm n] nd obtain k where
    k: "k < length (nodes e)" "nodes e ! k = (node_id, node)" and
    l: "length (Node_dofs node) = 6" and
    slots: "\<forall>j < 6. node_dofs ! j =
       (if Node_dofs node ! j then int (slot_number (nodes e) k j) else - 1)"
    by (metis option.inject)
  from slots j have act: "Node_dofs node ! j" and
    num: "nat (node_dofs ! j) = slot_number (nodes e) k j"
    by (auto split: if_splits)
  from p obtain k' i where
    k': "k' < length (nodes e)" "i < 3" "Node_dofs (snd (nodes e ! k')) ! i"
    "fst p = slot_number (nodes e) k' i"
    by (rule mass_entries_member[OF mm])
  from mm k'(1) have l': "length (Node_dofs (snd (nodes e ! k'))) = 6"
    by (auto simp: mass_model_def list_all_length)
  from slot_number_inj[of k "nodes e" j k' i] k l act j(2) k' l' eq num
  have "j = i" by simp
  with j(1) k'(2) show False by simp
qed

text \<open>
  Claim C10, amended. For a model as above, after the DOF map is built the mass assembly
  succeeds and stores a square matrix \<open>M\<close> of the size of the DOF count with zeros off
  the diagonal and non-negative diagonal entries; the entry of DOF \<open>d\<close> is the sum of
  \<open>rho A L / 2\<close> over the elements, their two nodes, and those of the node's three
  translational slots that are numbered \<open>d\<close>; an active rotational slot of a node has a
  zero entry; the trace is the sum of all those halves, and it is three times (not twice)
  the total mass when the translational DOFs of all nodes are active.
\<close>

theorem lumped_mass_matrix:
  assumes "mass_model e"
  shows "\<exists>M.
     assemble_global_mass (setup_dof_mapping e) =
       Inr ((setup_dof_mapping e)\<lparr>M_global := Some M\<rparr>) \<and>
     square (total_dofs (setup_dof_mapping e)) M \<and>
     (\<forall>i < total_dofs (setup_dof_mapping e). \<forall>j < total_dofs (setup_dof_mapping e).
        i \<noteq> j \<longrightarrow> M ! i ! j = 0) \<and>
     (\<forall>d < total_dofs (setup_dof_mapping e).
        0 \<le> M ! d ! d \<and> M ! d ! d = total_at (mass_entries (setup_dof_mapping e)) d) \<and>
     (\<forall>node_id node node_dofs j.
        map_of (nodes e) node_id = Some node \<and>
        map_of (dof_map (setup_dof_mapping e)) node_id = Some node_dofs \<and>
        3 \<le> j \<and> j < 6 \<and> 0 \<le> node_dofs ! j \<longrightarrow>
        M ! nat (node_dofs ! j) ! nat (node_dofs ! j) = 0) \<and>
     trace M = sum_list (map snd (mass_entries (setup_dof_mapping e))) \<and>
     (list_all (\<lambda>item. take 3 (Node_dofs (snd item)) = [True, True, True]) (nodes e) \<longrightarrow>
        trace M = 3 * total_mass e)"
proof -
  let ?e1 = "setup_dof_mapping e"
  let ?N = "total_dofs ?e1"
  let ?es = "mass_entries ?e1"
  let ?w = "add_entries (zeros ?N) ?es"
  let ?M = "diag_mat ?w"
  have lw: "length ?w = ?N" by (simp add: zeros_def)
  have pos: "\<forall>p \<in> set ?es. 0 \<le> snd p" and range: "\<forall>p \<in> set ?es. fst p < length (zeros ?N)"
    using mass_entries_member[OF assms] by (auto simp: zeros_def) (metis+)
  have wd: "?w ! d = total_at ?es d" if "d < ?N" for d
    using add_entries_nth[of d "zeros ?N" ?es] that by (simp add: zeros_def)
  have 1: "assemble_global_mass ?e1 = Inr (?e1\<lparr>M_global := Some ?M\<rparr>)"
    by (rule assemble_global_mass_diag[OF assms])
  have 2: "square ?N ?M"
    using square_diag_mat[of ?w] by (simp only: lw)
  have 3: "\<forall>i < ?N. \<forall>j < ?N. i \<noteq> j \<longrightarrow> ?M ! i ! j = 0"
    by (auto simp: diag_mat_nth zeros_def)
  have 4: "\<forall>d < ?N. 0 \<le> ?M ! d ! d \<and> ?M ! d ! d = total_at ?es d"
    by (auto simp: diag_mat_nth zeros_def wd[unfolded zeros_def] total_at_nonneg[OF pos])
  have 5: "?M ! nat (node_dofs ! j) ! nat (node_dofs ! j) = 0"
    if "map_of (nodes e) node_id = Some node" "map_of (dof_map ?e1) node_id = Some node_dofs"
      "3 \<le> j" "j < 6" "0 \<le> node_dofs ! j" for node_id node node_dofs j
  proof -
    from dof_map_node[OF assms that(1)] that(2) have
      "length node_dofs = 6" "\<forall>dof \<in> set node_dofs. dof < int ?N"
      by (metis option.inject)+
    with that(4,5) have d: "nat (node_dofs ! j) < ?N"
      by (metis nat_less_iff nth_mem)
    from mass_rotational_absent[OF assms that] d show ?thesis
      by (auto simp: diag_mat_nth zeros_def wd[unfolded zeros_def])
  qed
  have "sum_list (zeros ?N) = 0"
    by (simp add: zeros_def sum_list_replicate)
  with sum_list_add_entries[OF range] have 6: "trace ?M = sum_list (map snd ?es)"
    by (simp add: trace_diag_mat)
  have 7: "list_all (\<lambda>item. take 3 (Node_dofs (snd item)) = [True, True, True]) (nodes e) \<longrightarrow>
      trace ?M = 3 * total_mass e"
    using mass_entries_sum_all_active[OF assms] 6 by simp
  from 1 2 3 4 5 6 7 show ?thesis
    by (intro exI[of _ ?M]) blast
qed

lemma axial_truss_fields:
  "nodes (axial_truss msk) =
     [(0, \<lparr>Node_id = 0, Node_x = 0, Node_y = 0, Node_z = 0, Node_dofs = msk\<rparr>),
      (1, \<lparr>Node_id = 1, Node_x = 1, Node_y = 0, Node_z = 0, Node_dofs = msk\<rparr>)]"
  "materials (axial_truss msk) = [(1, steel)]"
  "sections (axial_truss msk) = [(1, bar_section)]"
  "elements (axial_truss msk) = [(1, bar_element)]"
  by (simp_all add: engine_defs steel_def bar_section_def bar_element_def)

lemma mass_model_axial_truss: "mass_model (axial_truss mask_all)"
  by (simp add: mass_model_def mass_ready_element_def axial_truss_fields mask_all_def
      sections_get_def bar_element_def steel_def bar_section_def)

lemma total_mass_axial_truss: "total_mass (axial_truss msk) = 157 / 2"
  by (simp add: total_mass_def element_mass_def axial_truss_fields sections_get_def
      bar_element_def steel_def bar_section_def)

lemma translations_active_axial_truss:
  "list_all (\<lambda>item. take 3 (Node_dofs (snd item)) = [True, True, True])
     (nodes (axial_truss mask_all))"
  by (simp add: axial_truss_fields mask_all_def)

text \<open>
  Claim C10, as stated, fails on the trace: for the bar of the scenario (mass
  \<open>7850 * 0.01 * 1 = 78.5\<close>, all DOFs active) the trace of the lumped mass matrix is
  \<open>235.5\<close>, three times the mass, not twice.
\<close>

theorem lumped_mass_trace_counterexample:
  "\<exists>M. assemble_global_mass (setup_dof_mapping (axial_truss mask_all)) =
          Inr ((setup_dof_mapping (axial_truss mask_all))\<lparr>M_global := Some M\<rparr>) \<and>
        total_mass (axial_truss mask_all) = 157 / 2 \<and> trace M = 471 / 2 \<and>
        trace M \<noteq> 2 * total_mass (axial_truss mask_all)"
proof -
  let ?e1 = "setup_dof_mapping (axial_truss mask_all)"
  let ?w = "add_entries (zeros (total_dofs ?e1)) (mass_entries ?e1)"
  have range: "\<forall>p \<in> set (mass_entries ?e1). fst p < length (zeros (total_dofs ?e1))"
    using mass_entries_member[OF mass_model_axial_truss] by (auto simp: zeros_def) metis
  have "sum_list (zeros (total_dofs ?e1)) = 0"
    by (simp add: zeros_def sum_list_replicate)
  with sum_list_add_entries[OF range]
    mass_entries_sum_all_active[OF mass_model_axial_truss translations_active_axial_truss]
  have "trace (diag_mat ?w) = 471 / 2"
    by (simp add: trace_diag_mat total_mass_axial_truss)
  with assemble_global_mass_diag[OF mass_model_axial_truss] show ?thesis
    by (intro exI[of _ "diag_mat ?w"]) (simp add: total_mass_axial_truss)
qed

theorem lumped_mass_matrix_witness:
  "\<exists>M. assemble_global_mass (setup_dof_mapping (axial_truss mask_all)) =
          Inr ((setup_dof_mapping (axial_truss mask_all))\<lparr>M_global := Some M\<rparr>) \<and>
        square 12 M \<and> trace M = 3 * (157 / 2)"
proof -
  from lumped_mass_matrix[OF mass_model_axial_truss] translations_active_axial_truss
  obtain M where
    "assemble_global_mass (setup_dof_mapping (axial_truss mask_all)) =
       Inr ((setup_dof_mapping (axial_truss mask_all))\<lparr>M_global := Some M\<rparr>)"
    "square (total_dofs (setup_dof_mapping (axial_truss mask_all))) M"
    "trace M = 3 * total_mass (axial_truss mask_all)"
    by blast
  moreover have "total_dofs (setup_dof_mapping (axial_truss mask_all)) = 12"
    by (simp add: total_dofs_setup axial_truss_fields mask_all_def count_true_def)
  ultimately show ?thesis
    by (intro exI[of _ M]) (simp add: total_mass_axial_truss)
qed

subsection \<open>Modal frequencies\<close>

text \<open>
  What \<open>solve_modal\<close> itself fixes of a successful result: the frequencies are
  \<open>sqrt w / (2 pi)\<close> of the eigenvalues that \<open>eigsh\<close> returned for the stored \<open>K\<close> and \<open>M\<close>,
  in the order returned, and the mode shapes are its eigenvectors unchanged. Which
  eigenvalues these are, their order and the scaling of the vectors are left to \<open>eigsh\<close>.
\<close>

lemma solve_modal_frequencies:
  assumes "solve_modal eg e num_modes = Success p e'"
  shows "\<exists>K M eigenvals eigenvecs.
           K_global e' = Some K \<and> M_global e' = Some M \<and>
           eg K num_modes M = Inr (eigenvals, eigenvecs) \<and>
           md_frequencies p = map (\<lambda>w. sqrt w / (2 * pi)) eigenvals \<and>
           md_mode_shapes p = eigenvecs \<and> md_num_modes p = num_modes"
  using assms unfolding solve_modal_def
  apply (simp only: catch_eq_Success)
  apply (elim bind_exn_InrE)
  apply (auto simp: attr_def Let_def split: option.splits prod.splits)
  done

end
